(* ===== verification/Prelude.thy ===== *)
theory Prelude
  imports Main "HOL-Library.Word" "HOL-Library.AList" "HOL-Library.Sublist"
begin

text \<open>
  Shared vocabulary of the development: names for the machine types of the program, the
  fragment of the Rust standard library that the modelled code calls (UTF-8 strings, saturating
  and truncating integer arithmetic, hash maps as association lists, the front-trimming loops of
  bounded buffers), and the generic lemmas about them.

  Conventions used by every theory:
  \<^item> a Rust \<open>String\<close> is the list of its UTF-8 bytes, one \<^typ>\<open>char\<close> per byte, so that \<open>len()\<close> is
    \<^const>\<open>length\<close>; case mapping and white space follow Rust on the ASCII range and leave the
    other bytes alone;
  \<^item> \<open>Instant\<close> and \<open>Duration\<close> are natural numbers of nanoseconds and \<open>DateTime\<close> is an integer
    number of nanoseconds; an operation that reads the clock takes the reading as an argument
    (one reading per call of the operation);
  \<^item> \<open>Uuid::new_v4()\<close> is an argument of the operation that draws it;
  \<^item> a \<open>HashMap\<close> that is iterated is an association list in its (unspecified) iteration order,
    one that is only indexed is a HOL map;
  \<^item> \<open>Result<T, E>\<close> is a sum, \<open>Inl\<close> the error.
\<close>

type_synonym u32 = "32 word"
type_synonym u64 = "64 word"
type_synonym instant = nat
type_synonym duration = nat
type_synonym datetime = int
type_synonym uuid = nat

abbreviation secs :: "nat \<Rightarrow> duration" where
  "secs n \<equiv> n * 1000000000"

text \<open>Facts that unfold or frame the operations of the components.\<close>

named_theorems frame_simps \<open>fields an operation leaves alone\<close>
named_theorems inv_intros \<open>operations keep their component's invariant\<close>

subsection \<open>Bounded buffers: keeping the most recent elements\<close>

text \<open>\<open>last_n n xs\<close> is what remains of \<open>xs\<close> when only its \<open>n\<close> most recent elements are kept.\<close>

definition last_n :: "nat \<Rightarrow> 'a list \<Rightarrow> 'a list" where
  "last_n n xs = drop (length xs - n) xs"

text \<open>\<open>Iterator::position\<close>: the index of the first element that satisfies a predicate.\<close>

fun position :: "('a \<Rightarrow> bool) \<Rightarrow> 'a list \<Rightarrow> nat option" where
  "position p [] = None"
| "position p (x # xs) = (if p x then Some 0 else map_option Suc (position p xs))"

lemma position_eq:
  "position p xs = (case find p xs of None \<Rightarrow> None | Some _ \<Rightarrow> Some (length (takeWhile (\<lambda>x. \<not> p x) xs)))"
  by (induction xs) (auto split: option.splits)

lemma position_SomeD: "position p xs = Some i \<Longrightarrow> i < length xs \<and> p (xs ! i)"
  by (induction xs arbitrary: i) (auto split: if_splits)

lemma position_None: "position p xs = None \<longleftrightarrow> (\<forall>x \<in> set xs. \<not> p x)"
  by (induction xs) auto

text \<open>The loop \<open>while q.len() > max { q.pop_front(); }\<close>.\<close>

fun pop_front_while :: "nat \<Rightarrow> 'a list \<Rightarrow> 'a list" where
  "pop_front_while m [] = []"
| "pop_front_while m (x # xs) =
     (if length (x # xs) > m then pop_front_while m xs else x # xs)"

lemma length_last_n [simp]: "length (last_n n xs) = min n (length xs)"
  by (simp add: last_n_def)

lemma last_n_all: "length xs \<le> n \<Longrightarrow> last_n n xs = xs"
  by (simp add: last_n_def)

lemma suffix_last_n: "suffix (last_n n xs) xs"
  by (simp add: last_n_def suffix_drop)

lemma last_n_append_last_n: "last_n n (last_n n xs @ ys) = last_n n (xs @ ys)"
proof (cases "length xs \<le> n")
  case True
  then show ?thesis by (simp add: last_n_all)
next
  case False
  define k where "k = length xs - n"
  have "last_n n (drop k xs @ ys) = drop (length ys) (drop k (xs @ ys))"
    using False by (simp add: last_n_def k_def)
  also have "\<dots> = last_n n (xs @ ys)"
    using False by (simp add: last_n_def k_def add.commute)
  finally show ?thesis by (simp add: last_n_def k_def)
qed

lemma last_n_snoc: "0 < n \<Longrightarrow> last_n n (xs @ [x]) = last_n (n - 1) xs @ [x]"
  by (cases n) (auto simp: last_n_def)

lemma pop_front_while_eq: "pop_front_while m xs = last_n m xs"
  by (induction xs) (auto simp: last_n_def Suc_diff_le)

text \<open>
  The interface of a bounded log: pushing an element appends it and drops the oldest elements
  beyond the capacity, in the states its invariant allows. The clients' facts (length bound, what
  a run of pushes keeps) are proved here once.
\<close>

locale bounded_log =
  fixes push :: "'a \<Rightarrow> 's \<Rightarrow> 's"
    and items :: "'s \<Rightarrow> 'a list"
    and cap :: "'s \<Rightarrow> nat"
    and ok :: "'s \<Rightarrow> bool"
  assumes items_push: "ok s \<Longrightarrow> items (push x s) = last_n (cap s) (items s @ [x])"
    and cap_push: "ok s \<Longrightarrow> cap (push x s) = cap s"
    and ok_push: "ok s \<Longrightarrow> ok (push x s)"
begin

lemma length_push: "ok s \<Longrightarrow> length (items (push x s)) \<le> cap s"
  by (simp add: items_push)

lemma ok_run: "ok s \<Longrightarrow> ok (fold push xs s)"
  by (induction xs arbitrary: s) (simp_all add: ok_push)

lemma cap_run: "ok s \<Longrightarrow> cap (fold push xs s) = cap s"
  by (induction xs arbitrary: s) (simp_all add: cap_push ok_push)

lemma items_run: "ok s \<Longrightarrow> length (items s) \<le> cap s \<Longrightarrow>
    items (fold push xs s) = last_n (cap s) (items s @ xs)"
proof (induction xs arbitrary: s)
  case Nil
  then show ?case by (simp add: last_n_all)
next
  case (Cons x xs)
  have "items (fold push xs (push x s)) = last_n (cap s) (items (push x s) @ xs)"
    using Cons.IH [of "push x s"] Cons.prems length_push [of s x] by (simp add: cap_push ok_push)
  then show ?case using Cons.prems by (simp add: items_push last_n_append_last_n)
qed

lemma newest_kept: "ok s \<Longrightarrow> 0 < cap s \<Longrightarrow> last (items (push x s)) = x"
  by (simp add: items_push last_n_snoc)

end

subsection \<open>Association lists as hash maps\<close>

abbreviation keys :: "('k \<times> 'v) list \<Rightarrow> 'k list" where
  "keys m \<equiv> map fst m"

abbreviation vals :: "('k \<times> 'v) list \<Rightarrow> 'v list" where
  "vals m \<equiv> map snd m"

lemma distinct_keys_update [simp]: "distinct (keys m) \<Longrightarrow> distinct (keys (AList.update k v m))"
  by (rule distinct_update)

lemma distinct_keys_delete [simp]: "distinct (keys m) \<Longrightarrow> distinct (keys (AList.delete k m))"
  by (rule distinct_delete)

lemma map_of_update_if: "map_of (AList.update k v m) k' = (if k' = k then Some v else map_of m k')"
  by (simp add: update_conv')

lemma map_of_delete_if: "map_of (AList.delete k m) k' = (if k' = k then None else map_of m k')"
  by (simp add: delete_conv')

lemma update_fresh: "k \<notin> set (keys m) \<Longrightarrow> AList.update k v m = m @ [(k, v)]"
  by (induction m) auto

lemma delete_append_fresh: "k \<notin> set (keys m) \<Longrightarrow> AList.delete k (m @ [(k, v)]) = m"
  by (induction m) auto

lemma map_of_filter_key_distinct:
  "distinct (keys m) \<Longrightarrow> map_of (filter P m) k =
     (case map_of m k of None \<Rightarrow> None | Some v \<Rightarrow> if P (k, v) then Some v else None)"
  by (induction m) (auto split: option.splits dest: map_of_SomeD simp: rev_image_eqI)

lemma count_update_existing:
  assumes "distinct (keys m)" and "map_of m k = Some v"
  shows "length (filter P (vals (AList.update k v' m))) + (if P v then 1 else 0) =
         length (filter P (vals m)) + (if P v' then 1 else 0)"
  using assms by (induction m) (auto split: if_splits simp: map_of_eq_None_iff [symmetric])

lemma length_filter_vals_delete:
  "length (filter P (vals (AList.delete k m))) \<le> length (filter P (vals m))"
  by (induction m) auto

subsection \<open>Integers at their width\<close>

definition saturating_add :: "'a::len word \<Rightarrow> 'a word \<Rightarrow> 'a word" where
  "saturating_add a b = (if unat a + unat b < 2 ^ LENGTH('a) then a + b else -1)"

definition saturating_sub :: "'a::len word \<Rightarrow> 'a word \<Rightarrow> 'a word" where
  "saturating_sub a b = (if b \<le> a then a - b else 0)"

definition saturating_mul :: "'a::len word \<Rightarrow> 'a word \<Rightarrow> 'a word" where
  "saturating_mul a b = (if unat a * unat b < 2 ^ LENGTH('a) then a * b else -1)"

definition saturating_pow :: "'a::len word \<Rightarrow> nat \<Rightarrow> 'a word" where
  "saturating_pow a n = (if unat a ^ n < 2 ^ LENGTH('a) then a ^ n else -1)"

lemma unat_max_word: "unat (-1 :: 'a::len word) = 2 ^ LENGTH('a) - 1"
  by (simp add: unsigned_minus_1_eq_mask mask_eq_exp_minus_1)

lemma unat_saturate:
  assumes "n < 2 ^ LENGTH('a) \<Longrightarrow> unat w = n"
  shows "unat (if n < 2 ^ LENGTH('a) then w else (-1 :: 'a::len word)) = min n (2 ^ LENGTH('a) - 1)"
proof (cases "n < 2 ^ LENGTH('a)")
  case True
  then have "n \<le> 2 ^ LENGTH('a) - 1" by linarith
  with True assms show ?thesis by (simp only: if_True min_absorb1)
next
  case False
  then have "2 ^ LENGTH('a) - 1 \<le> n" by linarith
  with False show ?thesis by (simp only: if_False min_absorb2 unat_max_word)
qed

lemma unat_saturating_add:
  "unat (saturating_add a b) = min (unat a + unat b) (2 ^ LENGTH('a) - 1)"
  for a b :: "'a::len word"
  unfolding saturating_add_def by (rule unat_saturate) (simp add: unat_word_ariths)

lemma unat_saturating_sub: "unat (saturating_sub a b) = unat a - unat b"
  by (auto simp: saturating_sub_def unat_sub word_le_nat_alt)

lemma unat_saturating_mul:
  "unat (saturating_mul a b) = min (unat a * unat b) (2 ^ LENGTH('a) - 1)"
  for a b :: "'a::len word"
  unfolding saturating_mul_def by (rule unat_saturate) (simp add: unat_word_ariths)

lemma unat_power_small: "unat a ^ n < 2 ^ LENGTH('a) \<Longrightarrow> unat (a ^ n) = unat a ^ n"
  for a :: "'a::len word"
  using unat_of_nat [of "unat a ^ n", where 'a = 'a] by simp

lemma unat_saturating_pow:
  "unat (saturating_pow a n) = min (unat a ^ n) (2 ^ LENGTH('a) - 1)"
  for a :: "'a::len word"
  unfolding saturating_pow_def by (rule unat_saturate) (rule unat_power_small)

end
