(* ===== verification/Text_Util.thy ===== *)
theory Text_Util
  imports Prelude
begin

text \<open>
  Rust strings as UTF-8 byte lists: the operations of \<open>str\<close> the program calls, and the string
  helpers of \<^verbatim>\<open>src/util.rs\<close>, \<^verbatim>\<open>src/channels/web/util.rs\<close> (\<open>truncate_preview\<close>) and
  \<^verbatim>\<open>src/agent/agentic_loop.rs\<close> (\<open>truncate_for_preview\<close>). The lemmas say that cutting a string at a
  byte position always cuts at the last character boundary before it.
\<close>

subsection \<open>The operations of \<open>str\<close>\<close>

definition to_lower_char :: "char \<Rightarrow> char" where
  "to_lower_char c = (let n = of_char c :: nat in if 65 \<le> n \<and> n \<le> 90 then char_of (n + 32) else c)"

definition to_upper_char :: "char \<Rightarrow> char" where
  "to_upper_char c = (let n = of_char c :: nat in if 97 \<le> n \<and> n \<le> 122 then char_of (n - 32) else c)"

definition to_lowercase :: "string \<Rightarrow> string" where
  "to_lowercase s = map to_lower_char s"

definition to_uppercase :: "string \<Rightarrow> string" where
  "to_uppercase s = map to_upper_char s"

definition is_whitespace :: "char \<Rightarrow> bool" where
  "is_whitespace c = (let n = of_char c :: nat in n = 32 \<or> (9 \<le> n \<and> n \<le> 13))"

definition trim :: "string \<Rightarrow> string" where
  "trim s = rev (dropWhile is_whitespace (rev (dropWhile is_whitespace s)))"

fun split_on :: "(char \<Rightarrow> bool) \<Rightarrow> string \<Rightarrow> string list" where
  "split_on p [] = [[]]"
| "split_on p (c # cs) =
     (if p c then [] # split_on p cs
      else (case split_on p cs of [] \<Rightarrow> [[c]] | w # ws \<Rightarrow> (c # w) # ws))"

definition split_whitespace :: "string \<Rightarrow> string list" where
  "split_whitespace s = filter (\<lambda>w. w \<noteq> []) (split_on is_whitespace s)"

definition strip_prefix :: "string \<Rightarrow> string \<Rightarrow> string option" where
  "strip_prefix p s = (if prefix p s then Some (drop (length p) s) else None)"

definition strip_suffix :: "string \<Rightarrow> string \<Rightarrow> string option" where
  "strip_suffix p s = (if suffix p s then Some (take (length s - length p) s) else None)"

abbreviation starts_with :: "string \<Rightarrow> string \<Rightarrow> bool" where
  "starts_with s p \<equiv> prefix p s"

abbreviation ends_with :: "string \<Rightarrow> string \<Rightarrow> bool" where
  "ends_with s p \<equiv> suffix p s"

abbreviation contains :: "string \<Rightarrow> string \<Rightarrow> bool" where
  "contains s p \<equiv> sublist p s"

fun join :: "string \<Rightarrow> string list \<Rightarrow> string" where
  "join sep [] = []"
| "join sep [w] = w"
| "join sep (w # ws) = w @ sep @ join sep ws"

text \<open>Decimal formatting of an unsigned integer (\<open>format!("{}", n)\<close>).\<close>

fun show_nat :: "nat \<Rightarrow> string" where
  "show_nat n =
     (if n < 10 then [char_of (48 + n)] else show_nat (n div 10) @ [char_of (48 + n mod 10)])"

declare show_nat.simps [simp del]

text \<open>A byte of the form \<open>10xxxxxx\<close> continues a character.\<close>

definition is_cont_byte :: "char \<Rightarrow> bool" where
  "is_cont_byte c = (let n = of_char c :: nat in 128 \<le> n \<and> n < 192)"

definition is_char_boundary :: "string \<Rightarrow> nat \<Rightarrow> bool" where
  "is_char_boundary s i =
     (i = 0 \<or> i = length s \<or> (i < length s \<and> \<not> is_cont_byte (s ! i)))"

subsection \<open>Helpers of the program\<close>

text \<open>The loop \<open>while i > 0 && !s.is_char_boundary(i) { i -= 1; }\<close>.\<close>

fun boundary_loop :: "string \<Rightarrow> nat \<Rightarrow> nat" where
  "boundary_loop s 0 = 0"
| "boundary_loop s (Suc i) =
     (if \<not> is_char_boundary s (Suc i) then boundary_loop s i else Suc i)"

definition floor_char_boundary :: "string \<Rightarrow> nat \<Rightarrow> nat" where
  "floor_char_boundary s pos = (if pos \<ge> length s then length s else boundary_loop s pos)"

definition truncate_for_preview :: "string \<Rightarrow> nat \<Rightarrow> string" where
  "truncate_for_preview s budget =
     (if length s \<le> budget then s else take (floor_char_boundary s budget) s @ ''...'')"

definition truncate_preview :: "string \<Rightarrow> nat \<Rightarrow> string" where
  "truncate_preview s max_bytes =
     (if length s \<le> max_bytes then s
      else let cut = boundary_loop s max_bytes;
               result = take cut s @ ''...''
           in if starts_with s ''<tool_output'' \<and> \<not> ends_with result ''</tool_output>''
              then result @ [CHR 0x0A] @ ''</tool_output>''
              else result)"

definition positive_phrases :: "string list" where
  "positive_phrases =
     [''job is complete'', ''job is done'', ''job is finished'', ''task is complete'',
      ''task is done'', ''task is finished'', ''work is complete'', ''work is done'',
      ''work is finished'', ''successfully completed'', ''have completed the job'',
      ''have completed the task'', ''have finished the job'', ''have finished the task'',
      ''all steps are complete'', ''all steps are done'', ''i have completed'',
      ''i've completed'', ''all done'', ''all tasks complete'']"

definition negative_phrases :: "string list" where
  "negative_phrases =
     [''not complete'', ''not done'', ''not finished'', ''incomplete'', ''unfinished'',
      ''isn't done'', ''isn't complete'', ''isn't finished'', ''not yet done'',
      ''not yet complete'', ''not yet finished'']"

definition llm_signals_completion :: "string \<Rightarrow> bool" where
  "llm_signals_completion response =
     (let lower = to_lowercase response
      in if list_ex (\<lambda>p. contains lower p) negative_phrases then False
         else list_ex (\<lambda>p. contains lower p) positive_phrases)"

subsection \<open>Character boundaries\<close>

lemma is_char_boundary_le: "is_char_boundary s i \<Longrightarrow> i \<le> length s"
  by (auto simp: is_char_boundary_def)

lemma is_char_boundary_ends [simp]: "is_char_boundary s 0" "is_char_boundary s (length s)"
  by (simp_all add: is_char_boundary_def)

lemma boundary_loop_le: "boundary_loop s i \<le> i"
  by (induction s i rule: boundary_loop.induct) auto

lemma boundary_loop_boundary: "is_char_boundary s (boundary_loop s i)"
  by (induction s i rule: boundary_loop.induct) auto

lemma boundary_loop_greatest: "j \<le> i \<Longrightarrow> is_char_boundary s j \<Longrightarrow> j \<le> boundary_loop s i"
  by (induction s i rule: boundary_loop.induct) (auto simp: le_Suc_eq)

lemma floor_char_boundary_le: "floor_char_boundary s pos \<le> pos"
  using boundary_loop_le [of s pos] by (simp add: floor_char_boundary_def)

lemma floor_char_boundary_boundary: "is_char_boundary s (floor_char_boundary s pos)"
  by (simp add: floor_char_boundary_def boundary_loop_boundary)

lemma floor_char_boundary_greatest:
  "j \<le> pos \<Longrightarrow> is_char_boundary s j \<Longrightarrow> j \<le> floor_char_boundary s pos"
  by (auto simp: floor_char_boundary_def intro: boundary_loop_greatest is_char_boundary_le)

text \<open>
  Also: \<open>floor_char_boundary\<close> computes exactly the greatest character boundary at or
  below the requested byte position, for every string and every position (also past the end).
\<close>

theorem floor_char_boundary_is_Max:
  "floor_char_boundary s pos = Max {i. i \<le> pos \<and> is_char_boundary s i}"
  by (rule Max_eqI [symmetric])
     (auto simp: floor_char_boundary_le floor_char_boundary_boundary floor_char_boundary_greatest)

text \<open>
  Also: \<open>truncate_preview\<close> is the identity on strings within the budget; otherwise it
  keeps a prefix of the input cut at a character boundary within the budget, adds at most
  eighteen bytes, and never loses the closing tag of a \<open>tool_output\<close> element.
\<close>

theorem truncate_preview_spec:
  "(length s \<le> m \<longrightarrow> truncate_preview s m = s) \<and>
   length (truncate_preview s m) \<le> max (length s) (m + 18) \<and>
   (m < length s \<longrightarrow>
      (\<exists>k tail. truncate_preview s m = take k s @ ''...'' @ tail \<and> k \<le> m \<and> is_char_boundary s k) \<and>
      (starts_with s ''<tool_output'' \<longrightarrow> ends_with (truncate_preview s m) ''</tool_output>''))"
proof -
  have "boundary_loop s m \<le> m" "is_char_boundary s (boundary_loop s m)"
    by (simp_all add: boundary_loop_le boundary_loop_boundary)
  then show ?thesis
    by (auto simp: truncate_preview_def Let_def suffix_def)
qed

theorem truncate_preview_spec_witness:
  "truncate_preview ''<tool_output>abcdef</tool_output>'' 16 =
     ''<tool_output>abc...'' @ [CHR 0x0A] @ ''</tool_output>'' \<and>
   ends_with (truncate_preview ''<tool_output>abcdef</tool_output>'' 16) ''</tool_output>''"
proof
  show "ends_with (truncate_preview ''<tool_output>abcdef</tool_output>'' 16) ''</tool_output>''"
    using truncate_preview_spec [of "''<tool_output>abcdef</tool_output>''" 16] by simp
qed code_simp

subsection \<open>Decimal numbers\<close>

fun read_nat :: "string \<Rightarrow> nat" where
  "read_nat s = foldl (\<lambda>n c. 10 * n + (of_char c - 48)) 0 s"

lemma digit_of_char [simp]: "d < 10 \<Longrightarrow> of_char (char_of (48 + d :: nat) :: char) = 48 + d"
  by simp

lemma read_show_nat: "read_nat (show_nat n) = n"
proof (induction n rule: show_nat.induct)
  case (1 n)
  then show ?case
    by (subst show_nat.simps) (auto simp del: char_of_mod_256)
qed

lemma show_nat_inj [simp]: "show_nat m = show_nat n \<longleftrightarrow> m = n"
  by (metis read_show_nat)

lemma show_nat_digits: "c \<in> set (show_nat n) \<Longrightarrow> 48 \<le> (of_char c :: nat) \<and> (of_char c :: nat) < 58"
proof (induction n rule: show_nat.induct)
  case (1 n)
  show ?case
  proof (cases "n < 10")
    case True
    with 1 show ?thesis by (auto simp: show_nat.simps [of n])
  next
    case False
    with 1 have "c \<in> set (show_nat (n div 10)) \<or> c = char_of (48 + n mod 10)"
      by (auto simp: show_nat.simps [of n])
    then show ?thesis using 1(1) [OF False] digit_of_char [of "n mod 10"] by auto
  qed
qed

lemma show_nat_no_underscore: "CHR ''_'' \<notin> set (show_nat n)"
  using show_nat_digits [of "CHR ''_''" n] by auto

lemma append_sep_inj:
  assumes "x \<notin> set xs" "x \<notin> set xs'" and "xs @ x # ys = xs' @ x # ys'"
  shows "xs = xs' \<and> ys = ys'"
  using assms by (induction xs arbitrary: xs') (auto simp: Cons_eq_append_conv append_eq_Cons_conv)

subsection \<open>Case folding\<close>

lemma to_lower_char_not_upper: "\<not> (65 \<le> (of_char (to_lower_char c) :: nat) \<and> (of_char (to_lower_char c) :: nat) \<le> 90)"
  by (auto simp: to_lower_char_def Let_def)

lemma to_lower_char_idem [simp]: "to_lower_char (to_lower_char c) = to_lower_char c"
  using to_lower_char_not_upper [of c] by (auto simp: to_lower_char_def [of "to_lower_char c"] Let_def)

lemma to_lowercase_idem [simp]: "to_lowercase (to_lowercase s) = to_lowercase s"
  by (simp add: to_lowercase_def)

lemma length_to_lowercase [simp]: "length (to_lowercase s) = length s"
  by (simp add: to_lowercase_def)

lemma to_lowercase_append [simp]: "to_lowercase (s @ t) = to_lowercase s @ to_lowercase t"
  by (simp add: to_lowercase_def)


subsection \<open>Trimming\<close>

lemma trim_self: "(s \<noteq> [] \<Longrightarrow> \<not> is_whitespace (hd s) \<and> \<not> is_whitespace (last s)) \<Longrightarrow> trim s = s"
proof (cases "s = []")
  case False
  assume "s \<noteq> [] \<Longrightarrow> \<not> is_whitespace (hd s) \<and> \<not> is_whitespace (last s)"
  with False have "dropWhile is_whitespace s = s" "dropWhile is_whitespace (rev s) = rev s"
    by (simp_all add: dropWhile_eq_self_iff hd_rev)
  then show ?thesis by (simp add: trim_def)
qed (simp add: trim_def)

lemma trim_ends: "trim s \<noteq> [] \<Longrightarrow> \<not> is_whitespace (hd (trim s)) \<and> \<not> is_whitespace (last (trim s))"
proof -
  let ?u = "dropWhile is_whitespace s"
  let ?v = "dropWhile is_whitespace (rev ?u)"
  assume ne: "trim s \<noteq> []"
  then have v: "?v \<noteq> []" by (simp add: trim_def)
  then have "\<not> is_whitespace (last (trim s))" using hd_dropWhile [OF v] by (simp add: trim_def last_rev)
  moreover have "\<not> is_whitespace (hd (trim s))"
  proof -
    obtain w where "rev ?u = w @ ?v" using takeWhile_dropWhile_id by metis
    then have "?u = trim s @ rev w" by (simp add: trim_def) (metis rev_append rev_rev_ident)
    then have "hd ?u = hd (trim s)" and "?u \<noteq> []" using ne by (metis hd_append2, auto)
    then show ?thesis using hd_dropWhile [of is_whitespace s] by simp
  qed
  ultimately show ?thesis by simp
qed

lemma trim_idem [simp]: "trim (trim s) = trim s"
  by (rule trim_self) (rule trim_ends)

subsection \<open>Splitting\<close>

lemma split_on_append_sep: "list_all (\<lambda>c. \<not> p c) xs \<Longrightarrow> p s \<Longrightarrow> split_on p (xs @ s # ys) = xs # split_on p ys"
  by (induction xs) simp_all

lemma split_on_none: "list_all (\<lambda>c. \<not> p c) xs \<Longrightarrow> split_on p xs = [xs]"
  by (induction xs) simp_all

end
