(* ===== verification/Job_State.thy ===== *)
theory Job_State
  imports Text_Util
begin

text \<open>
  The job state machine of \<^verbatim>\<open>src/context/state.rs\<close>: the states and their allowed transitions, the
  job context with its bounded transition history, token and money accounting, and recovery from
  the stuck state. The step relation \<open>job_step\<close> has one rule per mutating method; the invariant
  \<open>job_inv\<close> ties the history, the current state and the timestamps together.

  \<open>Decimal\<close> is the type variable \<open>'d\<close>: the code only adds and compares amounts, and the theorems use
  no law of these operations. The trait object \<open>http_interceptor\<close> is an opaque handle.
  \<open>u64\<close> and \<open>u32\<close> additions wrap, as they do in the release profile.
\<close>

datatype JobState =
  Pending | InProgress | Completed | Submitted | Accepted | Failed | Stuck | Cancelled

fun can_transition_to :: "JobState \<Rightarrow> JobState \<Rightarrow> bool" where
  "can_transition_to Pending InProgress = True"
| "can_transition_to Pending Cancelled = True"
| "can_transition_to InProgress Completed = True"
| "can_transition_to InProgress Failed = True"
| "can_transition_to InProgress Stuck = True"
| "can_transition_to InProgress Cancelled = True"
| "can_transition_to Completed Submitted = True"
| "can_transition_to Completed Failed = True"
| "can_transition_to Submitted Accepted = True"
| "can_transition_to Submitted Failed = True"
| "can_transition_to Stuck InProgress = True"
| "can_transition_to Stuck Failed = True"
| "can_transition_to Stuck Cancelled = True"
| "can_transition_to _ _ = False"

fun is_terminal :: "JobState \<Rightarrow> bool" where
  "is_terminal Accepted = True"
| "is_terminal Failed = True"
| "is_terminal Cancelled = True"
| "is_terminal _ = False"

definition is_active :: "JobState \<Rightarrow> bool" where
  "is_active s = (\<not> is_terminal s)"

fun job_state_display :: "JobState \<Rightarrow> string" where
  "job_state_display Pending = ''pending''"
| "job_state_display InProgress = ''in_progress''"
| "job_state_display Completed = ''completed''"
| "job_state_display Submitted = ''submitted''"
| "job_state_display Accepted = ''accepted''"
| "job_state_display Failed = ''failed''"
| "job_state_display Stuck = ''stuck''"
| "job_state_display Cancelled = ''cancelled''"

record StateTransition =
  st_from :: JobState
  st_to :: JobState
  st_timestamp :: datetime
  st_reason :: "string option"

record TokenBudgetExceeded =
  tb_used :: u64
  tb_limit :: u64

record 'd JobContext =
  jc_job_id :: uuid
  jc_state :: JobState
  jc_user_id :: string
  jc_conversation_id :: "uuid option"
  jc_title :: string
  jc_description :: string
  jc_category :: "string option"
  jc_budget :: "'d option"
  jc_budget_token :: "string option"
  jc_bid_amount :: "'d option"
  jc_estimated_cost :: "'d option"
  jc_estimated_duration :: "duration option"
  jc_actual_cost :: 'd
  jc_total_tokens_used :: u64
  jc_max_tokens :: u64
  jc_created_at :: datetime
  jc_started_at :: "datetime option"
  jc_completed_at :: "datetime option"
  jc_repair_attempts :: u32
  jc_transitions :: "StateTransition list"
  jc_metadata :: "(string \<times> string) list option"
  jc_extra_env :: "(string \<times> string) list"
  jc_http_interceptor :: "nat option"
  jc_tool_output_stash :: "(string \<times> string) list"
  jc_user_timezone :: string

definition job_with_user ::
    "uuid \<Rightarrow> datetime \<Rightarrow> string \<Rightarrow> string \<Rightarrow> string \<Rightarrow> ('d::zero) JobContext" where
  "job_with_user new_id now user_id title description =
     \<lparr>jc_job_id = new_id, jc_state = Pending, jc_user_id = user_id, jc_conversation_id = None,
      jc_title = title, jc_description = description, jc_category = None, jc_budget = None,
      jc_budget_token = None, jc_bid_amount = None, jc_estimated_cost = None,
      jc_estimated_duration = None, jc_actual_cost = 0, jc_total_tokens_used = 0,
      jc_max_tokens = 0, jc_created_at = now, jc_started_at = None, jc_completed_at = None,
      jc_repair_attempts = 0, jc_transitions = [], jc_metadata = None, jc_extra_env = [],
      jc_http_interceptor = None, jc_tool_output_stash = [], jc_user_timezone = ''UTC''\<rparr>"

definition with_timezone :: "string \<Rightarrow> 'd JobContext \<Rightarrow> 'd JobContext" where
  "with_timezone tz ctx = ctx\<lparr>jc_user_timezone := tz\<rparr>"

definition MAX_TRANSITIONS :: nat where
  "MAX_TRANSITIONS = 200"

text \<open>The push into \<open>transitions\<close> with the drain that caps it.\<close>

definition push_transition :: "StateTransition \<Rightarrow> 'd JobContext \<Rightarrow> 'd JobContext" where
  "push_transition tr ctx =
     (let ts = jc_transitions ctx @ [tr]
      in ctx\<lparr>jc_transitions :=
               (if length ts > MAX_TRANSITIONS then drop (length ts - MAX_TRANSITIONS) ts else ts)\<rparr>)"

definition transition_to ::
    "datetime \<Rightarrow> JobState \<Rightarrow> string option \<Rightarrow> 'd JobContext \<Rightarrow> (string + unit) \<times> 'd JobContext" where
  "transition_to now new_state reason ctx =
     (if \<not> can_transition_to (jc_state ctx) new_state
      then (Inl (''Cannot transition from '' @ job_state_display (jc_state ctx) @ '' to '' @
                 job_state_display new_state), ctx)
      else let tr = \<lparr>st_from = jc_state ctx, st_to = new_state, st_timestamp = now, st_reason = reason\<rparr>;
               ctx = (push_transition tr ctx)\<lparr>jc_state := new_state\<rparr>;
               ctx = (if new_state = InProgress \<and> jc_started_at ctx = None
                      then ctx\<lparr>jc_started_at := Some now\<rparr>
                      else if new_state \<in> {Completed, Accepted, Failed, Cancelled}
                      then ctx\<lparr>jc_completed_at := Some now\<rparr>
                      else ctx)
           in (Inr (), ctx))"

definition add_cost :: "('d::plus) \<Rightarrow> 'd JobContext \<Rightarrow> 'd JobContext" where
  "add_cost cost ctx = ctx\<lparr>jc_actual_cost := jc_actual_cost ctx + cost\<rparr>"

definition add_tokens ::
    "u64 \<Rightarrow> 'd JobContext \<Rightarrow> (TokenBudgetExceeded + unit) \<times> 'd JobContext" where
  "add_tokens tokens ctx =
     (let ctx = ctx\<lparr>jc_total_tokens_used := jc_total_tokens_used ctx + tokens\<rparr>
      in if jc_max_tokens ctx > 0 \<and> jc_total_tokens_used ctx > jc_max_tokens ctx
         then (Inl \<lparr>tb_used = jc_total_tokens_used ctx, tb_limit = jc_max_tokens ctx\<rparr>, ctx)
         else (Inr (), ctx))"

definition budget_exceeded :: "('d::ord) JobContext \<Rightarrow> bool" where
  "budget_exceeded ctx = (case jc_budget ctx of Some b \<Rightarrow> jc_actual_cost ctx > b | None \<Rightarrow> False)"

definition elapsed :: "datetime \<Rightarrow> 'd JobContext \<Rightarrow> duration option" where
  "elapsed now ctx =
     map_option (\<lambda>start.
       let fin = (case jc_completed_at ctx of Some t \<Rightarrow> t | None \<Rightarrow> now)
       in secs (nat (max 0 ((fin - start) div 1000000000)))) (jc_started_at ctx)"

definition mark_stuck :: "datetime \<Rightarrow> string \<Rightarrow> 'd JobContext \<Rightarrow> (string + unit) \<times> 'd JobContext" where
  "mark_stuck now reason ctx = transition_to now Stuck (Some reason) ctx"

definition attempt_recovery :: "datetime \<Rightarrow> 'd JobContext \<Rightarrow> (string + unit) \<times> 'd JobContext" where
  "attempt_recovery now ctx =
     (if jc_state ctx \<noteq> Stuck then (Inl ''Job is not stuck'', ctx)
      else transition_to now InProgress (Some ''Recovery attempt'')
             (ctx\<lparr>jc_repair_attempts := jc_repair_attempts ctx + 1\<rparr>))"

text \<open>One step of a job: any call of a mutating method, whatever its result.\<close>

inductive job_step :: "('d::plus) JobContext \<Rightarrow> 'd JobContext \<Rightarrow> bool" where
  step_transition: "job_step ctx (snd (transition_to now s reason ctx))"
| step_cost: "job_step ctx (add_cost c ctx)"
| step_tokens: "job_step ctx (snd (add_tokens n ctx))"
| step_stuck: "job_step ctx (snd (mark_stuck now msg ctx))"
| step_recover: "job_step ctx (snd (attempt_recovery now ctx))"
| step_timezone: "job_step ctx (with_timezone tz ctx)"

subsection \<open>The transition relation on states\<close>

lemma terminal_iff_no_successor: "is_terminal s \<longleftrightarrow> (\<forall>t. \<not> can_transition_to s t)"
proof -
  have "\<exists>t. can_transition_to s t" if "\<not> is_terminal s"
    using that by (cases s) (auto intro: exI [of _ Cancelled] exI [of _ Failed])
  moreover have "\<not> can_transition_to s t" if "is_terminal s" for t
    using that by (cases s) auto
  ultimately show ?thesis by blast
qed

lemma terminal_no_successor: "is_terminal s \<Longrightarrow> \<not> can_transition_to s t"
  by (simp add: terminal_iff_no_successor)

lemma active_can_finish: "is_active s \<Longrightarrow> can_transition_to s Failed \<or> can_transition_to s Cancelled"
  by (cases s) (auto simp: is_active_def)

lemma not_can_transition_self [simp]: "\<not> can_transition_to s s"
  by (cases s) auto

lemma into_started: "can_transition_to s t \<Longrightarrow> t \<notin> {InProgress, Cancelled} \<Longrightarrow> s \<notin> {Pending, Cancelled}"
  by (cases s; cases t) auto

lemma no_return_to_pending: "\<not> can_transition_to s Pending"
  by (cases s) auto

subsection \<open>The bounded history is a bounded log\<close>

interpretation job_history: bounded_log push_transition jc_transitions "\<lambda>_. MAX_TRANSITIONS" "\<lambda>_. True"
  by unfold_locales (auto simp: push_transition_def Let_def last_n_def)

lemma push_transition_frame [frame_simps]:
  "jc_state (push_transition tr ctx) = jc_state ctx"
  "jc_started_at (push_transition tr ctx) = jc_started_at ctx"
  "jc_completed_at (push_transition tr ctx) = jc_completed_at ctx"
  "jc_repair_attempts (push_transition tr ctx) = jc_repair_attempts ctx"
  "jc_job_id (push_transition tr ctx) = jc_job_id ctx"
  "jc_user_id (push_transition tr ctx) = jc_user_id ctx"
  by (simp_all add: push_transition_def Let_def)

lemma transition_to_result:
  "fst (transition_to now t reason ctx) = Inr () \<longleftrightarrow> can_transition_to (jc_state ctx) t"
  by (simp add: transition_to_def Let_def)

lemma transition_to_refused:
  "\<not> can_transition_to (jc_state ctx) t \<Longrightarrow> snd (transition_to now t reason ctx) = ctx"
  by (simp add: transition_to_def)

lemma transition_to_state:
  "jc_state (snd (transition_to now t reason ctx)) =
     (if can_transition_to (jc_state ctx) t then t else jc_state ctx)"
  by (simp add: transition_to_def Let_def frame_simps)

lemma transition_to_history:
  "can_transition_to (jc_state ctx) t \<Longrightarrow>
   jc_transitions (snd (transition_to now t reason ctx)) =
     last_n MAX_TRANSITIONS (jc_transitions ctx @
       [\<lparr>st_from = jc_state ctx, st_to = t, st_timestamp = now, st_reason = reason\<rparr>])"
  by (simp add: transition_to_def Let_def job_history.items_push)

lemma transition_to_frame [frame_simps]:
  "jc_job_id (snd (transition_to now t reason ctx)) = jc_job_id ctx"
  "jc_user_id (snd (transition_to now t reason ctx)) = jc_user_id ctx"
  "jc_repair_attempts (snd (transition_to now t reason ctx)) = jc_repair_attempts ctx"
  by (simp_all add: transition_to_def Let_def frame_simps)

lemma transition_to_times:
  "can_transition_to (jc_state ctx) t \<Longrightarrow>
   jc_started_at (snd (transition_to now t reason ctx)) =
     (if t = InProgress \<and> jc_started_at ctx = None then Some now else jc_started_at ctx)"
  "can_transition_to (jc_state ctx) t \<Longrightarrow>
   jc_completed_at (snd (transition_to now t reason ctx)) =
     (if t \<in> {Completed, Accepted, Failed, Cancelled} then Some now else jc_completed_at ctx)"
  by (auto simp: transition_to_def Let_def frame_simps)

lemma attempt_recovery_stuck:
  assumes "jc_state ctx = Stuck"
  shows "fst (attempt_recovery now ctx) = Inr ()"
    and "jc_state (snd (attempt_recovery now ctx)) = InProgress"
    and "jc_repair_attempts (snd (attempt_recovery now ctx)) = jc_repair_attempts ctx + 1"
  using assms by (simp_all add: attempt_recovery_def transition_to_result transition_to_state frame_simps)

lemma attempt_recovery_not_stuck:
  "jc_state ctx \<noteq> Stuck \<Longrightarrow> attempt_recovery now ctx = (Inl ''Job is not stuck'', ctx)"
  by (simp add: attempt_recovery_def)

lemma attempt_recovery_state:
  "jc_state (snd (attempt_recovery now ctx)) = (if jc_state ctx = Stuck then InProgress else jc_state ctx)"
  by (simp add: attempt_recovery_def transition_to_state)

lemma attempt_recovery_frame [frame_simps]:
  "jc_job_id (snd (attempt_recovery now ctx)) = jc_job_id ctx"
  "jc_user_id (snd (attempt_recovery now ctx)) = jc_user_id ctx"
  by (simp_all add: attempt_recovery_def frame_simps)

subsection \<open>The invariant of a job context\<close>

definition job_inv :: "'d JobContext \<Rightarrow> bool" where
  "job_inv ctx \<longleftrightarrow>
     length (jc_transitions ctx) \<le> MAX_TRANSITIONS \<and>
     list_all (\<lambda>tr. can_transition_to (st_from tr) (st_to tr)) (jc_transitions ctx) \<and>
     successively (\<lambda>a b. st_to a = st_from b) (jc_transitions ctx) \<and>
     (if jc_transitions ctx = [] then jc_state ctx = Pending
      else st_to (last (jc_transitions ctx)) = jc_state ctx) \<and>
     (jc_state ctx \<notin> {Pending, Cancelled} \<longrightarrow> jc_started_at ctx \<noteq> None) \<and>
     (is_terminal (jc_state ctx) \<longrightarrow> jc_completed_at ctx \<noteq> None)"

lemma successively_suffix: "successively P xs \<Longrightarrow> suffix ys xs \<Longrightarrow> successively P ys"
  by (auto simp: suffix_def successively_append_iff)

lemma list_all_suffix: "list_all P xs \<Longrightarrow> suffix ys xs \<Longrightarrow> list_all P ys"
  by (auto simp: suffix_def)

lemma job_inv_new [inv_intros]: "job_inv (job_with_user i now u t d)"
  by (simp add: job_inv_def job_with_user_def)

lemma job_inv_cong:
  assumes "jc_transitions c' = jc_transitions c" "jc_state c' = jc_state c"
    and "jc_started_at c' = jc_started_at c" "jc_completed_at c' = jc_completed_at c"
  shows "job_inv c' = job_inv c"
  using assms by (simp add: job_inv_def)

lemma job_inv_transition_to [inv_intros]:
  assumes inv: "job_inv ctx"
  shows "job_inv (snd (transition_to now t reason ctx))"
proof (cases "can_transition_to (jc_state ctx) t")
  case False
  with inv show ?thesis by (simp add: transition_to_refused)
next
  case ok: True
  let ?c = "snd (transition_to now t reason ctx)"
  let ?tr = "\<lparr>st_from = jc_state ctx, st_to = t, st_timestamp = now, st_reason = reason\<rparr>"
  let ?all = "jc_transitions ctx @ [?tr]"
  have hist: "jc_transitions ?c = last_n MAX_TRANSITIONS ?all"
    using ok by (rule transition_to_history)
  have suf: "suffix (jc_transitions ?c) ?all"
    unfolding hist by (rule suffix_last_n)
  have legal: "list_all (\<lambda>tr. can_transition_to (st_from tr) (st_to tr)) ?all"
    using inv ok by (simp add: job_inv_def)
  have chain: "successively (\<lambda>a b. st_to a = st_from b) ?all"
    using inv by (auto simp: job_inv_def successively_append_iff split: if_splits)
  have tip: "jc_transitions ?c \<noteq> [] \<and> last (jc_transitions ?c) = ?tr"
    unfolding hist by (simp add: MAX_TRANSITIONS_def last_n_snoc)
  have started: "t \<notin> {Pending, Cancelled} \<longrightarrow> jc_started_at ?c \<noteq> None"
    using inv into_started [OF ok] by (auto simp: transition_to_times [OF ok] job_inv_def)
  have finished: "is_terminal t \<longrightarrow> jc_completed_at ?c \<noteq> None"
    unfolding transition_to_times(2) [OF ok] by (cases t) simp_all
  show ?thesis
    using list_all_suffix [OF legal suf] successively_suffix [OF chain suf] tip started finished
    by (simp add: job_inv_def transition_to_state ok hist)
qed

lemma job_inv_add_cost [inv_intros]: "job_inv ctx \<Longrightarrow> job_inv (add_cost c ctx)"
  by (subst job_inv_cong [of _ ctx]) (simp_all add: add_cost_def)

lemma job_inv_add_tokens [inv_intros]: "job_inv ctx \<Longrightarrow> job_inv (snd (add_tokens n ctx))"
  by (subst job_inv_cong [of _ ctx]) (simp_all add: add_tokens_def Let_def)

lemma job_inv_timezone [inv_intros]: "job_inv ctx \<Longrightarrow> job_inv (with_timezone tz ctx)"
  by (subst job_inv_cong [of _ ctx]) (simp_all add: with_timezone_def)

lemma job_inv_mark_stuck [inv_intros]: "job_inv ctx \<Longrightarrow> job_inv (snd (mark_stuck now msg ctx))"
  unfolding mark_stuck_def by (rule job_inv_transition_to)

lemma job_inv_attempt_recovery [inv_intros]:
  assumes "job_inv ctx"
  shows "job_inv (snd (attempt_recovery now ctx))"
proof -
  have "job_inv (ctx\<lparr>jc_repair_attempts := jc_repair_attempts ctx + 1\<rparr>)"
    using assms by (subst job_inv_cong [of _ ctx]) simp_all
  with assms show ?thesis
    by (simp add: attempt_recovery_def job_inv_transition_to)
qed

lemma job_step_inv: "job_step ctx ctx' \<Longrightarrow> job_inv ctx \<Longrightarrow> job_inv ctx'"
  by (induction rule: job_step.induct) (auto intro: inv_intros)

lemma job_steps_inv: "rtranclp job_step ctx ctx' \<Longrightarrow> job_inv ctx \<Longrightarrow> job_inv ctx'"
  by (induction rule: rtranclp_induct) (auto intro: job_step_inv)

lemma job_step_terminal:
  "job_step ctx ctx' \<Longrightarrow> is_terminal (jc_state ctx) \<Longrightarrow> jc_state ctx' = jc_state ctx"
  by (induction rule: job_step.induct)
     (auto simp: transition_to_state mark_stuck_def attempt_recovery_state add_cost_def
        add_tokens_def with_timezone_def Let_def terminal_no_successor)

lemma job_steps_terminal:
  "rtranclp job_step ctx ctx' \<Longrightarrow> is_terminal (jc_state ctx) \<Longrightarrow> jc_state ctx' = jc_state ctx"
  by (induction rule: rtranclp_induct) (auto dest: job_step_terminal)

text \<open>
  Property C1. Whatever methods are called on a new job, in whatever order and with whatever
  results, its transition history stays within the cap, consists of allowed transitions that chain
  up and end in the current state, the start time is recorded once work has begun, and the
  completion time is recorded when the job is over.
\<close>

theorem job_history_consistent:
  assumes "rtranclp job_step (job_with_user i t0 user title desc) ctx"
  shows "length (jc_transitions ctx) \<le> 200 \<and>
    (\<forall>tr \<in> set (jc_transitions ctx). can_transition_to (st_from tr) (st_to tr)) \<and>
    (\<forall>k. Suc k < length (jc_transitions ctx) \<longrightarrow>
       st_to (jc_transitions ctx ! k) = st_from (jc_transitions ctx ! Suc k)) \<and>
    (jc_transitions ctx = [] \<and> jc_state ctx = Pending \<or>
     jc_transitions ctx \<noteq> [] \<and> st_to (last (jc_transitions ctx)) = jc_state ctx) \<and>
    (jc_state ctx \<notin> {Pending, Cancelled} \<longrightarrow> jc_started_at ctx \<noteq> None) \<and>
    (is_terminal (jc_state ctx) \<longrightarrow> jc_completed_at ctx \<noteq> None)"
  using job_steps_inv [OF assms job_inv_new]
  by (auto simp: job_inv_def MAX_TRANSITIONS_def list_all_iff successively_conv_nth split: if_splits)

definition demo_job :: "int JobContext" where
  "demo_job = snd (transition_to 7 InProgress (Some ''go'') (job_with_user 1 0 ''u'' ''t'' ''d''))"

theorem job_history_consistent_witness:
  "jc_state demo_job = InProgress \<and> length (jc_transitions demo_job) \<le> 200 \<and>
   jc_started_at demo_job = Some 7"
proof -
  have step: "rtranclp job_step (job_with_user 1 0 ''u'' ''t'' ''d'') demo_job"
    unfolding demo_job_def by (intro r_into_rtranclp step_transition)
  show ?thesis
    using job_history_consistent [OF step]
    by (simp add: demo_job_def transition_to_def job_with_user_def push_transition_def
        MAX_TRANSITIONS_def)
qed

text \<open>
  Also: A job is over exactly in the states without an allowed transition; once over it
  stays in that state under every further sequence of method calls; and every job that is not over
  can be brought to an end by one allowed transition.
\<close>

theorem job_terminal_absorbing:
  "(is_terminal s \<longleftrightarrow> (\<forall>t. \<not> can_transition_to s t)) \<and>
   (is_active s \<longrightarrow> (\<exists>t. is_terminal t \<and> can_transition_to s t)) \<and>
   (rtranclp job_step ctx ctx' \<longrightarrow> is_terminal (jc_state ctx) \<longrightarrow>
      jc_state ctx' = jc_state ctx \<and> fst (transition_to now s reason ctx') \<noteq> Inr ())"
proof (intro conjI impI)
  show "is_terminal s \<longleftrightarrow> (\<forall>t. \<not> can_transition_to s t)"
    by (rule terminal_iff_no_successor)
  show "\<exists>t. is_terminal t \<and> can_transition_to s t" if "is_active s"
    using active_can_finish [OF that] by (metis is_terminal.simps(2,3))
  assume steps: "rtranclp job_step ctx ctx'" and over: "is_terminal (jc_state ctx)"
  show same: "jc_state ctx' = jc_state ctx" using steps over by (rule job_steps_terminal)
  show "fst (transition_to now s reason ctx') \<noteq> Inr ()"
    using over by (simp add: transition_to_result same terminal_iff_no_successor)
qed

theorem job_terminal_absorbing_witness:
  "is_active Stuck \<and> (\<exists>t. is_terminal t \<and> can_transition_to Stuck t) \<and>
   jc_state (add_cost 3 (demo_job\<lparr>jc_state := Failed\<rparr>)) = Failed"
proof -
  have "rtranclp job_step (demo_job\<lparr>jc_state := Failed\<rparr>) (add_cost 3 (demo_job\<lparr>jc_state := Failed\<rparr>))"
    by (intro r_into_rtranclp step_cost)
  with job_terminal_absorbing [of Stuck "demo_job\<lparr>jc_state := Failed\<rparr>"
      "add_cost 3 (demo_job\<lparr>jc_state := Failed\<rparr>)"]
  show ?thesis by (simp add: is_active_def)
qed

text \<open>
  Also: As long as the 64-bit counter does not wrap, \<open>add_tokens\<close> counts every token and
  reports the budget as exceeded exactly when a limit is configured and the total is above it; the
  usage is recorded also when the call is refused.
\<close>

theorem add_tokens_budget:
  assumes "unat (jc_total_tokens_used ctx) + unat n < 2 ^ 64"
  shows "unat (jc_total_tokens_used (snd (add_tokens n ctx))) =
      unat (jc_total_tokens_used ctx) + unat n \<and>
    fst (add_tokens n ctx) =
      (if 0 < unat (jc_max_tokens ctx) \<and>
          unat (jc_max_tokens ctx) < unat (jc_total_tokens_used ctx) + unat n
       then Inl \<lparr>tb_used = jc_total_tokens_used ctx + n, tb_limit = jc_max_tokens ctx\<rparr>
       else Inr ())"
proof -
  have "unat (jc_total_tokens_used ctx + n) = unat (jc_total_tokens_used ctx) + unat n"
    using assms by (simp add: unat_word_ariths)
  then show ?thesis
    by (simp add: add_tokens_def Let_def word_less_nat_alt)
qed

theorem add_tokens_budget_witness:
  "fst (add_tokens 30 (demo_job\<lparr>jc_total_tokens_used := 80, jc_max_tokens := 100\<rparr>)) =
     Inl \<lparr>tb_used = 110, tb_limit = 100\<rparr>"
  using add_tokens_budget [of "demo_job\<lparr>jc_total_tokens_used := 80, jc_max_tokens := 100\<rparr>" 30]
  by simp

end
