(* ===== verification/Chat.thy ===== *)
theory Chat
  imports Text_Util
begin

text \<open>
  The messages exchanged with a language model and the errors of a provider:
  \<^verbatim>\<open>src/llm/provider.rs\<close> and \<^verbatim>\<open>src/llm/error.rs\<close>. The lemmas show that
  \<open>sanitize_tool_messages\<close> establishes the tool-call integrity a provider demands, and that the
  parameter-stripping helpers remove what a provider does not support and nothing else.

  \<open>serde_json::Value\<close> is the datatype \<open>json\<close>, a number kept as its literal; an \<open>f32\<close> is kept as its
  bit pattern.
\<close>

datatype json =
    JNull
  | JBool bool
  | JNumber string
  | JString string
  | JArray "json list"
  | JObject "(string \<times> json) list"

datatype LlmError =
    RequestFailed string string
  | RateLimited string "duration option"
  | InvalidResponse string string
  | ContextLengthExceeded nat nat
  | ModelNotAvailable string string
  | AuthFailed string
  | SessionExpired string
  | SessionRenewalFailed string string
  | Http string
  | Json string
  | Io string

datatype Role = System | User | Assistant | Tool

datatype ContentPart = TextPart string | ImageUrlPart string "string option"

record ToolCall =
  tc_id :: string
  tc_name :: string
  tc_arguments :: json

record ChatMessage =
  cm_role :: Role
  cm_content :: string
  cm_content_parts :: "ContentPart list"
  cm_tool_call_id :: "string option"
  cm_name :: "string option"
  cm_tool_calls :: "ToolCall list option"

definition cm_system :: "string \<Rightarrow> ChatMessage" where
  "cm_system c = \<lparr>cm_role = System, cm_content = c, cm_content_parts = [], cm_tool_call_id = None,
                  cm_name = None, cm_tool_calls = None\<rparr>"

definition cm_user :: "string \<Rightarrow> ChatMessage" where
  "cm_user c = \<lparr>cm_role = User, cm_content = c, cm_content_parts = [], cm_tool_call_id = None,
                cm_name = None, cm_tool_calls = None\<rparr>"

definition cm_user_with_parts :: "string \<Rightarrow> ContentPart list \<Rightarrow> ChatMessage" where
  "cm_user_with_parts c parts =
     \<lparr>cm_role = User, cm_content = c, cm_content_parts = parts, cm_tool_call_id = None,
      cm_name = None, cm_tool_calls = None\<rparr>"

definition cm_assistant :: "string \<Rightarrow> ChatMessage" where
  "cm_assistant c = \<lparr>cm_role = Assistant, cm_content = c, cm_content_parts = [],
                     cm_tool_call_id = None, cm_name = None, cm_tool_calls = None\<rparr>"

definition cm_assistant_with_tool_calls :: "string option \<Rightarrow> ToolCall list \<Rightarrow> ChatMessage" where
  "cm_assistant_with_tool_calls c calls =
     \<lparr>cm_role = Assistant, cm_content = (case c of None \<Rightarrow> '''' | Some t \<Rightarrow> t),
      cm_content_parts = [], cm_tool_call_id = None, cm_name = None,
      cm_tool_calls = (if calls = [] then None else Some calls)\<rparr>"

definition cm_tool_result :: "string \<Rightarrow> string \<Rightarrow> string \<Rightarrow> ChatMessage" where
  "cm_tool_result call_id nm c =
     \<lparr>cm_role = Tool, cm_content = c, cm_content_parts = [], cm_tool_call_id = Some call_id,
      cm_name = Some nm, cm_tool_calls = None\<rparr>"

lemmas cm_defs = cm_system_def cm_user_def cm_user_with_parts_def cm_assistant_def
  cm_assistant_with_tool_calls_def cm_tool_result_def

record CompletionRequest =
  cr_messages :: "ChatMessage list"
  cr_model :: "string option"
  cr_max_tokens :: "u32 option"
  cr_temperature :: "u32 option"
  cr_stop_sequences :: "string list option"
  cr_metadata :: "(string \<times> string) list"

definition completion_request_new :: "ChatMessage list \<Rightarrow> CompletionRequest" where
  "completion_request_new ms =
     \<lparr>cr_messages = ms, cr_model = None, cr_max_tokens = None, cr_temperature = None,
      cr_stop_sequences = None, cr_metadata = []\<rparr>"

datatype FinishReason = Stop | Length | ToolUse | ContentFilter | UnknownReason

record CompletionResponse =
  rs_content :: string
  rs_input_tokens :: u32
  rs_output_tokens :: u32
  rs_finish_reason :: FinishReason
  rs_cache_read_input_tokens :: u32
  rs_cache_creation_input_tokens :: u32

record ToolDefinition =
  td_name :: string
  td_description :: string
  td_parameters :: json

record ToolCompletionRequest =
  tr_messages :: "ChatMessage list"
  tr_tools :: "ToolDefinition list"
  tr_model :: "string option"
  tr_max_tokens :: "u32 option"
  tr_temperature :: "u32 option"
  tr_tool_choice :: "string option"
  tr_metadata :: "(string \<times> string) list"

definition tool_completion_request_new ::
    "ChatMessage list \<Rightarrow> ToolDefinition list \<Rightarrow> ToolCompletionRequest" where
  "tool_completion_request_new ms tools =
     \<lparr>tr_messages = ms, tr_tools = tools, tr_model = None, tr_max_tokens = None,
      tr_temperature = None, tr_tool_choice = None, tr_metadata = []\<rparr>"

subsection \<open>Tool-call integrity\<close>

text \<open>The \<open>known_ids\<close> set built by the first loop of \<open>sanitize_tool_messages\<close>.\<close>

fun known_ids :: "ChatMessage list \<Rightarrow> string list" where
  "known_ids [] = []"
| "known_ids (m # ms) =
     (if cm_role m = Assistant
      then (case cm_tool_calls m of None \<Rightarrow> [] | Some calls \<Rightarrow> map tc_id calls)
      else []) @ known_ids ms"

definition is_orphaned :: "string list \<Rightarrow> ChatMessage \<Rightarrow> bool" where
  "is_orphaned known m = (case cm_tool_call_id m of Some i \<Rightarrow> i \<notin> set known | None \<Rightarrow> True)"

definition rewrite_orphan :: "ChatMessage \<Rightarrow> ChatMessage" where
  "rewrite_orphan m =
     (let tool_name = (case cm_name m of Some n \<Rightarrow> n | None \<Rightarrow> ''unknown'')
      in m\<lparr>cm_role := User,
           cm_content := ''[Tool `'' @ tool_name @ ''` returned: '' @ cm_content m @ '']'',
           cm_tool_call_id := None, cm_name := None\<rparr>)"

definition sanitize_message :: "string list \<Rightarrow> ChatMessage \<Rightarrow> ChatMessage" where
  "sanitize_message known m =
     (if cm_role m \<noteq> Tool then m else if is_orphaned known m then rewrite_orphan m else m)"

definition sanitize_tool_messages :: "ChatMessage list \<Rightarrow> ChatMessage list" where
  "sanitize_tool_messages ms = map (sanitize_message (known_ids ms)) ms"

subsection \<open>Unsupported parameters\<close>

datatype UnsupportedParam = Temperature | MaxTokens | StopSequences

fun unsupported_param_name :: "UnsupportedParam \<Rightarrow> string" where
  "unsupported_param_name Temperature = ''temperature''"
| "unsupported_param_name MaxTokens = ''max_tokens''"
| "unsupported_param_name StopSequences = ''stop_sequences''"

definition strip_unsupported_completion_params ::
    "string set \<Rightarrow> CompletionRequest \<Rightarrow> CompletionRequest" where
  "strip_unsupported_completion_params unsupported req =
     (if unsupported = {} then req
      else let req = (if unsupported_param_name Temperature \<in> unsupported
                      then req\<lparr>cr_temperature := None\<rparr> else req);
               req = (if unsupported_param_name MaxTokens \<in> unsupported
                      then req\<lparr>cr_max_tokens := None\<rparr> else req)
           in if unsupported_param_name StopSequences \<in> unsupported
              then req\<lparr>cr_stop_sequences := None\<rparr> else req)"

definition strip_unsupported_tool_params ::
    "string set \<Rightarrow> ToolCompletionRequest \<Rightarrow> ToolCompletionRequest" where
  "strip_unsupported_tool_params unsupported req =
     (if unsupported = {} then req
      else let req = (if unsupported_param_name Temperature \<in> unsupported
                      then req\<lparr>tr_temperature := None\<rparr> else req)
           in if unsupported_param_name MaxTokens \<in> unsupported
              then req\<lparr>tr_max_tokens := None\<rparr> else req)"

subsection \<open>Lemmas\<close>

lemma cm_role_simps [simp]:
  "cm_role (cm_system c) = System" "cm_role (cm_user c) = User"
  "cm_role (cm_user_with_parts c ps) = User" "cm_role (cm_assistant c) = Assistant"
  "cm_role (cm_assistant_with_tool_calls t calls) = Assistant"
  "cm_role (cm_tool_result i n c) = Tool"
  by (simp_all add: cm_defs)

lemma known_ids_append: "known_ids (xs @ ys) = known_ids xs @ known_ids ys"
  by (induction xs) auto

lemma sanitize_message_assistant [simp]:
  "(cm_role (sanitize_message known m) = Assistant) = (cm_role m = Assistant)"
  "cm_tool_calls (sanitize_message known m) = cm_tool_calls m"
  by (auto simp: sanitize_message_def rewrite_orphan_def Let_def)

lemma known_ids_map_sanitize: "known_ids (map (sanitize_message known) ms) = known_ids ms"
  by (induction ms) simp_all

lemma sanitize_message_not_orphan:
  "cm_role (sanitize_message known m) = Tool \<Longrightarrow>
     sanitize_message known m = m \<and> \<not> is_orphaned known m"
  by (auto simp: sanitize_message_def rewrite_orphan_def Let_def split: if_splits)

lemma sanitize_message_idem: "sanitize_message known (sanitize_message known m) = sanitize_message known m"
  by (auto simp: sanitize_message_def rewrite_orphan_def Let_def)

lemma length_sanitize_tool_messages [simp]:
  "length (sanitize_tool_messages ms) = length ms"
  by (simp add: sanitize_tool_messages_def)

lemma known_ids_sanitize: "known_ids (sanitize_tool_messages ms) = known_ids ms"
  by (simp add: sanitize_tool_messages_def known_ids_map_sanitize)

lemma sanitize_id_if_no_orphan:
  assumes "\<And>m. m \<in> set ms \<Longrightarrow> cm_role m = Tool \<Longrightarrow> \<not> is_orphaned (known_ids ms) m"
  shows "sanitize_tool_messages ms = ms"
  unfolding sanitize_tool_messages_def
  by (rule map_idI) (use assms in \<open>auto simp: sanitize_message_def\<close>)

text \<open>
  Property C37. After \<open>sanitize_tool_messages\<close> every tool-result message answers a tool call that
  some assistant message of the list declares; messages that are not orphaned tool results are
  untouched and in place; running it again changes nothing.
\<close>

theorem sanitize_tool_messages_integrity:
  "(\<forall>m \<in> set (sanitize_tool_messages ms). cm_role m = Tool \<longrightarrow>
      (\<exists>i. cm_tool_call_id m = Some i \<and> i \<in> set (known_ids (sanitize_tool_messages ms)))) \<and>
   (\<forall>k < length ms. cm_role (ms ! k) \<noteq> Tool \<or> \<not> is_orphaned (known_ids ms) (ms ! k) \<longrightarrow>
      sanitize_tool_messages ms ! k = ms ! k) \<and>
   sanitize_tool_messages (sanitize_tool_messages ms) = sanitize_tool_messages ms"
proof (intro conjI)
  show "\<forall>m \<in> set (sanitize_tool_messages ms). cm_role m = Tool \<longrightarrow>
      (\<exists>i. cm_tool_call_id m = Some i \<and> i \<in> set (known_ids (sanitize_tool_messages ms)))"
    unfolding known_ids_sanitize
    by (auto simp: sanitize_tool_messages_def is_orphaned_def
             dest!: sanitize_message_not_orphan split: option.splits)
  show "\<forall>k < length ms. cm_role (ms ! k) \<noteq> Tool \<or> \<not> is_orphaned (known_ids ms) (ms ! k) \<longrightarrow>
      sanitize_tool_messages ms ! k = ms ! k"
    by (auto simp: sanitize_tool_messages_def sanitize_message_def)
  show "sanitize_tool_messages (sanitize_tool_messages ms) = sanitize_tool_messages ms"
    by (simp add: sanitize_tool_messages_def [of "sanitize_tool_messages ms"] known_ids_sanitize)
       (simp add: sanitize_tool_messages_def sanitize_message_idem)
qed

theorem sanitize_tool_messages_integrity_witness:
  "sanitize_tool_messages [cm_user ''hi'', cm_tool_result ''x'' ''shell'' ''out''] =
     [cm_user ''hi'', cm_user ''[Tool `shell` returned: out]''] \<and>
   sanitize_tool_messages [cm_user ''hi'', cm_user ''[Tool `shell` returned: out]''] =
     [cm_user ''hi'', cm_user ''[Tool `shell` returned: out]'']"
proof -
  have eq: "sanitize_tool_messages [cm_user ''hi'', cm_tool_result ''x'' ''shell'' ''out''] =
     [cm_user ''hi'', cm_user ''[Tool `shell` returned: out]'']"
    by (simp add: sanitize_tool_messages_def sanitize_message_def is_orphaned_def rewrite_orphan_def
        cm_user_def cm_tool_result_def)
  from sanitize_tool_messages_integrity
    [of "[cm_user ''hi'', cm_tool_result ''x'' ''shell'' ''out'']"] eq
  show ?thesis by simp
qed

lemma strip_completion_fields:
  "cr_temperature (strip_unsupported_completion_params u req) =
     (if ''temperature'' \<in> u then None else cr_temperature req)"
  "cr_max_tokens (strip_unsupported_completion_params u req) =
     (if ''max_tokens'' \<in> u then None else cr_max_tokens req)"
  "cr_stop_sequences (strip_unsupported_completion_params u req) =
     (if ''stop_sequences'' \<in> u then None else cr_stop_sequences req)"
  "cr_messages (strip_unsupported_completion_params u req) = cr_messages req"
  "cr_model (strip_unsupported_completion_params u req) = cr_model req"
  "cr_metadata (strip_unsupported_completion_params u req) = cr_metadata req"
  by (auto simp: strip_unsupported_completion_params_def Let_def)

lemma strip_tool_fields:
  "tr_temperature (strip_unsupported_tool_params u req) =
     (if ''temperature'' \<in> u then None else tr_temperature req)"
  "tr_max_tokens (strip_unsupported_tool_params u req) =
     (if ''max_tokens'' \<in> u then None else tr_max_tokens req)"
  "tr_messages (strip_unsupported_tool_params u req) = tr_messages req"
  "tr_tools (strip_unsupported_tool_params u req) = tr_tools req"
  "tr_tool_choice (strip_unsupported_tool_params u req) = tr_tool_choice req"
  by (auto simp: strip_unsupported_tool_params_def Let_def)

end
