(* ===== verification/Job_Memory.thy ===== *)
theory Job_Memory
  imports Chat
begin

text \<open>
  The memory of a job (\<^verbatim>\<open>src/context/memory.rs\<close>): action records with their sequence numbers, and
  the bounded conversation whose trimming loop protects a leading system message. The lemmas give
  the exact content of the conversation after any number of additions and the numbering of
  actions.
\<close>

record 'd ActionRecord =
  ar_id :: uuid
  ar_sequence :: u32
  ar_tool_name :: string
  ar_input :: json
  ar_output_raw :: "string option"
  ar_output_sanitized :: "json option"
  ar_sanitization_warnings :: "string list"
  ar_cost :: "'d option"
  ar_duration :: duration
  ar_success :: bool
  ar_error :: "string option"
  ar_executed_at :: datetime

definition action_new :: "uuid \<Rightarrow> datetime \<Rightarrow> u32 \<Rightarrow> string \<Rightarrow> json \<Rightarrow> 'd ActionRecord" where
  "action_new new_id now seq tool inp =
     \<lparr>ar_id = new_id, ar_sequence = seq, ar_tool_name = tool, ar_input = inp, ar_output_raw = None,
      ar_output_sanitized = None, ar_sanitization_warnings = [], ar_cost = None, ar_duration = 0,
      ar_success = False, ar_error = None, ar_executed_at = now\<rparr>"

definition action_succeed ::
    "string option \<Rightarrow> json \<Rightarrow> duration \<Rightarrow> 'd ActionRecord \<Rightarrow> 'd ActionRecord" where
  "action_succeed raw sanitized d a =
     a\<lparr>ar_success := True, ar_output_raw := raw, ar_output_sanitized := Some sanitized,
       ar_duration := d\<rparr>"

definition action_fail :: "string \<Rightarrow> duration \<Rightarrow> 'd ActionRecord \<Rightarrow> 'd ActionRecord" where
  "action_fail err d a = a\<lparr>ar_success := False, ar_error := Some err, ar_duration := d\<rparr>"

definition action_with_warnings :: "string list \<Rightarrow> 'd ActionRecord \<Rightarrow> 'd ActionRecord" where
  "action_with_warnings ws a = a\<lparr>ar_sanitization_warnings := ws\<rparr>"

definition action_with_cost :: "'d \<Rightarrow> 'd ActionRecord \<Rightarrow> 'd ActionRecord" where
  "action_with_cost c a = a\<lparr>ar_cost := Some c\<rparr>"

subsection \<open>The conversation\<close>

record ConversationMemory =
  cv_messages :: "ChatMessage list"
  cv_max_messages :: nat

definition conversation_new :: "nat \<Rightarrow> ConversationMemory" where
  "conversation_new m = \<lparr>cv_messages = [], cv_max_messages = m\<rparr>"

text \<open>The trimming loop of \<open>add\<close>: a leading system message is skipped, and never removed.\<close>

fun trim_messages :: "nat \<Rightarrow> ChatMessage list \<Rightarrow> ChatMessage list" where
  "trim_messages m [] = []"
| "trim_messages m [x] =
     (if 1 > m then (if cm_role x = System then [x] else []) else [x])"
| "trim_messages m (x # y # ms) =
     (if length (x # y # ms) > m
      then (if cm_role x = System then trim_messages m (x # ms) else trim_messages m (y # ms))
      else x # y # ms)"

definition conversation_add :: "ChatMessage \<Rightarrow> ConversationMemory \<Rightarrow> ConversationMemory" where
  "conversation_add msg c = c\<lparr>cv_messages := trim_messages (cv_max_messages c) (cv_messages c @ [msg])\<rparr>"

definition conversation_last_n :: "nat \<Rightarrow> ConversationMemory \<Rightarrow> ChatMessage list" where
  "conversation_last_n n c = drop (length (cv_messages c) - n) (cv_messages c)"

definition conversation_clear :: "ConversationMemory \<Rightarrow> ConversationMemory" where
  "conversation_clear c = c\<lparr>cv_messages := []\<rparr>"

subsection \<open>The memory\<close>

record 'd Memory =
  me_job_id :: uuid
  me_conversation :: ConversationMemory
  me_actions :: "'d ActionRecord list"
  me_next_sequence :: u32

definition memory_new :: "uuid \<Rightarrow> 'd Memory" where
  "memory_new i = \<lparr>me_job_id = i, me_conversation = conversation_new 100, me_actions = [],
                   me_next_sequence = 0\<rparr>"

definition memory_add_message :: "ChatMessage \<Rightarrow> 'd Memory \<Rightarrow> 'd Memory" where
  "memory_add_message msg m = m\<lparr>me_conversation := conversation_add msg (me_conversation m)\<rparr>"

definition create_action ::
    "uuid \<Rightarrow> datetime \<Rightarrow> string \<Rightarrow> json \<Rightarrow> 'd Memory \<Rightarrow> 'd ActionRecord \<times> 'd Memory" where
  "create_action new_id now tool inp m =
     (action_new new_id now (me_next_sequence m) tool inp,
      m\<lparr>me_next_sequence := me_next_sequence m + 1\<rparr>)"

definition record_action :: "'d ActionRecord \<Rightarrow> 'd Memory \<Rightarrow> 'd Memory" where
  "record_action a m = m\<lparr>me_actions := me_actions m @ [a]\<rparr>"

definition total_cost :: "('d::{zero,plus}) Memory \<Rightarrow> 'd" where
  "total_cost m = foldl (+) 0 (List.map_filter ar_cost (me_actions m))"

definition total_duration :: "'d Memory \<Rightarrow> duration" where
  "total_duration m = foldl (+) 0 (map ar_duration (me_actions m))"

definition successful_actions :: "'d Memory \<Rightarrow> nat" where
  "successful_actions m = length (filter ar_success (me_actions m))"

definition failed_actions :: "'d Memory \<Rightarrow> nat" where
  "failed_actions m = length (filter (\<lambda>a. \<not> ar_success a) (me_actions m))"

definition last_action :: "'d Memory \<Rightarrow> 'd ActionRecord option" where
  "last_action m = (if me_actions m = [] then None else Some (last (me_actions m)))"

definition actions_by_tool :: "string \<Rightarrow> 'd Memory \<Rightarrow> 'd ActionRecord list" where
  "actions_by_tool tool m = filter (\<lambda>a. ar_tool_name a = tool) (me_actions m)"

subsection \<open>The trimming loop\<close>

lemma trim_messages_short: "length ms \<le> m \<Longrightarrow> trim_messages m ms = ms"
  by (induction m ms rule: trim_messages.induct) auto

lemma length_trim_messages: "length (trim_messages m ms) \<le> max 1 m"
  by (induction m ms rule: trim_messages.induct) auto

lemma trim_messages_system:
  "cm_role s = System \<Longrightarrow> trim_messages (Suc m) (s # ms) = s # last_n m ms"
proof (induction ms)
  case Nil
  then show ?case by (simp add: last_n_def)
next
  case (Cons y ms)
  then show ?case by (auto simp: last_n_def Suc_diff_le)
qed

lemma trim_messages_plain:
  "\<forall>x \<in> set ms. cm_role x \<noteq> System \<Longrightarrow> trim_messages m ms = last_n m ms"
  by (induction m ms rule: trim_messages.induct) (auto simp: last_n_def Suc_diff_le)

text \<open>The messages behind a leading system message form a bounded log.\<close>

definition has_system_prompt :: "ConversationMemory \<Rightarrow> bool" where
  "has_system_prompt c \<longleftrightarrow>
     (case cv_messages c of [] \<Rightarrow> False | s # _ \<Rightarrow> cm_role s = System) \<and> 1 \<le> cv_max_messages c"

lemma conversation_add_system:
  assumes "has_system_prompt c"
  shows "cv_messages (conversation_add x c) =
    hd (cv_messages c) # last_n (cv_max_messages c - 1) (tl (cv_messages c) @ [x])"
proof -
  from assms obtain s ms m where "cv_messages c = s # ms" "cm_role s = System" "cv_max_messages c = Suc m"
    unfolding has_system_prompt_def by (cases "cv_messages c"; cases "cv_max_messages c") auto
  then show ?thesis by (simp add: conversation_add_def trim_messages_system)
qed

lemma conversation_add_max [frame_simps]: "cv_max_messages (conversation_add x c) = cv_max_messages c"
  by (simp add: conversation_add_def)

interpretation conversation_log:
  bounded_log conversation_add "\<lambda>c. tl (cv_messages c)" "\<lambda>c. cv_max_messages c - 1" has_system_prompt
proof
  fix c x assume ok: "has_system_prompt c"
  show "tl (cv_messages (conversation_add x c)) =
      last_n (cv_max_messages c - 1) (tl (cv_messages c) @ [x])"
    by (simp add: conversation_add_system [OF ok])
  show "cv_max_messages (conversation_add x c) - 1 = cv_max_messages c - 1"
    by (simp add: frame_simps)
  show "has_system_prompt (conversation_add x c)"
    using ok by (auto simp: has_system_prompt_def conversation_add_system [OF ok] frame_simps
        split: list.splits)
qed

lemma conversation_add_hd_run:
  "has_system_prompt c \<Longrightarrow> hd (cv_messages (fold conversation_add ms c)) = hd (cv_messages c)"
  by (induction ms arbitrary: c) (simp_all add: conversation_log.ok_push conversation_add_system)

lemma cv_messages_split: "has_system_prompt c \<Longrightarrow> cv_messages c = hd (cv_messages c) # tl (cv_messages c)"
  by (auto simp: has_system_prompt_def split: list.splits)

text \<open>
  Also: In a conversation within its limit that starts with a system message, any number of
  additions keeps that system message in front, followed by exactly the most recent of the other
  messages, in order and within the limit.
\<close>

theorem conversation_keeps_system_prompt:
  assumes "cm_role s = System" and "1 \<le> limit" and "length rest < limit"
  shows "cv_messages (fold conversation_add ms \<lparr>cv_messages = s # rest, cv_max_messages = limit\<rparr>) =
     s # last_n (limit - 1) (rest @ ms)"
proof -
  let ?c = "\<lparr>cv_messages = s # rest, cv_max_messages = limit\<rparr>"
  have ok: "has_system_prompt ?c" using assms by (simp add: has_system_prompt_def)
  have "tl (cv_messages (fold conversation_add ms ?c)) = last_n (limit - 1) (rest @ ms)"
    using conversation_log.items_run [OF ok, of ms] assms by simp
  then show ?thesis
    using cv_messages_split [OF conversation_log.ok_run [OF ok]] conversation_add_hd_run [OF ok]
    by (metis ConversationMemory.select_convs(1) list.sel(1))
qed

theorem conversation_keeps_system_prompt_witness:
  "cv_messages (fold conversation_add [cm_user ''b'', cm_user ''c'']
      \<lparr>cv_messages = [cm_system ''s'', cm_user ''a''], cv_max_messages = 3\<rparr>) =
   [cm_system ''s'', cm_user ''b'', cm_user ''c'']"
  using conversation_keeps_system_prompt
    [of "cm_system ''s''" 3 "[cm_user ''a'']" "[cm_user ''b'', cm_user ''c'']"]
  by (simp add: last_n_def)

subsection \<open>Numbering of actions\<close>

lemma create_action_sequence:
  "ar_sequence (fst (create_action i now tool inp m)) = me_next_sequence m"
  "me_next_sequence (snd (create_action i now tool inp m)) = me_next_sequence m + 1"
  by (simp_all add: create_action_def action_new_def)

lemma actions_partition: "successful_actions m + failed_actions m = length (me_actions m)"
  unfolding successful_actions_def failed_actions_def by (rule sum_length_filter_compl)

end
