(* ===== verification/Context_Manager.thy ===== *)
theory Context_Manager
  imports Job_State Job_Memory
begin

text \<open>
  The context manager (\<^verbatim>\<open>src/context/manager.rs\<close>) that owns the contexts and memories of all jobs,
  and the job errors of \<^verbatim>\<open>src/error.rs\<close>. The two maps sit behind two locks that the code takes one
  after the other, so the operations are also split into their critical sections, and \<open>mgr_step\<close>
  interleaves the sections of concurrent callers. The lemmas show the capacity bound under every
  interleaving, the agreement of the two maps when calls do not overlap, and what each query
  returns. The locale \<open>job_store\<close> is the interface the self-repair component relies on.
\<close>

datatype JobError =
    NotFound uuid
  | InvalidTransition uuid string string
  | JobFailed uuid string
  | JobStuck uuid duration
  | MaxJobsExceeded nat
  | ContextError uuid string

record 'd ContextManager =
  mg_contexts :: "(uuid \<times> 'd JobContext) list"
  mg_memories :: "(uuid \<times> 'd Memory) list"
  mg_max_jobs :: nat

definition manager_new :: "nat \<Rightarrow> 'd ContextManager" where
  "manager_new m = \<lparr>mg_contexts = [], mg_memories = [], mg_max_jobs = m\<rparr>"

definition active_count :: "'d ContextManager \<Rightarrow> nat" where
  "active_count mg = length (filter (\<lambda>c. is_active (jc_state c)) (vals (mg_contexts mg)))"

subsection \<open>Operations and their critical sections\<close>

text \<open>The section of \<open>create_job_for_user\<close> under the write lock of \<open>contexts\<close>.\<close>

definition create_insert_context ::
    "uuid \<Rightarrow> datetime \<Rightarrow> string \<Rightarrow> string \<Rightarrow> string \<Rightarrow> ('d::zero) ContextManager \<Rightarrow>
       (JobError + uuid) \<times> 'd ContextManager" where
  "create_insert_context new_id now user_id title description mg =
     (if active_count mg \<ge> mg_max_jobs mg then (Inl (MaxJobsExceeded (mg_max_jobs mg)), mg)
      else let context = job_with_user new_id now user_id title description;
               job_id = jc_job_id context
           in (Inr job_id, mg\<lparr>mg_contexts := AList.update job_id context (mg_contexts mg)\<rparr>))"

text \<open>Its section under the write lock of \<open>memories\<close>.\<close>

definition create_insert_memory :: "uuid \<Rightarrow> 'd ContextManager \<Rightarrow> 'd ContextManager" where
  "create_insert_memory job_id mg =
     mg\<lparr>mg_memories := AList.update job_id (memory_new job_id) (mg_memories mg)\<rparr>"

definition create_job_for_user ::
    "uuid \<Rightarrow> datetime \<Rightarrow> string \<Rightarrow> string \<Rightarrow> string \<Rightarrow> ('d::zero) ContextManager \<Rightarrow>
       (JobError + uuid) \<times> 'd ContextManager" where
  "create_job_for_user new_id now user_id title description mg =
     (case create_insert_context new_id now user_id title description mg of
        (Inl e, mg') \<Rightarrow> (Inl e, mg')
      | (Inr job_id, mg') \<Rightarrow> (Inr job_id, create_insert_memory job_id mg'))"

definition create_job ::
    "uuid \<Rightarrow> datetime \<Rightarrow> string \<Rightarrow> string \<Rightarrow> ('d::zero) ContextManager \<Rightarrow>
       (JobError + uuid) \<times> 'd ContextManager" where
  "create_job new_id now title description mg =
     create_job_for_user new_id now ''default'' title description mg"

definition get_context :: "uuid \<Rightarrow> 'd ContextManager \<Rightarrow> JobError + 'd JobContext" where
  "get_context job_id mg =
     (case map_of (mg_contexts mg) job_id of Some c \<Rightarrow> Inr c | None \<Rightarrow> Inl (NotFound job_id))"

definition update_context ::
    "uuid \<Rightarrow> ('d JobContext \<Rightarrow> 'r \<times> 'd JobContext) \<Rightarrow> 'd ContextManager \<Rightarrow>
       (JobError + 'r) \<times> 'd ContextManager" where
  "update_context job_id f mg =
     (case map_of (mg_contexts mg) job_id of
        None \<Rightarrow> (Inl (NotFound job_id), mg)
      | Some c \<Rightarrow> (case f c of (r, c') \<Rightarrow>
          (Inr r, mg\<lparr>mg_contexts := AList.update job_id c' (mg_contexts mg)\<rparr>)))"

definition get_memory :: "uuid \<Rightarrow> 'd ContextManager \<Rightarrow> JobError + 'd Memory" where
  "get_memory job_id mg =
     (case map_of (mg_memories mg) job_id of Some m \<Rightarrow> Inr m | None \<Rightarrow> Inl (NotFound job_id))"

definition update_memory ::
    "uuid \<Rightarrow> ('d Memory \<Rightarrow> 'r \<times> 'd Memory) \<Rightarrow> 'd ContextManager \<Rightarrow>
       (JobError + 'r) \<times> 'd ContextManager" where
  "update_memory job_id f mg =
     (case map_of (mg_memories mg) job_id of
        None \<Rightarrow> (Inl (NotFound job_id), mg)
      | Some m \<Rightarrow> (case f m of (r, m') \<Rightarrow>
          (Inr r, mg\<lparr>mg_memories := AList.update job_id m' (mg_memories mg)\<rparr>)))"

definition active_jobs :: "'d ContextManager \<Rightarrow> uuid list" where
  "active_jobs mg = map fst (filter (\<lambda>(_, c). is_active (jc_state c)) (mg_contexts mg))"

definition all_jobs :: "'d ContextManager \<Rightarrow> uuid list" where
  "all_jobs mg = keys (mg_contexts mg)"

definition active_jobs_for :: "string \<Rightarrow> 'd ContextManager \<Rightarrow> uuid list" where
  "active_jobs_for user mg =
     map fst (filter (\<lambda>(_, c). jc_user_id c = user \<and> is_active (jc_state c)) (mg_contexts mg))"

definition all_jobs_for :: "string \<Rightarrow> 'd ContextManager \<Rightarrow> uuid list" where
  "all_jobs_for user mg = map fst (filter (\<lambda>(_, c). jc_user_id c = user) (mg_contexts mg))"

definition find_stuck_jobs :: "'d ContextManager \<Rightarrow> uuid list" where
  "find_stuck_jobs mg = map fst (filter (\<lambda>(_, c). jc_state c = Stuck) (mg_contexts mg))"

text \<open>The two sections of \<open>remove_job\<close>.\<close>

definition remove_context ::
    "uuid \<Rightarrow> 'd ContextManager \<Rightarrow> (JobError + 'd JobContext) \<times> 'd ContextManager" where
  "remove_context job_id mg =
     (case map_of (mg_contexts mg) job_id of
        None \<Rightarrow> (Inl (NotFound job_id), mg)
      | Some c \<Rightarrow> (Inr c, mg\<lparr>mg_contexts := AList.delete job_id (mg_contexts mg)\<rparr>))"

definition remove_memory ::
    "uuid \<Rightarrow> 'd ContextManager \<Rightarrow> (JobError + 'd Memory) \<times> 'd ContextManager" where
  "remove_memory job_id mg =
     (case map_of (mg_memories mg) job_id of
        None \<Rightarrow> (Inl (NotFound job_id), mg)
      | Some m \<Rightarrow> (Inr m, mg\<lparr>mg_memories := AList.delete job_id (mg_memories mg)\<rparr>))"

definition remove_job ::
    "uuid \<Rightarrow> 'd ContextManager \<Rightarrow> (JobError + 'd JobContext \<times> 'd Memory) \<times> 'd ContextManager" where
  "remove_job job_id mg =
     (case remove_context job_id mg of
        (Inl e, mg') \<Rightarrow> (Inl e, mg')
      | (Inr c, mg') \<Rightarrow>
          (case remove_memory job_id mg' of
             (Inl e, mg'') \<Rightarrow> (Inl e, mg'')
           | (Inr m, mg'') \<Rightarrow> (Inr (c, m), mg'')))"

subsection \<open>Summaries\<close>

record ContextSummary =
  sm_total :: nat
  sm_pending :: nat
  sm_in_progress :: nat
  sm_completed :: nat
  sm_submitted :: nat
  sm_accepted :: nat
  sm_failed :: nat
  sm_stuck :: nat
  sm_cancelled :: nat

definition summary_default :: ContextSummary where
  "summary_default = \<lparr>sm_total = 0, sm_pending = 0, sm_in_progress = 0, sm_completed = 0,
     sm_submitted = 0, sm_accepted = 0, sm_failed = 0, sm_stuck = 0, sm_cancelled = 0\<rparr>"

fun summary_count :: "JobState \<Rightarrow> ContextSummary \<Rightarrow> ContextSummary" where
  "summary_count Pending s = s\<lparr>sm_pending := sm_pending s + 1\<rparr>"
| "summary_count InProgress s = s\<lparr>sm_in_progress := sm_in_progress s + 1\<rparr>"
| "summary_count Completed s = s\<lparr>sm_completed := sm_completed s + 1\<rparr>"
| "summary_count Submitted s = s\<lparr>sm_submitted := sm_submitted s + 1\<rparr>"
| "summary_count Accepted s = s\<lparr>sm_accepted := sm_accepted s + 1\<rparr>"
| "summary_count Failed s = s\<lparr>sm_failed := sm_failed s + 1\<rparr>"
| "summary_count Stuck s = s\<lparr>sm_stuck := sm_stuck s + 1\<rparr>"
| "summary_count Cancelled s = s\<lparr>sm_cancelled := sm_cancelled s + 1\<rparr>"

definition summary :: "'d ContextManager \<Rightarrow> ContextSummary" where
  "summary mg =
     (let s = fold (\<lambda>c. summary_count (jc_state c)) (vals (mg_contexts mg)) summary_default
      in s\<lparr>sm_total := length (mg_contexts mg)\<rparr>)"

definition summary_for :: "string \<Rightarrow> 'd ContextManager \<Rightarrow> ContextSummary" where
  "summary_for user mg =
     (let s = fold (\<lambda>c. summary_count (jc_state c))
                (filter (\<lambda>c. jc_user_id c = user) (vals (mg_contexts mg))) summary_default
      in s\<lparr>sm_total := sm_pending s + sm_in_progress s + sm_completed s + sm_submitted s +
             sm_accepted s + sm_failed s + sm_stuck s + sm_cancelled s\<rparr>)"

subsection \<open>Interleaving of concurrent callers\<close>

text \<open>A caller between its two critical sections.\<close>

datatype mgr_task = InsertMemory uuid | RemoveMemory uuid

inductive mgr_step ::
    "('d::{zero,plus}) ContextManager \<times> mgr_task list \<Rightarrow> 'd ContextManager \<times> mgr_task list \<Rightarrow> bool" where
  create_begin:
    "create_insert_context new_id now user title desc mg = (Inr j, mg') \<Longrightarrow>
     mgr_step (mg, ts) (mg', InsertMemory j # ts)"
| create_refused:
    "create_insert_context new_id now user title desc mg = (Inl e, mg') \<Longrightarrow>
     mgr_step (mg, ts) (mg', ts)"
| create_end:
    "InsertMemory j \<in> set ts \<Longrightarrow> mgr_step (mg, ts) (create_insert_memory j mg, remove1 (InsertMemory j) ts)"
| remove_begin:
    "remove_context j mg = (Inr c, mg') \<Longrightarrow> mgr_step (mg, ts) (mg', RemoveMemory j # ts)"
| remove_end:
    "RemoveMemory j \<in> set ts \<Longrightarrow>
     mgr_step (mg, ts) (snd (remove_memory j mg), remove1 (RemoveMemory j) ts)"
| update_job:
    "(\<And>c. job_step c (snd (f c))) \<Longrightarrow>
     mgr_step (mg, ts) (snd (update_context j (f :: 'd JobContext \<Rightarrow> (string + unit) \<times> 'd JobContext) mg), ts)"
| update_mem:
    "mgr_step (mg, ts) (snd (update_memory j (g :: 'd Memory \<Rightarrow> unit \<times> 'd Memory) mg), ts)"

subsection \<open>The interface for components that work on stored jobs\<close>

locale job_store =
  fixes lookup :: "'m \<Rightarrow> uuid \<Rightarrow> 'd JobContext option"
    and update :: "uuid \<Rightarrow> ('d JobContext \<Rightarrow> (string + unit) \<times> 'd JobContext) \<Rightarrow> 'm \<Rightarrow>
      (JobError + (string + unit)) \<times> 'm"
  assumes update_hit: "lookup m i = Some c \<Longrightarrow> fst (update i f m) = Inr (fst (f c))"
    and lookup_update: "lookup m i = Some c \<Longrightarrow> lookup (snd (update i f m)) = (lookup m)(i \<mapsto> snd (f c))"
    and update_miss: "lookup m i = None \<Longrightarrow> update i f m = (Inl (NotFound i), m)"
begin

lemma recover_stuck:
  assumes "lookup m i = Some c" and "jc_state c = Stuck"
  shows "fst (update i (attempt_recovery now) m) = Inr (Inr ())"
    and "lookup (snd (update i (attempt_recovery now) m)) = (lookup m)(i \<mapsto> snd (attempt_recovery now c))"
  using assms by (simp_all add: update_hit lookup_update attempt_recovery_stuck)

lemma recover_not_stuck:
  assumes "lookup m i = Some c" and "jc_state c \<noteq> Stuck"
  shows "fst (update i (attempt_recovery now) m) = Inr (Inl ''Job is not stuck'')"
    and "lookup (snd (update i (attempt_recovery now) m)) = lookup m"
  using assms by (simp_all add: update_hit lookup_update attempt_recovery_not_stuck map_upd_triv)

lemma update_keeps_inv:
  assumes "\<And>j c. lookup m j = Some c \<Longrightarrow> job_inv c" and "\<And>c. job_inv c \<Longrightarrow> job_inv (snd (f c))"
    and "lookup (snd (update i f m)) j = Some c"
  shows "job_inv c"
proof (cases "lookup m i")
  case None
  with assms(1,3) show ?thesis by (simp add: update_miss)
next
  case (Some c0)
  with assms show ?thesis by (auto simp: lookup_update split: if_splits)
qed

end

interpretation manager_store: job_store "\<lambda>mg. map_of (mg_contexts mg)" update_context
  by unfold_locales
     (auto simp: update_context_def update_conv' split: prod.splits option.splits)

subsection \<open>Capacity\<close>

lemma count_update_le:
  "length (filter P (vals (AList.update k v m))) \<le> length (filter P (vals m)) + 1"
  by (induction m) auto

lemma create_insert_context_count:
  "active_count mg \<le> mg_max_jobs mg \<Longrightarrow>
   active_count (snd (create_insert_context i now u t d mg)) \<le> mg_max_jobs mg"
  using count_update_le [of "\<lambda>c. is_active (jc_state c)" i "job_with_user i now u t d" "mg_contexts mg"]
  by (auto simp: create_insert_context_def active_count_def Let_def job_with_user_def)

lemma update_context_count:
  assumes step: "\<And>c. job_step c (snd (f c))" and dist: "distinct (keys (mg_contexts mg))"
  shows "active_count (snd (update_context j f mg)) \<le> active_count mg"
proof (cases "map_of (mg_contexts mg) j")
  case None
  then show ?thesis by (simp add: update_context_def)
next
  case (Some c)
  have "is_active (jc_state (snd (f c))) \<Longrightarrow> is_active (jc_state c)"
    using job_step_terminal [OF step [of c]] by (auto simp: is_active_def)
  then show ?thesis
    using count_update_existing [OF dist Some, of "\<lambda>c. is_active (jc_state c)" "snd (f c)"] Some
    by (auto simp: update_context_def active_count_def split: prod.splits if_splits)
qed

definition mgr_safe :: "'d ContextManager \<times> mgr_task list \<Rightarrow> bool" where
  "mgr_safe s \<longleftrightarrow> distinct (keys (mg_contexts (fst s))) \<and> active_count (fst s) \<le> mg_max_jobs (fst s)"

lemma mgr_step_max: "mgr_step s s' \<Longrightarrow> mg_max_jobs (fst s') = mg_max_jobs (fst s)"
  by (induction rule: mgr_step.induct)
     (auto simp: create_insert_context_def create_insert_memory_def remove_context_def
        remove_memory_def update_context_def update_memory_def Let_def
        split: if_splits option.splits prod.splits)

lemma mgr_step_safe: "mgr_step s s' \<Longrightarrow> mgr_safe s \<Longrightarrow> mgr_safe s'"
proof (induction rule: mgr_step.induct)
  case (create_begin i now u t d mg j mg' ts)
  then show ?case
    using create_insert_context_count [of mg i now u t d]
    by (auto simp: mgr_safe_def create_insert_context_def Let_def split: if_splits)
next
  case (create_refused i now u t d mg e mg' ts)
  then show ?case by (auto simp: create_insert_context_def Let_def split: if_splits)
next
  case (remove_begin j mg c mg' ts)
  then show ?case
    using length_filter_vals_delete [of "\<lambda>c. is_active (jc_state c)" j "mg_contexts mg"]
    by (auto simp: mgr_safe_def active_count_def remove_context_def split: option.splits)
next
  case (update_job f mg ts j)
  moreover have "distinct (keys (mg_contexts (snd (update_context j f mg))))"
    using update_job.prems by (auto simp: mgr_safe_def update_context_def split: option.splits prod.splits)
  moreover have "mg_max_jobs (snd (update_context j f mg)) = mg_max_jobs mg"
    by (auto simp: update_context_def split: option.splits prod.splits)
  ultimately show ?case
    using update_context_count [of f mg j] by (auto simp: mgr_safe_def)
qed (auto simp: mgr_safe_def active_count_def create_insert_memory_def remove_memory_def
       update_memory_def split: option.splits prod.splits)

lemma mgr_steps_safe:
  "rtranclp mgr_step s s' \<Longrightarrow> mgr_safe s \<Longrightarrow> mgr_safe s' \<and> mg_max_jobs (fst s') = mg_max_jobs (fst s)"
  by (induction rule: rtranclp_induct) (auto simp: mgr_step_max intro: mgr_step_safe)

text \<open>
  Property C15. However the critical sections of concurrent callers interleave, the number of active
  jobs never exceeds the configured maximum: the check and the insertion of \<open>create_job_for_user\<close>
  share one critical section, and no method of a job makes a finished job active again.
\<close>

theorem active_jobs_bounded:
  assumes "rtranclp mgr_step (manager_new m, []) (mg, tasks)"
  shows "active_count mg \<le> m"
proof -
  have init: "mgr_safe (manager_new m, [])"
    by (simp add: mgr_safe_def manager_new_def active_count_def)
  from mgr_steps_safe [OF assms init] show ?thesis by (simp add: mgr_safe_def manager_new_def)
qed

definition demo_manager :: "int ContextManager" where
  "demo_manager = snd (create_insert_context 5 0 ''u'' ''t'' ''d'' (manager_new 1))"

theorem active_jobs_bounded_witness:
  "rtranclp mgr_step (manager_new 1, []) (demo_manager, [InsertMemory 5]) \<and>
   active_count demo_manager = 1 \<and> active_count demo_manager \<le> 1"
proof -
  have "mgr_step (manager_new 1, []) (demo_manager, [InsertMemory 5])"
    by (rule create_begin [of 5 0 "''u''" "''t''" "''d''"])
       (simp add: demo_manager_def create_insert_context_def manager_new_def active_count_def
          Let_def job_with_user_def)
  then have reach: "rtranclp mgr_step (manager_new 1, []) (demo_manager, [InsertMemory 5])" by blast
  then show ?thesis
    using active_jobs_bounded [OF reach]
    by (simp add: demo_manager_def create_insert_context_def manager_new_def active_count_def
        Let_def job_with_user_def is_active_def)
qed

subsection \<open>Agreement of the two maps\<close>

definition mgr_inv :: "'d ContextManager \<Rightarrow> bool" where
  "mgr_inv mg \<longleftrightarrow>
     distinct (keys (mg_contexts mg)) \<and> distinct (keys (mg_memories mg)) \<and>
     set (keys (mg_contexts mg)) = set (keys (mg_memories mg))"

lemma mgr_inv_iff_lookup:
  "mgr_inv mg \<longleftrightarrow> distinct (keys (mg_contexts mg)) \<and> distinct (keys (mg_memories mg)) \<and>
     dom (map_of (mg_contexts mg)) = dom (map_of (mg_memories mg))"
  by (simp add: mgr_inv_def dom_map_of_conv_image_fst)

lemma mgr_inv_new [inv_intros]: "mgr_inv (manager_new m)"
  by (simp add: mgr_inv_def manager_new_def)

lemma mgr_inv_create [inv_intros]: "mgr_inv mg \<Longrightarrow> mgr_inv (snd (create_job_for_user i now u t d mg))"
  by (auto simp: mgr_inv_iff_lookup create_job_for_user_def create_insert_context_def
      create_insert_memory_def Let_def job_with_user_def update_conv' split: sum.splits if_splits)

lemma mgr_inv_update_context [inv_intros]: "mgr_inv mg \<Longrightarrow> mgr_inv (snd (update_context j f mg))"
  by (auto simp: mgr_inv_iff_lookup update_context_def update_conv' split: option.splits prod.splits)

lemma mgr_inv_update_memory [inv_intros]: "mgr_inv mg \<Longrightarrow> mgr_inv (snd (update_memory j g mg))"
  by (auto simp: mgr_inv_iff_lookup update_memory_def update_conv' split: option.splits prod.splits)

lemma mgr_inv_remove [inv_intros]: "mgr_inv mg \<Longrightarrow> mgr_inv (snd (remove_job j mg))"
  by (auto simp: mgr_inv_iff_lookup remove_job_def remove_context_def remove_memory_def delete_conv'
      split: option.splits)

text \<open>
  Also: On a manager whose two maps agree, \<open>create_job_for_user\<close> either refuses, leaving the
  manager as it was, exactly when the maximum of active jobs is reached; or it stores a pending
  context and an empty memory under the new id, after which both lookups find them, every other job
  is as before, and \<open>remove_job\<close> returns precisely these two and restores the set of jobs.
\<close>

theorem create_job_spec:
  assumes inv: "mgr_inv mg" and fresh: "i \<notin> set (all_jobs mg)"
  shows "(if active_count mg \<ge> mg_max_jobs mg
    then create_job_for_user i now u t d mg = (Inl (MaxJobsExceeded (mg_max_jobs mg)), mg)
    else \<exists>mg'. create_job_for_user i now u t d mg = (Inr i, mg') \<and> mgr_inv mg' \<and>
       get_context i mg' = Inr (job_with_user i now u t d) \<and> get_memory i mg' = Inr (memory_new i) \<and>
       (\<forall>j. j \<noteq> i \<longrightarrow> get_context j mg' = get_context j mg \<and> get_memory j mg' = get_memory j mg) \<and>
       active_count mg' = active_count mg + 1 \<and>
       remove_job i mg' = (Inr (job_with_user i now u t d, memory_new i), mg))"
proof (cases "active_count mg \<ge> mg_max_jobs mg")
  case True
  then show ?thesis by (simp add: create_job_for_user_def create_insert_context_def)
next
  case False
  let ?c = "job_with_user i now u t d"
  let ?mg = "mg\<lparr>mg_contexts := mg_contexts mg @ [(i, ?c)],
                mg_memories := mg_memories mg @ [(i, memory_new i)]\<rparr>"
  have fresh': "i \<notin> set (keys (mg_contexts mg))" "i \<notin> set (keys (mg_memories mg))"
    using inv fresh by (simp_all add: mgr_inv_def all_jobs_def)
  have eq: "create_job_for_user i now u t d mg = (Inr i, ?mg)"
    using False fresh'
    by (simp add: create_job_for_user_def create_insert_context_def create_insert_memory_def
        Let_def job_with_user_def update_fresh)
  have none: "map_of (mg_contexts mg) i = None" "map_of (mg_memories mg) i = None"
    using fresh' by (simp_all add: map_of_eq_None_iff)
  have keep: "get_context j ?mg = get_context j mg" "get_memory j ?mg = get_memory j mg"
    if "j \<noteq> i" for j
    using that by (auto simp: get_context_def get_memory_def map_add_def split: option.splits)
  have rm: "remove_job i ?mg = (Inr (?c, memory_new i), mg)"
    using none fresh'
    by (simp add: remove_job_def remove_context_def remove_memory_def map_add_def delete_append_fresh)
  have "mgr_inv ?mg" using inv fresh' by (simp add: mgr_inv_def)
  moreover have "get_context i ?mg = Inr ?c" "get_memory i ?mg = Inr (memory_new i)"
    using none by (simp_all add: get_context_def get_memory_def map_add_def)
  moreover have "active_count ?mg = active_count mg + 1"
    by (simp add: active_count_def job_with_user_def is_active_def)
  ultimately show ?thesis using False eq keep rm by auto
qed

theorem create_job_spec_witness:
  "mgr_inv (manager_new 1 :: int ContextManager) \<and>
   (\<exists>mg'. create_job_for_user 5 0 ''u'' ''t'' ''d'' (manager_new 1 :: int ContextManager) = (Inr 5, mg') \<and>
          get_context 5 mg' = Inr (job_with_user 5 0 ''u'' ''t'' ''d''))"
proof -
  have fresh: "5 \<notin> set (all_jobs (manager_new 1 :: int ContextManager))"
    and "\<not> active_count (manager_new 1 :: int ContextManager) \<ge> mg_max_jobs (manager_new 1 :: int ContextManager)"
    by (simp_all add: all_jobs_def manager_new_def active_count_def)
  with create_job_spec [OF mgr_inv_new fresh, of 0 "''u''" "''t''" "''d''"]
  show ?thesis by (auto simp only: if_False mgr_inv_new)
qed

subsection \<open>Queries\<close>

lemma summary_count_one:
  "sm_pending (summary_count st s) = sm_pending s + (if st = Pending then 1 else 0)"
  "sm_in_progress (summary_count st s) = sm_in_progress s + (if st = InProgress then 1 else 0)"
  "sm_completed (summary_count st s) = sm_completed s + (if st = Completed then 1 else 0)"
  "sm_submitted (summary_count st s) = sm_submitted s + (if st = Submitted then 1 else 0)"
  "sm_accepted (summary_count st s) = sm_accepted s + (if st = Accepted then 1 else 0)"
  "sm_failed (summary_count st s) = sm_failed s + (if st = Failed then 1 else 0)"
  "sm_stuck (summary_count st s) = sm_stuck s + (if st = Stuck then 1 else 0)"
  "sm_cancelled (summary_count st s) = sm_cancelled s + (if st = Cancelled then 1 else 0)"
  by (cases st; simp)+

lemma summary_count_fields:
  "sm_pending (fold (\<lambda>c. summary_count (jc_state c)) cs s) = sm_pending s + length (filter (\<lambda>c. jc_state c = Pending) cs)"
  "sm_in_progress (fold (\<lambda>c. summary_count (jc_state c)) cs s) = sm_in_progress s + length (filter (\<lambda>c. jc_state c = InProgress) cs)"
  "sm_completed (fold (\<lambda>c. summary_count (jc_state c)) cs s) = sm_completed s + length (filter (\<lambda>c. jc_state c = Completed) cs)"
  "sm_submitted (fold (\<lambda>c. summary_count (jc_state c)) cs s) = sm_submitted s + length (filter (\<lambda>c. jc_state c = Submitted) cs)"
  "sm_accepted (fold (\<lambda>c. summary_count (jc_state c)) cs s) = sm_accepted s + length (filter (\<lambda>c. jc_state c = Accepted) cs)"
  "sm_failed (fold (\<lambda>c. summary_count (jc_state c)) cs s) = sm_failed s + length (filter (\<lambda>c. jc_state c = Failed) cs)"
  "sm_stuck (fold (\<lambda>c. summary_count (jc_state c)) cs s) = sm_stuck s + length (filter (\<lambda>c. jc_state c = Stuck) cs)"
  "sm_cancelled (fold (\<lambda>c. summary_count (jc_state c)) cs s) = sm_cancelled s + length (filter (\<lambda>c. jc_state c = Cancelled) cs)"
  by (induction cs arbitrary: s) (simp_all add: summary_count_one)

lemma count_states:
  "length (filter (\<lambda>c. jc_state c = Pending) cs) + length (filter (\<lambda>c. jc_state c = InProgress) cs) +
   length (filter (\<lambda>c. jc_state c = Completed) cs) + length (filter (\<lambda>c. jc_state c = Submitted) cs) +
   length (filter (\<lambda>c. jc_state c = Accepted) cs) + length (filter (\<lambda>c. jc_state c = Failed) cs) +
   length (filter (\<lambda>c. jc_state c = Stuck) cs) + length (filter (\<lambda>c. jc_state c = Cancelled) cs) = length cs"
proof (induction cs)
  case (Cons c cs)
  then show ?case by (cases "jc_state c") simp_all
qed simp

lemma active_count_states:
  "length (filter (\<lambda>c. is_active (jc_state c)) cs) +
   length (filter (\<lambda>c. jc_state c = Accepted) cs) + length (filter (\<lambda>c. jc_state c = Failed) cs) +
   length (filter (\<lambda>c. jc_state c = Cancelled) cs) = length cs"
proof (induction cs)
  case (Cons c cs)
  then show ?case by (cases "jc_state c") (simp_all add: is_active_def)
qed simp

text \<open>
  Also: The summary counts every job exactly once: its eight counters add up to the total,
  the total is the number of jobs, and the jobs in a non-terminal state are what \<open>active_count\<close> and
  \<open>active_jobs\<close> report; the summary of one user counts exactly that user's jobs.
\<close>

theorem summary_counts_all:
  "sm_total (summary mg) = length (all_jobs mg) \<and>
   sm_total (summary mg) = sm_pending (summary mg) + sm_in_progress (summary mg) +
     sm_completed (summary mg) + sm_submitted (summary mg) + sm_accepted (summary mg) +
     sm_failed (summary mg) + sm_stuck (summary mg) + sm_cancelled (summary mg) \<and>
   active_count mg = length (active_jobs mg) \<and>
   active_count mg + sm_accepted (summary mg) + sm_failed (summary mg) + sm_cancelled (summary mg) =
     sm_total (summary mg) \<and>
   sm_total (summary_for user mg) = length (all_jobs_for user mg)"
proof -
  let ?cs = "vals (mg_contexts mg)"
  let ?us = "filter (\<lambda>c. jc_user_id c = user) ?cs"
  have "active_count mg = length (active_jobs mg)"
    by (simp add: active_count_def active_jobs_def filter_map comp_def case_prod_unfold)
  moreover have "length ?us = length (all_jobs_for user mg)"
    by (simp add: all_jobs_for_def filter_map comp_def case_prod_unfold)
  ultimately show ?thesis
    using count_states [of ?cs] count_states [of ?us] active_count_states [of ?cs]
    by (simp add: summary_def summary_for_def summary_count_fields summary_default_def Let_def
        all_jobs_def active_count_def)
qed

end
