(* ===== verification/Self_Repair.thy ===== *)
theory Self_Repair
  imports Context_Manager
begin

text \<open>
  Self-repair of stuck jobs (\<^verbatim>\<open>src/agent/self_repair.rs\<close>): detection, the repair of one job and the
  pass over all stuck jobs that the background task makes in every round. The lemmas rest on the
  \<open>job_store\<close> interface of the context manager. \<open>us\<close> is the display form of a UUID and
  \<open>fd\<close> the debug form of a duration; the reading of the clock is an argument, one per repaired job. The repair of broken tools goes
  through the database and the software builder and is not modelled.
\<close>

record StuckJob =
  sj_job_id :: uuid
  sj_last_activity :: datetime
  sj_stuck_duration :: duration
  sj_last_error :: "string option"
  sj_repair_attempts :: u32

datatype RepairResult =
    Success string
  | Retry string
  | RepairFailed string
  | ManualRequired string

datatype RepairError =
    RepairErrorFailed string uuid string
  | MaxAttemptsExceeded string uuid u32
  | DiagnosisFailed string uuid string

fun job_error_display :: "(uuid \<Rightarrow> string) \<Rightarrow> (duration \<Rightarrow> string) \<Rightarrow> JobError \<Rightarrow> string" where
  "job_error_display us fd (NotFound i) = ''Job '' @ us i @ '' not found''"
| "job_error_display us fd (InvalidTransition i s t) =
     ''Job '' @ us i @ '' already in state '' @ s @ '', cannot transition to '' @ t"
| "job_error_display us fd (JobFailed i r) = ''Job '' @ us i @ '' failed: '' @ r"
| "job_error_display us fd (JobStuck i d) = ''Job '' @ us i @ '' stuck for '' @ fd d"
| "job_error_display us fd (MaxJobsExceeded m) =
     ''Maximum parallel jobs ('' @ show_nat m @ '') exceeded''"
| "job_error_display us fd (ContextError i r) = ''Job '' @ us i @ '' context error: '' @ r"

definition stuck_job :: "datetime \<Rightarrow> uuid \<Rightarrow> 'd JobContext \<Rightarrow> StuckJob" where
  "stuck_job now job_id ctx =
     \<lparr>sj_job_id = job_id,
      sj_last_activity = (case jc_started_at ctx of Some t \<Rightarrow> t | None \<Rightarrow> jc_created_at ctx),
      sj_stuck_duration = (case jc_started_at ctx of
          Some start \<Rightarrow> secs (nat (max 0 ((now - start) div 1000000000))) | None \<Rightarrow> 0),
      sj_last_error = None,
      sj_repair_attempts = jc_repair_attempts ctx\<rparr>"

fun detect_loop :: "datetime \<Rightarrow> 'd ContextManager \<Rightarrow> uuid list \<Rightarrow> StuckJob list" where
  "detect_loop now mg [] = []"
| "detect_loop now mg (job_id # ids) =
     (case get_context job_id mg of
        Inr ctx \<Rightarrow> if jc_state ctx = Stuck then stuck_job now job_id ctx # detect_loop now mg ids
                   else detect_loop now mg ids
      | Inl _ \<Rightarrow> detect_loop now mg ids)"

definition detect_stuck_jobs :: "datetime \<Rightarrow> 'd ContextManager \<Rightarrow> StuckJob list" where
  "detect_stuck_jobs now mg = detect_loop now mg (find_stuck_jobs mg)"

definition repair_stuck_job ::
    "(uuid \<Rightarrow> string) \<Rightarrow> (duration \<Rightarrow> string) \<Rightarrow> u32 \<Rightarrow> datetime \<Rightarrow> StuckJob \<Rightarrow> 'd ContextManager \<Rightarrow>
       (RepairError + RepairResult) \<times> 'd ContextManager" where
  "repair_stuck_job us fd max_repair_attempts now job mg =
     (if sj_repair_attempts job \<ge> max_repair_attempts
      then (Inr (ManualRequired (''Job '' @ us (sj_job_id job) @
              '' has exceeded maximum repair attempts ('' @ show_nat (unat max_repair_attempts) @ '')'')), mg)
      else (case update_context (sj_job_id job) (attempt_recovery now) mg of
              (Inr (Inr _), mg') \<Rightarrow>
                (Inr (Success (''Job '' @ us (sj_job_id job) @ '' recovered and will be retried'')), mg')
            | (Inr (Inl e), mg') \<Rightarrow> (Inr (Retry (''Recovery attempt failed: '' @ e)), mg')
            | (Inl e, mg') \<Rightarrow>
                (Inl (RepairErrorFailed ''job'' (sj_job_id job) (job_error_display us fd e)), mg')))"

text \<open>The stuck-job half of one round of \<open>RepairTask::run\<close>.\<close>

definition repair_pass ::
    "(uuid \<Rightarrow> string) \<Rightarrow> (duration \<Rightarrow> string) \<Rightarrow> u32 \<Rightarrow> datetime \<Rightarrow> (uuid \<Rightarrow> datetime) \<Rightarrow> 'd ContextManager \<Rightarrow> 'd ContextManager" where
  "repair_pass us fd max_repair_attempts now clock mg =
     fold (\<lambda>job mg. snd (repair_stuck_job us fd max_repair_attempts (clock (sj_job_id job)) job mg))
       (detect_stuck_jobs now mg) mg"

subsection \<open>Detection\<close>

lemma sj_job_id_stuck_job [simp]: "sj_job_id (stuck_job now i c) = i"
  by (simp add: stuck_job_def)

lemma get_context_lookup: "get_context i mg = Inr c \<longleftrightarrow> map_of (mg_contexts mg) i = Some c"
  by (simp add: get_context_def split: option.splits)

lemma get_context_miss: "map_of (mg_contexts mg) i = None \<Longrightarrow> get_context i mg = Inl (NotFound i)"
  by (simp add: get_context_def)

lemma detect_loop_set:
  "set (detect_loop now mg ids) =
     {stuck_job now i c | i c. i \<in> set ids \<and> map_of (mg_contexts mg) i = Some c \<and> jc_state c = Stuck}"
  by (induction ids) (auto simp: get_context_def split: option.splits)

lemma detect_loop_ids: "distinct ids \<Longrightarrow> distinct (map sj_job_id (detect_loop now mg ids))"
  by (induction ids) (auto simp: stuck_job_def get_context_def detect_loop_set split: option.splits)

lemma distinct_find_stuck: "distinct (keys (mg_contexts mg)) \<Longrightarrow> distinct (find_stuck_jobs mg)"
  by (simp add: find_stuck_jobs_def distinct_map_filter)

lemma find_stuck_jobs_set:
  "distinct (keys (mg_contexts mg)) \<Longrightarrow>
   set (find_stuck_jobs mg) = {i. \<exists>c. map_of (mg_contexts mg) i = Some c \<and> jc_state c = Stuck}"
  by (force simp: find_stuck_jobs_def)

lemma detect_stuck_jobs_set:
  "distinct (keys (mg_contexts mg)) \<Longrightarrow> set (detect_stuck_jobs now mg) =
     {stuck_job now i c | i c. map_of (mg_contexts mg) i = Some c \<and> jc_state c = Stuck}"
  by (auto simp: detect_stuck_jobs_def detect_loop_set find_stuck_jobs_set)

subsection \<open>Repair of one job\<close>

lemma repair_stuck_job_lookup:
  assumes "map_of (mg_contexts mg) i = Some c" and "jc_state c = Stuck"
    and "sj_job_id job = i" and "sj_repair_attempts job = jc_repair_attempts c"
  shows "map_of (mg_contexts (snd (repair_stuck_job us fd m now job mg))) =
    (if jc_repair_attempts c < m
     then (map_of (mg_contexts mg))(i \<mapsto> snd (attempt_recovery now c)) else map_of (mg_contexts mg))"
proof (cases "jc_repair_attempts c < m")
  case True
  obtain mg' where up: "update_context i (attempt_recovery now) mg = (Inr (Inr ()), mg')"
    using manager_store.recover_stuck(1) [OF assms(1,2), of now]
    by (metis prod.collapse)
  have "map_of (mg_contexts mg') = (map_of (mg_contexts mg))(i \<mapsto> snd (attempt_recovery now c))"
    using manager_store.recover_stuck(2) [OF assms(1,2), of now] up by simp
  with True assms(3,4) up show ?thesis
    by (simp add: repair_stuck_job_def not_le [symmetric])
next
  case False
  then show ?thesis using assms(4) by (auto simp: repair_stuck_job_def not_less)
qed

text \<open>
  Also: Repairing a job that is stuck succeeds exactly while its recorded attempts are below
  the maximum: the job is in progress again with one more attempt and a consistent history, and no
  other job changes. At the maximum the manager is left untouched and manual help is requested. A
  job that left the stuck state since its detection, or is gone, is never changed.
\<close>

theorem repair_stuck_job_spec:
  assumes ids: "sj_job_id job = i"
  shows "(sj_repair_attempts job \<ge> m \<longrightarrow>
        (\<exists>msg. repair_stuck_job us fd m now job mg = (Inr (ManualRequired msg), mg))) \<and>
    (sj_repair_attempts job < m \<longrightarrow> get_context i mg = Inr c \<longrightarrow> jc_state c = Stuck \<longrightarrow>
       (\<exists>msg mg' c'. repair_stuck_job us fd m now job mg = (Inr (Success msg), mg') \<and>
          get_context i mg' = Inr c' \<and> jc_state c' = InProgress \<and>
          jc_repair_attempts c' = jc_repair_attempts c + 1 \<and>
          (job_inv c \<longrightarrow> job_inv c') \<and>
          (\<forall>j. j \<noteq> i \<longrightarrow> get_context j mg' = get_context j mg))) \<and>
    (get_context i mg = Inr c \<longrightarrow> jc_state c \<noteq> Stuck \<longrightarrow>
       get_context j (snd (repair_stuck_job us fd m now job mg)) = get_context j mg) \<and>
    (sj_repair_attempts job < m \<longrightarrow> get_context i mg = Inl (NotFound i) \<longrightarrow>
       repair_stuck_job us fd m now job mg =
         (Inl (RepairErrorFailed ''job'' i (''Job '' @ us i @ '' not found'')), mg))"
proof (intro conjI impI)
  show "\<exists>msg. repair_stuck_job us fd m now job mg = (Inr (ManualRequired msg), mg)"
    if "sj_repair_attempts job \<ge> m"
    using that by (auto simp: repair_stuck_job_def)
next
  assume below: "sj_repair_attempts job < m" and got: "get_context i mg = Inr c"
    and stuck: "jc_state c = Stuck"
  have hit: "map_of (mg_contexts mg) i = Some c" using got by (simp add: get_context_lookup)
  obtain mg' where up: "update_context i (attempt_recovery now) mg = (Inr (Inr ()), mg')"
    using manager_store.recover_stuck(1) [OF hit stuck, of now] by (metis prod.collapse)
  have look: "map_of (mg_contexts mg') = (map_of (mg_contexts mg))(i \<mapsto> snd (attempt_recovery now c))"
    using manager_store.recover_stuck(2) [OF hit stuck, of now] up by simp
  have "repair_stuck_job us fd m now job mg =
      (Inr (Success (''Job '' @ us i @ '' recovered and will be retried'')), mg')"
    using below up by (simp add: repair_stuck_job_def ids linorder_not_le)
  moreover have "get_context i mg' = Inr (snd (attempt_recovery now c))"
    by (simp add: get_context_lookup look)
  moreover have "\<forall>j. j \<noteq> i \<longrightarrow> get_context j mg' = get_context j mg"
    by (simp add: get_context_def look)
  ultimately show "\<exists>msg mg' c'. repair_stuck_job us fd m now job mg = (Inr (Success msg), mg') \<and>
          get_context i mg' = Inr c' \<and> jc_state c' = InProgress \<and>
          jc_repair_attempts c' = jc_repair_attempts c + 1 \<and>
          (job_inv c \<longrightarrow> job_inv c') \<and>
          (\<forall>j. j \<noteq> i \<longrightarrow> get_context j mg' = get_context j mg)"
    using attempt_recovery_stuck [OF stuck, of now] by (auto intro: job_inv_attempt_recovery)
next
  assume got: "get_context i mg = Inr c" and other: "jc_state c \<noteq> Stuck"
  then have hit: "map_of (mg_contexts mg) i = Some c" by (simp add: get_context_lookup)
  have "map_of (mg_contexts (snd (repair_stuck_job us fd m now job mg))) = map_of (mg_contexts mg)"
    using manager_store.recover_not_stuck [OF hit other, of now]
    by (auto simp: repair_stuck_job_def ids split: prod.splits sum.splits)
  then show "get_context j (snd (repair_stuck_job us fd m now job mg)) = get_context j mg"
    by (simp add: get_context_def)
next
  assume "sj_repair_attempts job < m" and "get_context i mg = Inl (NotFound i)"
  then show "repair_stuck_job us fd m now job mg =
         (Inl (RepairErrorFailed ''job'' i (''Job '' @ us i @ '' not found'')), mg)"
    by (auto simp: repair_stuck_job_def ids update_context_def get_context_def linorder_not_le
        split: option.splits)
qed

definition demo_stuck :: "int ContextManager" where
  "demo_stuck = \<lparr>mg_contexts = [(1, demo_job\<lparr>jc_state := Stuck\<rparr>)], mg_memories = [], mg_max_jobs = 3\<rparr>"

theorem repair_stuck_job_spec_witness:
  "\<exists>msg mg' c'. repair_stuck_job show_nat show_nat 3 9 (stuck_job 8 1 (demo_job\<lparr>jc_state := Stuck\<rparr>)) demo_stuck =
      (Inr (Success msg), mg') \<and> get_context 1 mg' = Inr c' \<and> jc_state c' = InProgress"
proof -
  let ?c = "demo_job\<lparr>jc_state := Stuck\<rparr>"
  have "sj_job_id (stuck_job 8 1 ?c) = 1" "sj_repair_attempts (stuck_job 8 1 ?c) < 3"
    "get_context 1 demo_stuck = Inr ?c" "jc_state ?c = Stuck"
    by (simp_all add: stuck_job_def demo_stuck_def get_context_def demo_job_def transition_to_def
        job_with_user_def push_transition_def Let_def)
  then show ?thesis
    using repair_stuck_job_spec [of "stuck_job 8 1 ?c" 1 3 show_nat show_nat 9 demo_stuck ?c] by blast
qed

subsection \<open>One round of repairs\<close>

lemma repair_fold_lookup:
  assumes "\<And>job. job \<in> set jobs \<Longrightarrow> \<exists>c. map_of (mg_contexts mg) (sj_job_id job) = Some c \<and>
      jc_state c = Stuck \<and> sj_repair_attempts job = jc_repair_attempts c"
    and "distinct (map sj_job_id jobs)"
  shows "map_of (mg_contexts (fold (\<lambda>job mg. snd (repair_stuck_job us fd m (clock (sj_job_id job)) job mg))
           jobs mg)) i =
    (case map_of (mg_contexts mg) i of
       None \<Rightarrow> None
     | Some c \<Rightarrow> Some (if i \<in> sj_job_id ` set jobs \<and> jc_repair_attempts c < m
                       then snd (attempt_recovery (clock i) c) else c))"
  using assms
proof (induction jobs arbitrary: mg)
  case Nil
  then show ?case by (simp split: option.splits)
next
  case (Cons job jobs)
  let ?j = "sj_job_id job"
  obtain c where c: "map_of (mg_contexts mg) ?j = Some c" "jc_state c = Stuck"
      "sj_repair_attempts job = jc_repair_attempts c"
    using Cons.prems(1) [of job] by auto
  let ?mg = "snd (repair_stuck_job us fd m (clock ?j) job mg)"
  have look: "map_of (mg_contexts ?mg) = (if jc_repair_attempts c < m
       then (map_of (mg_contexts mg))(?j \<mapsto> snd (attempt_recovery (clock ?j) c)) else map_of (mg_contexts mg))"
    using c by (intro repair_stuck_job_lookup) auto
  have other: "?j \<noteq> sj_job_id job'" if "job' \<in> set jobs" for job'
    using Cons.prems(2) that by (auto simp: image_iff)
  have "map_of (mg_contexts (fold (\<lambda>job mg. snd (repair_stuck_job us fd m (clock (sj_job_id job)) job mg))
         jobs ?mg)) i = (case map_of (mg_contexts ?mg) i of None \<Rightarrow> None
     | Some c \<Rightarrow> Some (if i \<in> sj_job_id ` set jobs \<and> jc_repair_attempts c < m
                       then snd (attempt_recovery (clock i) c) else c))"
  proof (rule Cons.IH)
    fix job' assume mem: "job' \<in> set jobs"
    then have "map_of (mg_contexts ?mg) (sj_job_id job') = map_of (mg_contexts mg) (sj_job_id job')"
      using other [OF mem] by (simp add: look)
    then show "\<exists>c. map_of (mg_contexts ?mg) (sj_job_id job') = Some c \<and>
        jc_state c = Stuck \<and> sj_repair_attempts job' = jc_repair_attempts c"
      using Cons.prems(1) [of job'] mem by simp
  qed (use Cons.prems(2) in simp)
  then show ?case
    using c Cons.prems(2) by (auto simp: look split: option.splits)
qed

text \<open>
  Also: One round over a manager with unique ids recovers every stuck job that still has
  repair attempts left and changes nothing else, whichever order the jobs are visited in.
\<close>

theorem repair_pass_spec:
  assumes "distinct (all_jobs mg)"
  shows "get_context i (repair_pass us fd m now clock mg) =
    (case get_context i mg of
       Inl e \<Rightarrow> Inl e
     | Inr c \<Rightarrow> Inr (if jc_state c = Stuck \<and> jc_repair_attempts c < m
                     then snd (attempt_recovery (clock i) c) else c))"
proof -
  have dist: "distinct (keys (mg_contexts mg))" using assms by (simp add: all_jobs_def)
  let ?jobs = "detect_stuck_jobs now mg"
  have "map_of (mg_contexts (repair_pass us fd m now clock mg)) i =
    (case map_of (mg_contexts mg) i of None \<Rightarrow> None
     | Some c \<Rightarrow> Some (if i \<in> sj_job_id ` set ?jobs \<and> jc_repair_attempts c < m
                       then snd (attempt_recovery (clock i) c) else c))"
    unfolding repair_pass_def
  proof (rule repair_fold_lookup)
    show "distinct (map sj_job_id ?jobs)"
      unfolding detect_stuck_jobs_def by (intro detect_loop_ids distinct_find_stuck dist)
  qed (auto simp: detect_stuck_jobs_set [OF dist] stuck_job_def)
  moreover have "i \<in> sj_job_id ` set ?jobs \<longleftrightarrow>
      (\<exists>c. map_of (mg_contexts mg) i = Some c \<and> jc_state c = Stuck)"
    unfolding detect_stuck_jobs_set [OF dist] using sj_job_id_stuck_job by (force simp: image_iff)
  ultimately show ?thesis by (auto simp: get_context_def split: option.splits)
qed

theorem repair_pass_spec_witness:
  "\<exists>c. get_context 1 (repair_pass show_nat show_nat 3 8 (\<lambda>_. 9) demo_stuck) = Inr c \<and> jc_state c = InProgress"
proof -
  have "distinct (all_jobs demo_stuck)" "get_context 1 demo_stuck = Inr (demo_job\<lparr>jc_state := Stuck\<rparr>)"
    "jc_repair_attempts demo_job < 3"
    by (simp_all add: all_jobs_def demo_stuck_def get_context_def demo_job_def transition_to_def
        job_with_user_def push_transition_def Let_def)
  then show ?thesis
    using repair_pass_spec [of demo_stuck 1 show_nat show_nat 3 8 "\<lambda>_. 9"] by (simp add: attempt_recovery_state)
qed

end
