(* ===== verification/Session.thy ===== *)
theory Session
  imports Chat
begin

text \<open>
  Sessions, threads and turns: \<^verbatim>\<open>src/agent/session.rs\<close>. A session owns threads, a thread owns turns, and
  \<open>messages\<close> renders a thread as the transcript a language model sees. The lemmas show that turns are
  always numbered by their position, that a transcript is well formed for a provider, and that
  restoring a thread from its own transcript gives a thread with the same transcript.

  Identifiers and the clock are arguments: one call reads the clock once. The text of a JSON value
  that is not a string (\<open>serde_json\<close>) is the parameter \<open>ts\<close>.
\<close>

subsection \<open>Turns\<close>

datatype TurnState = TurnProcessing | TurnCompleted | TurnFailed | TurnInterrupted

record TurnToolCall =
  tt_name :: string
  tt_parameters :: json
  tt_result :: "json option"
  tt_error :: "string option"

record Turn =
  tu_turn_number :: nat
  tu_user_input :: string
  tu_response :: "string option"
  tu_tool_calls :: "TurnToolCall list"
  tu_state :: TurnState
  tu_started_at :: datetime
  tu_completed_at :: "datetime option"
  tu_error :: "string option"
  tu_image_content_parts :: "ContentPart list"

definition turn_new :: "datetime \<Rightarrow> nat \<Rightarrow> string \<Rightarrow> Turn" where
  "turn_new now n input =
     \<lparr>tu_turn_number = n, tu_user_input = input, tu_response = None, tu_tool_calls = [],
      tu_state = TurnProcessing, tu_started_at = now, tu_completed_at = None, tu_error = None,
      tu_image_content_parts = []\<rparr>"

definition turn_complete :: "datetime \<Rightarrow> string \<Rightarrow> Turn \<Rightarrow> Turn" where
  "turn_complete now response t =
     t\<lparr>tu_response := Some response, tu_state := TurnCompleted, tu_completed_at := Some now,
       tu_image_content_parts := []\<rparr>"

definition turn_fail :: "datetime \<Rightarrow> string \<Rightarrow> Turn \<Rightarrow> Turn" where
  "turn_fail now err t =
     t\<lparr>tu_error := Some err, tu_state := TurnFailed, tu_completed_at := Some now,
       tu_image_content_parts := []\<rparr>"

definition turn_interrupt :: "datetime \<Rightarrow> Turn \<Rightarrow> Turn" where
  "turn_interrupt now t =
     t\<lparr>tu_state := TurnInterrupted, tu_completed_at := Some now, tu_image_content_parts := []\<rparr>"

definition record_tool_call :: "string \<Rightarrow> json \<Rightarrow> Turn \<Rightarrow> Turn" where
  "record_tool_call name params t =
     t\<lparr>tu_tool_calls := tu_tool_calls t @
         [\<lparr>tt_name = name, tt_parameters = params, tt_result = None, tt_error = None\<rparr>]\<rparr>"

text \<open>An update through \<open>last_mut\<close>: of the last element, if there is one.\<close>

definition map_last :: "('a \<Rightarrow> 'a) \<Rightarrow> 'a list \<Rightarrow> 'a list" where
  "map_last f xs = (if xs = [] then [] else butlast xs @ [f (last xs)])"

definition record_tool_result :: "json \<Rightarrow> Turn \<Rightarrow> Turn" where
  "record_tool_result r t = t\<lparr>tu_tool_calls := map_last (\<lambda>c. c\<lparr>tt_result := Some r\<rparr>) (tu_tool_calls t)\<rparr>"

definition record_tool_error :: "string \<Rightarrow> Turn \<Rightarrow> Turn" where
  "record_tool_error e t = t\<lparr>tu_tool_calls := map_last (\<lambda>c. c\<lparr>tt_error := Some e\<rparr>) (tu_tool_calls t)\<rparr>"

subsection \<open>Threads\<close>

datatype ThreadState =
  ThreadIdle | ThreadProcessing | ThreadAwaitingApproval | ThreadCompleted | ThreadInterrupted

record PendingAuth =
  pu_extension_name :: string

record PendingApproval =
  pa_request_id :: uuid
  pa_tool_name :: string
  pa_parameters :: json
  pa_display_parameters :: json
  pa_description :: string
  pa_tool_call_id :: string
  pa_context_messages :: "ChatMessage list"
  pa_deferred_tool_calls :: "ToolCall list"
  pa_user_timezone :: "string option"

record Thread =
  th_id :: uuid
  th_session_id :: uuid
  th_state :: ThreadState
  th_turns :: "Turn list"
  th_created_at :: datetime
  th_updated_at :: datetime
  th_metadata :: json
  th_pending_approval :: "PendingApproval option"
  th_pending_auth :: "PendingAuth option"

definition thread_with_id :: "datetime \<Rightarrow> uuid \<Rightarrow> uuid \<Rightarrow> Thread" where
  "thread_with_id now i session_id =
     \<lparr>th_id = i, th_session_id = session_id, th_state = ThreadIdle, th_turns = [],
      th_created_at = now, th_updated_at = now, th_metadata = JNull,
      th_pending_approval = None, th_pending_auth = None\<rparr>"

definition thread_new :: "uuid \<Rightarrow> datetime \<Rightarrow> uuid \<Rightarrow> Thread" where
  "thread_new new_id now session_id =
     \<lparr>th_id = new_id, th_session_id = session_id, th_state = ThreadIdle, th_turns = [],
      th_created_at = now, th_updated_at = now, th_metadata = JNull,
      th_pending_approval = None, th_pending_auth = None\<rparr>"

definition turn_number :: "Thread \<Rightarrow> nat" where
  "turn_number th = length (th_turns th) + 1"

definition last_turn :: "Thread \<Rightarrow> Turn option" where
  "last_turn th = (if th_turns th = [] then None else Some (last (th_turns th)))"

definition start_turn :: "datetime \<Rightarrow> string \<Rightarrow> Thread \<Rightarrow> Thread" where
  "start_turn now input th =
     th\<lparr>th_turns := th_turns th @ [turn_new now (length (th_turns th)) input],
        th_state := ThreadProcessing, th_updated_at := now\<rparr>"

definition update_last_turn :: "(Turn \<Rightarrow> Turn) \<Rightarrow> Thread \<Rightarrow> Thread" where
  "update_last_turn f th = th\<lparr>th_turns := map_last f (th_turns th)\<rparr>"

definition complete_turn :: "datetime \<Rightarrow> string \<Rightarrow> Thread \<Rightarrow> Thread" where
  "complete_turn now response th =
     (update_last_turn (turn_complete now response) th)\<lparr>th_state := ThreadIdle, th_updated_at := now\<rparr>"

definition fail_turn :: "datetime \<Rightarrow> string \<Rightarrow> Thread \<Rightarrow> Thread" where
  "fail_turn now err th =
     (update_last_turn (turn_fail now err) th)\<lparr>th_state := ThreadIdle, th_updated_at := now\<rparr>"

definition await_approval :: "datetime \<Rightarrow> PendingApproval \<Rightarrow> Thread \<Rightarrow> Thread" where
  "await_approval now pending th =
     th\<lparr>th_state := ThreadAwaitingApproval, th_pending_approval := Some pending, th_updated_at := now\<rparr>"

definition take_pending_approval :: "Thread \<Rightarrow> PendingApproval option \<times> Thread" where
  "take_pending_approval th = (th_pending_approval th, th\<lparr>th_pending_approval := None\<rparr>)"

definition clear_pending_approval :: "datetime \<Rightarrow> Thread \<Rightarrow> Thread" where
  "clear_pending_approval now th =
     th\<lparr>th_pending_approval := None, th_state := ThreadIdle, th_updated_at := now\<rparr>"

definition enter_auth_mode :: "datetime \<Rightarrow> string \<Rightarrow> Thread \<Rightarrow> Thread" where
  "enter_auth_mode now ext th =
     th\<lparr>th_pending_auth := Some \<lparr>pu_extension_name = ext\<rparr>, th_updated_at := now\<rparr>"

definition take_pending_auth :: "Thread \<Rightarrow> PendingAuth option \<times> Thread" where
  "take_pending_auth th = (th_pending_auth th, th\<lparr>th_pending_auth := None\<rparr>)"

definition thread_interrupt :: "datetime \<Rightarrow> Thread \<Rightarrow> Thread" where
  "thread_interrupt now th =
     (update_last_turn (turn_interrupt now) th)\<lparr>th_state := ThreadInterrupted, th_updated_at := now\<rparr>"

definition thread_resume :: "datetime \<Rightarrow> Thread \<Rightarrow> Thread" where
  "thread_resume now th =
     (if th_state th = ThreadInterrupted then th\<lparr>th_state := ThreadIdle, th_updated_at := now\<rparr> else th)"

definition renumber :: "Turn list \<Rightarrow> Turn list" where
  "renumber ts = map (\<lambda>(i, t). t\<lparr>tu_turn_number := i\<rparr>) (enumerate 0 ts)"

definition truncate_turns :: "nat \<Rightarrow> Thread \<Rightarrow> Thread" where
  "truncate_turns keep th =
     (if length (th_turns th) > keep
      then th\<lparr>th_turns := renumber (drop (length (th_turns th) - keep) (th_turns th))\<rparr>
      else th)"

subsection \<open>The transcript of a thread\<close>

text \<open>\<open>format!("turn{}_{}", turn.turn_number, i)\<close>\<close>

definition call_id :: "nat \<Rightarrow> nat \<Rightarrow> string" where
  "call_id n i = ''turn'' @ show_nat n @ ''_'' @ show_nat i"

definition result_content :: "(json \<Rightarrow> string) \<Rightarrow> TurnToolCall \<Rightarrow> string" where
  "result_content ts tc =
     (case tt_error tc of
        Some err \<Rightarrow> truncate_preview err 1000
      | None \<Rightarrow> (case tt_result tc of
            Some res \<Rightarrow>
              (let raw = (case res of JString s \<Rightarrow> s | other \<Rightarrow> ts other) in truncate_preview raw 1000)
          | None \<Rightarrow> ''OK''))"

definition turn_messages :: "(json \<Rightarrow> string) \<Rightarrow> Turn \<Rightarrow> ChatMessage list" where
  "turn_messages ts t =
     (if tu_image_content_parts t = [] then cm_user (tu_user_input t)
      else cm_user_with_parts (tu_user_input t) (tu_image_content_parts t)) #
     (if tu_tool_calls t \<noteq> []
      then cm_assistant_with_tool_calls None
             (map (\<lambda>(i, tc). \<lparr>tc_id = call_id (tu_turn_number t) i, tc_name = tt_name tc,
                              tc_arguments = tt_parameters tc\<rparr>) (enumerate 0 (tu_tool_calls t))) #
           map (\<lambda>(i, tc). cm_tool_result (call_id (tu_turn_number t) i) (tt_name tc)
                             (result_content ts tc)) (enumerate 0 (tu_tool_calls t))
      else []) @
     (case tu_response t of Some r \<Rightarrow> [cm_assistant r] | None \<Rightarrow> [])"

definition messages :: "(json \<Rightarrow> string) \<Rightarrow> Thread \<Rightarrow> ChatMessage list" where
  "messages ts th = concat (map (turn_messages ts) (th_turns th))"

subsection \<open>Restoring a thread from a transcript\<close>

text \<open>The loop over the tool results of one batch of calls.\<close>

fun consume_results :: "nat \<Rightarrow> nat \<Rightarrow> ChatMessage list \<Rightarrow> Turn \<Rightarrow> Turn \<times> ChatMessage list" where
  "consume_results base pos [] t = (t, [])"
| "consume_results base pos (m # ms) t =
     (if cm_role m \<noteq> Tool then (t, m # ms)
      else let idx = base + pos;
               t = (if idx < length (tu_tool_calls t)
                    then t\<lparr>tu_tool_calls := (tu_tool_calls t)
                             [idx := (tu_tool_calls t ! idx)\<lparr>tt_result := Some (JString (cm_content m))\<rparr>]\<rparr>
                    else t)
           in consume_results base (pos + 1) ms t)"

lemma consume_results_length: "length (snd (consume_results base pos ms t)) \<le> length ms"
  by (induction base pos ms t rule: consume_results.induct) (auto simp: Let_def le_SucI)

text \<open>The loop over the batches of one turn.\<close>

function consume_rounds :: "ChatMessage list \<Rightarrow> Turn \<Rightarrow> Turn \<times> ChatMessage list" where
  "consume_rounds [] t = (t, [])"
| "consume_rounds (m # ms) t =
     (case cm_tool_calls m of
        Some tcs \<Rightarrow>
          if cm_role m = Assistant
          then let base = length (tu_tool_calls t);
                   t = fold (\<lambda>tc. record_tool_call (tc_name tc) (tc_arguments tc)) tcs t;
                   r = consume_results base 0 ms t
               in consume_rounds (snd r) (fst r)
          else (t, m # ms)
      | None \<Rightarrow> (t, m # ms))"
  by pat_completeness auto
termination
  by (relation "measure (\<lambda>(ms, t). length ms)")
     (auto simp: less_Suc_eq_le intro: consume_results_length)

definition take_response :: "datetime \<Rightarrow> Turn \<times> ChatMessage list \<Rightarrow> Turn \<times> ChatMessage list" where
  "take_response now r =
     (case snd r of
        m # ms \<Rightarrow> if cm_role m = Assistant \<and> cm_tool_calls m = None
                  then (turn_complete now (cm_content m) (fst r), ms) else r
      | [] \<Rightarrow> r)"

lemma consume_rounds_length: "length (snd (consume_rounds ms t)) \<le> length ms"
proof (induction ms arbitrary: t rule: length_induct)
  case (1 ms)
  have "length (snd (consume_rounds (snd (consume_results b 0 ms' t')) t'')) \<le> Suc (length ms')"
    if "ms = m # ms'" for m ms' b t' t''
  proof -
    have le: "length (snd (consume_results b 0 ms' t')) \<le> length ms'"
      by (rule consume_results_length)
    then have "length (snd (consume_rounds (snd (consume_results b 0 ms' t')) t''))
        \<le> length (snd (consume_results b 0 ms' t'))"
      using "1.IH" that by (simp add: less_Suc_eq_le)
    with le show ?thesis by linarith
  qed
  then show ?case by (cases ms) (auto simp: Let_def split: option.splits)
qed

lemma take_response_length: "length (snd (take_response now r)) \<le> length (snd r)"
  by (auto simp: take_response_def split: list.splits)

lemma restore_turn_length: "length (snd (take_response now (consume_rounds ms t))) < Suc (length ms)"
  using order_trans [OF take_response_length consume_rounds_length] by (simp add: less_Suc_eq_le)

function restore_loop :: "datetime \<Rightarrow> nat \<Rightarrow> ChatMessage list \<Rightarrow> Turn list" where
  "restore_loop now n [] = []"
| "restore_loop now n (m # ms) =
     (if cm_role m = User
      then let r = take_response now (consume_rounds ms (turn_new now n (cm_content m)))
           in fst r # restore_loop now (n + 1) (snd r)
      else restore_loop now n ms)"
  by pat_completeness auto
termination
  by (relation "measure (\<lambda>(now, n, ms). length ms)") (auto simp: restore_turn_length)

definition restore_from_messages :: "datetime \<Rightarrow> ChatMessage list \<Rightarrow> Thread \<Rightarrow> Thread" where
  "restore_from_messages now ms th =
     th\<lparr>th_turns := restore_loop now 0 ms, th_state := ThreadIdle, th_updated_at := now\<rparr>"


subsection \<open>Sessions\<close>

record Session =
  se_id :: uuid
  se_user_id :: string
  se_active_thread :: "uuid option"
  se_threads :: "(uuid \<times> Thread) list"
  se_created_at :: datetime
  se_last_active_at :: datetime
  se_metadata :: json
  se_auto_approved_tools :: "string set"

definition session_new :: "uuid \<Rightarrow> datetime \<Rightarrow> string \<Rightarrow> Session" where
  "session_new new_id now user =
     \<lparr>se_id = new_id, se_user_id = user, se_active_thread = None, se_threads = [],
      se_created_at = now, se_last_active_at = now, se_metadata = JNull,
      se_auto_approved_tools = {}\<rparr>"

definition is_tool_auto_approved :: "Session \<Rightarrow> string \<Rightarrow> bool" where
  "is_tool_auto_approved s tool = (tool \<in> se_auto_approved_tools s)"

definition auto_approve_tool :: "string \<Rightarrow> Session \<Rightarrow> Session" where
  "auto_approve_tool tool s = s\<lparr>se_auto_approved_tools := insert tool (se_auto_approved_tools s)\<rparr>"

text \<open>A reference to a thread is its id: \<open>create_thread\<close> and \<open>get_or_create_thread\<close> return it.\<close>

definition create_thread :: "uuid \<Rightarrow> datetime \<Rightarrow> Session \<Rightarrow> uuid \<times> Session" where
  "create_thread new_id now s =
     (let thread = thread_new new_id now (se_id s);
          thread_id = th_id thread
      in (thread_id,
          s\<lparr>se_active_thread := Some thread_id, se_last_active_at := now,
            se_threads := (case map_of (se_threads s) thread_id of
                Some _ \<Rightarrow> se_threads s
              | None \<Rightarrow> AList.update thread_id thread (se_threads s))\<rparr>))"

definition active_thread :: "Session \<Rightarrow> Thread option" where
  "active_thread s = Option.bind (se_active_thread s) (map_of (se_threads s))"

definition update_thread :: "uuid \<Rightarrow> (Thread \<Rightarrow> Thread) \<Rightarrow> Session \<Rightarrow> Session" where
  "update_thread i f s =
     (case map_of (se_threads s) i of
        Some th \<Rightarrow> s\<lparr>se_threads := AList.update i (f th) (se_threads s)\<rparr>
      | None \<Rightarrow> s)"

definition get_or_create_thread :: "uuid \<Rightarrow> datetime \<Rightarrow> Session \<Rightarrow> uuid \<times> Session" where
  "get_or_create_thread new_id now s =
     (case se_active_thread s of
        None \<Rightarrow> create_thread new_id now s
      | Some i \<Rightarrow> if i \<in> set (keys (se_threads s)) then (i, s) else create_thread new_id now s)"

definition switch_thread :: "uuid \<Rightarrow> datetime \<Rightarrow> Session \<Rightarrow> bool \<times> Session" where
  "switch_thread i now s =
     (if i \<in> set (keys (se_threads s))
      then (True, s\<lparr>se_active_thread := Some i, se_last_active_at := now\<rparr>)
      else (False, s))"

subsection \<open>Steps of a thread\<close>

text \<open>One step of a thread: any mutating method of the thread or of its last turn.\<close>

inductive thread_step :: "Thread \<Rightarrow> Thread \<Rightarrow> bool" where
  start: "thread_step th (start_turn now input th)"
| images: "thread_step th (update_last_turn (\<lambda>t. t\<lparr>tu_image_content_parts := parts\<rparr>) th)"
| tool_call: "thread_step th (update_last_turn (record_tool_call n ps) th)"
| tool_result: "thread_step th (update_last_turn (record_tool_result r) th)"
| tool_error: "thread_step th (update_last_turn (record_tool_error e) th)"
| finish: "thread_step th (complete_turn now response th)"
| failed: "thread_step th (fail_turn now e th)"
| await: "thread_step th (await_approval now pending th)"
| take_approval: "thread_step th (snd (take_pending_approval th))"
| clear_approval: "thread_step th (clear_pending_approval now th)"
| auth: "thread_step th (enter_auth_mode now ext th)"
| take_auth: "thread_step th (snd (take_pending_auth th))"
| interrupted: "thread_step th (thread_interrupt now th)"
| resumed: "thread_step th (thread_resume now th)"
| truncated: "thread_step th (truncate_turns keep th)"
| restored: "thread_step th (restore_from_messages now ms th)"

lemma thread_steps_snoc: "thread_step\<^sup>*\<^sup>* a b \<Longrightarrow> thread_step b c \<Longrightarrow> thread_step\<^sup>*\<^sup>* a c"
  by (rule rtranclp.rtrancl_into_rtrancl)

abbreviation turns_numbered :: "Turn list \<Rightarrow> bool" where
  "turns_numbered ts \<equiv> map tu_turn_number ts = [0..<length ts]"

subsection \<open>Turns are numbered by position\<close>

lemma length_map_last [simp]: "length (map_last f xs) = length xs"
  by (simp add: map_last_def)

lemma map_map_last: "(\<And>x. g (f x) = g x) \<Longrightarrow> map g (map_last f xs) = map g xs"
  by (cases xs rule: rev_cases) (auto simp: map_last_def)

lemma turn_number_kept [simp]:
  "tu_turn_number (turn_new now n input) = n"
  "tu_turn_number (turn_complete now r t) = tu_turn_number t"
  "tu_turn_number (turn_fail now e t) = tu_turn_number t"
  "tu_turn_number (turn_interrupt now t) = tu_turn_number t"
  "tu_turn_number (record_tool_call nm ps t) = tu_turn_number t"
  "tu_turn_number (record_tool_result res t) = tu_turn_number t"
  "tu_turn_number (record_tool_error e t) = tu_turn_number t"
  by (simp_all add: turn_new_def turn_complete_def turn_fail_def turn_interrupt_def
      record_tool_call_def record_tool_result_def record_tool_error_def)

lemma turns_update_last_turn [simp]: "th_turns (update_last_turn f th) = map_last f (th_turns th)"
  by (simp add: update_last_turn_def)

lemma consume_results_number [simp]:
  "tu_turn_number (fst (consume_results base pos ms t)) = tu_turn_number t"
  by (induction base pos ms t rule: consume_results.induct) (auto simp: Let_def)

lemma fold_record_number [simp]:
  "tu_turn_number (fold (\<lambda>tc. record_tool_call (tc_name tc) (tc_arguments tc)) tcs t) = tu_turn_number t"
  by (induction tcs arbitrary: t) simp_all

lemma consume_rounds_number [simp]: "tu_turn_number (fst (consume_rounds ms t)) = tu_turn_number t"
proof (induction ms arbitrary: t rule: length_induct)
  case (1 ms)
  have "tu_turn_number (fst (consume_rounds (snd (consume_results b 0 ms' t')) t'')) = tu_turn_number t''"
    if "ms = m # ms'" for m ms' b t' t''
    using "1.IH" that by (simp add: less_Suc_eq_le consume_results_length)
  then show ?case by (cases ms) (auto simp: Let_def split: option.splits)
qed

lemma take_response_number [simp]: "tu_turn_number (fst (take_response now r)) = tu_turn_number (fst r)"
  by (auto simp: take_response_def split: list.splits)

lemma restore_loop_numbers:
  "map tu_turn_number (restore_loop now n ms) = [n..<n + length (restore_loop now n ms)]"
proof (induction now n ms rule: restore_loop.induct)
  case (2 now n m ms)
  then show ?case by (simp add: Let_def upt_conv_Cons del: upt_Suc)
qed simp

lemma renumber_numbers: "map tu_turn_number (renumber ts) = [0..<length ts]"
  by (simp add: renumber_def case_prod_unfold comp_def enumerate_eq_zip)

lemma length_renumber [simp]: "length (renumber ts) = length ts"
  by (simp add: renumber_def)

lemma thread_step_numbered:
  assumes "thread_step th th'" and "turns_numbered (th_turns th)"
  shows "turns_numbered (th_turns th')"
  using assms
proof (induction rule: thread_step.induct)
  case (truncated th keep)
  then show ?case by (simp add: truncate_turns_def renumber_numbers)
next
  case (restored th now ms)
  then show ?case using restore_loop_numbers [of now 0 ms] by (simp add: restore_from_messages_def)
qed (simp_all add: start_turn_def complete_turn_def fail_turn_def thread_interrupt_def thread_resume_def
    await_approval_def take_pending_approval_def clear_pending_approval_def enter_auth_mode_def
    take_pending_auth_def map_map_last)

text \<open>
  Also: Whatever methods are called on a new thread and its last turn, in whatever order
  (truncation for compaction and restoring from any transcript included), the turns stay numbered
  by their position, from zero.
\<close>

theorem thread_turns_numbered:
  assumes "thread_step\<^sup>*\<^sup>* (thread_new i now sid) th"
  shows "\<forall>k < length (th_turns th). tu_turn_number (th_turns th ! k) = k"
proof -
  have "turns_numbered (th_turns th)"
    using assms by (induction rule: rtranclp_induct) (auto simp: thread_new_def thread_step_numbered)
  then show ?thesis by (metis nth_map nth_upt add_0 length_upt diff_zero)
qed

theorem thread_turns_numbered_witness:
  "tu_turn_number
     (th_turns (truncate_turns 1 (start_turn 2 ''b'' (start_turn 1 ''a'' (thread_new 7 0 3)))) ! 0) = 0"
proof -
  have "thread_step\<^sup>*\<^sup>* (thread_new 7 0 3)
      (truncate_turns 1 (start_turn 2 ''b'' (start_turn 1 ''a'' (thread_new 7 0 3))))"
    by (intro thread_steps_snoc [OF _ thread_step.truncated]
        thread_steps_snoc [OF _ thread_step.start] rtranclp.rtrancl_refl)
  from thread_turns_numbered [OF this] show ?thesis
    by (simp add: truncate_turns_def start_turn_def thread_new_def)
qed


subsection \<open>Transcripts are well formed\<close>

lemma call_id_inj [simp]: "call_id n i = call_id n' i' \<longleftrightarrow> n = n' \<and> i = i'"
  using append_sep_inj [OF show_nat_no_underscore show_nat_no_underscore, of n "show_nat i" n' "show_nat i'"]
  by (auto simp: call_id_def)

lemma known_ids_turn:
  "known_ids (turn_messages ts t) = map (call_id (tu_turn_number t)) [0..<length (tu_tool_calls t)]"
proof -
  have results: "known_ids (map (\<lambda>p. cm_tool_result (f (fst p)) (tt_name (snd p)) (h (snd p))) xs) = []"
    for f h and xs :: "(nat \<times> TurnToolCall) list"
    by (induction xs) auto
  have calls: "map (\<lambda>(i, tc). tc_id \<lparr>tc_id = f i, tc_name = tt_name tc, tc_arguments = tt_parameters tc\<rparr>)
      (enumerate 0 cs) = map f [0..<length cs]" for f cs
    by (rule nth_equalityI) (simp_all add: nth_enumerate_eq)
  show ?thesis
    using calls [of "call_id (tu_turn_number t)" "tu_tool_calls t"]
    by (simp add: turn_messages_def known_ids_append results cm_user_def cm_user_with_parts_def cm_assistant_def
        cm_assistant_with_tool_calls_def comp_def case_prod_unfold enumerate_eq_zip split: option.split)
qed

lemma known_ids_messages:
  "known_ids (messages ts th) =
     concat (map (\<lambda>t. map (call_id (tu_turn_number t)) [0..<length (tu_tool_calls t)]) (th_turns th))"
proof -
  have "known_ids (concat (map (turn_messages ts) tus)) =
     concat (map (\<lambda>t. map (call_id (tu_turn_number t)) [0..<length (tu_tool_calls t)]) tus)" for tus
    by (induction tus) (simp_all add: known_ids_append known_ids_turn)
  then show ?thesis by (simp add: messages_def)
qed

lemma turn_messages_tool:
  assumes "m \<in> set (turn_messages ts t)" and "cm_role m = Tool"
  shows "\<exists>i < length (tu_tool_calls t). cm_tool_call_id m = Some (call_id (tu_turn_number t) i)"
  using assms
  by (auto simp: turn_messages_def cm_user_def cm_user_with_parts_def cm_assistant_def
      cm_assistant_with_tool_calls_def cm_tool_result_def in_set_enumerate_eq
      split: if_splits option.splits)

lemma distinct_known_ids:
  assumes "turns_numbered (th_turns th)"
  shows "distinct (known_ids (messages ts th))"
proof -
  have "distinct (map tu_turn_number tus) \<Longrightarrow>
      distinct (concat (map (\<lambda>t. map (call_id (tu_turn_number t)) [0..<length (tu_tool_calls t)]) tus))" for tus
    by (induction tus) (auto simp: distinct_map inj_on_def)
  moreover have "distinct (map tu_turn_number (th_turns th))" using assms by simp
  ultimately show ?thesis unfolding known_ids_messages by blast
qed

text \<open>
  Also: The transcript of every reachable thread is acceptable to a provider as it is: each
  tool result answers a call declared in the transcript, so that \<open>sanitize_tool_messages\<close> changes
  nothing, and no two declared calls share an id.
\<close>

theorem messages_well_formed:
  assumes "thread_step\<^sup>*\<^sup>* (thread_new i now sid) th"
  shows "sanitize_tool_messages (messages ts th) = messages ts th \<and>
    distinct (known_ids (messages ts th))"
proof
  show "sanitize_tool_messages (messages ts th) = messages ts th"
  proof (rule sanitize_id_if_no_orphan)
    fix m assume m: "m \<in> set (messages ts th)" and tool: "cm_role m = Tool"
    then obtain t where t: "t \<in> set (th_turns th)" "m \<in> set (turn_messages ts t)"
      by (auto simp: messages_def)
    from turn_messages_tool [OF t(2) tool] t(1) show "\<not> is_orphaned (known_ids (messages ts th)) m"
      by (force simp: is_orphaned_def known_ids_messages)
  qed
  have "turns_numbered (th_turns th)"
    using assms by (induction rule: rtranclp_induct) (auto simp: thread_new_def thread_step_numbered)
  then show "distinct (known_ids (messages ts th))" by (rule distinct_known_ids)
qed

definition demo_thread :: Thread where
  "demo_thread = update_last_turn (record_tool_result (JString ''file.txt''))
     (update_last_turn (record_tool_call ''shell'' JNull) (start_turn 1 ''list'' (thread_new 7 0 3)))"

lemma demo_thread_reachable: "thread_step\<^sup>*\<^sup>* (thread_new 7 0 3) demo_thread"
  unfolding demo_thread_def
  by (intro thread_steps_snoc [OF _ thread_step.tool_result]
      thread_steps_snoc [OF _ thread_step.tool_call]
      thread_steps_snoc [OF _ thread_step.start] rtranclp.rtrancl_refl)

lemma demo_thread_messages:
  "messages ts demo_thread =
     [cm_user ''list'',
      cm_assistant_with_tool_calls None
        [\<lparr>tc_id = call_id 0 0, tc_name = ''shell'', tc_arguments = JNull\<rparr>],
      cm_tool_result (call_id 0 0) ''shell'' ''file.txt'']"
  by (simp add: demo_thread_def messages_def turn_messages_def update_last_turn_def map_last_def
      record_tool_result_def record_tool_call_def start_turn_def thread_new_def turn_new_def
      result_content_def truncate_preview_def)

theorem messages_well_formed_witness:
  "sanitize_tool_messages (messages (\<lambda>_. []) demo_thread) = messages (\<lambda>_. []) demo_thread \<and>
   known_ids (messages (\<lambda>_. []) demo_thread) = [call_id 0 0] \<and>
   distinct (known_ids (messages (\<lambda>_. []) demo_thread))"
  using messages_well_formed [OF demo_thread_reachable, of "\<lambda>_. []"]
  by (simp add: demo_thread_messages cm_defs)

subsection \<open>Restoring a thread from its transcript\<close>

text \<open>The text of a tool call's outcome before it is shortened.\<close>

definition result_raw :: "(json \<Rightarrow> string) \<Rightarrow> TurnToolCall \<Rightarrow> string" where
  "result_raw ts tc =
     (case tt_error tc of Some err \<Rightarrow> err
      | None \<Rightarrow> (case tt_result tc of Some (JString s) \<Rightarrow> s | Some other \<Rightarrow> ts other | None \<Rightarrow> ''OK''))"

definition cut_clean :: "string \<Rightarrow> bool" where
  "cut_clean s = (length s \<le> 1000 \<or> is_char_boundary s 1000)"

lemma result_content_raw: "result_content ts tc = truncate_preview (result_raw ts tc) 1000"
  by (auto simp: result_content_def result_raw_def truncate_preview_def Let_def
      split: option.splits json.splits)

lemma prefix_iff_take: "prefix p xs \<longleftrightarrow> take (length p) xs = p"
  by (metis append_eq_conv_conj prefixE take_is_prefix)

lemma cut_clean_stable:
  assumes "cut_clean s" shows "truncate_preview (truncate_preview s 1000) 1000 = truncate_preview s 1000"
proof (cases "length s \<le> 1000")
  case True then show ?thesis by (simp add: truncate_preview_def)
next
  case False
  let ?p = "''<tool_output''" and ?q = "''</tool_output>''" and ?c = "take 1000 s @ ''...''"
  have "boundary_loop s 1000 = 1000"
    using assms False boundary_loop_le [of s 1000] boundary_loop_greatest [of 1000 1000 s]
    by (auto simp: cut_clean_def)
  with False have cut: "truncate_preview s 1000 =
      (if prefix ?p s \<and> \<not> suffix ?q ?c then ?c @ [CHR 0x0A] @ ?q else ?c)"
    by (simp add: truncate_preview_def Let_def)
  have again: "truncate_preview (?c @ y) 1000 =
      (if prefix ?p s \<and> \<not> suffix ?q ?c then ?c @ [CHR 0x0A] @ ?q else ?c)" for y
  proof -
    have "is_char_boundary (?c @ y) 1000"
      using False by (simp add: is_char_boundary_def nth_append is_cont_byte_def)
    then have "boundary_loop (?c @ y) 1000 = 1000"
      using boundary_loop_le [of "?c @ y" 1000] boundary_loop_greatest [of 1000 1000 "?c @ y"] by auto
    moreover have "prefix ?p (?c @ y) \<longleftrightarrow> prefix ?p s"
      using False by (simp add: prefix_iff_take)
    ultimately show ?thesis using False by (simp add: truncate_preview_def Let_def)
  qed
  show ?thesis unfolding cut using again [of "[]"] again [of "[CHR 0x0A] @ ?q"]
    by (simp split: if_splits)
qed

lemma consume_results_batch:
  assumes "length rs = length cs" and "\<forall>m \<in> set rs. cm_role m = Tool"
    and "rest = [] \<or> cm_role (hd rest) \<noteq> Tool"
    and "tu_tool_calls t = pre @ cs" and "base + pos = length pre"
  shows "consume_results base pos (rs @ rest) t =
    (t\<lparr>tu_tool_calls := pre @ map2 (\<lambda>c m. c\<lparr>tt_result := Some (JString (cm_content m))\<rparr>) cs rs\<rparr>, rest)"
  using assms
proof (induction rs cs arbitrary: pre pos t rule: list_induct2)
  case Nil
  then show ?case by (cases rest) auto
next
  case (Cons m rs c cs)
  let ?c = "c\<lparr>tt_result := Some (JString (cm_content m))\<rparr>"
  have "consume_results base (pos + 1) (rs @ rest) (t\<lparr>tu_tool_calls := (pre @ [?c]) @ cs\<rparr>) =
      (t\<lparr>tu_tool_calls := (pre @ [?c]) @ map2 (\<lambda>c m. c\<lparr>tt_result := Some (JString (cm_content m))\<rparr>) cs rs\<rparr>, rest)"
    using Cons.IH [of "t\<lparr>tu_tool_calls := (pre @ [?c]) @ cs\<rparr>" "pre @ [?c]" "pos + 1"] Cons.prems by simp
  then show ?case using Cons.prems by (simp add: Let_def)
qed

lemma fold_record_tool_call:
  "fold (\<lambda>tc. record_tool_call (tc_name tc) (tc_arguments tc)) tcs t =
     t\<lparr>tu_tool_calls := tu_tool_calls t @
        map (\<lambda>tc. \<lparr>tt_name = tc_name tc, tt_parameters = tc_arguments tc, tt_result = None, tt_error = None\<rparr>) tcs\<rparr>"
  by (induction tcs arbitrary: t) (simp_all add: record_tool_call_def)

definition restored_call :: "(json \<Rightarrow> string) \<Rightarrow> TurnToolCall \<Rightarrow> TurnToolCall" where
  "restored_call ts tc = \<lparr>tt_name = tt_name tc, tt_parameters = tt_parameters tc,
     tt_result = Some (JString (result_content ts tc)), tt_error = None\<rparr>"

definition restored_turn :: "datetime \<Rightarrow> (json \<Rightarrow> string) \<Rightarrow> Turn \<Rightarrow> Turn" where
  "restored_turn now ts t =
     (let u = (turn_new now (tu_turn_number t) (tu_user_input t))
                \<lparr>tu_tool_calls := map (restored_call ts) (tu_tool_calls t)\<rparr>
      in case tu_response t of Some r \<Rightarrow> turn_complete now r u | None \<Rightarrow> u)"

lemma consume_rounds_no_calls:
  "rest = [] \<or> cm_tool_calls (hd rest) = None \<or> cm_role (hd rest) \<noteq> Assistant \<Longrightarrow>
   consume_rounds rest t = (t, rest)"
  by (cases rest) (auto split: option.splits)

lemma consume_rounds_turn:
  assumes no_img: "tu_image_content_parts t = []"
    and rest: "rest = [] \<or> cm_role (hd rest) = User \<or>
      (cm_role (hd rest) = Assistant \<and> cm_tool_calls (hd rest) = None)"
    and calls: "turn_messages ts (t\<lparr>tu_response := None\<rparr>) = u # ms"
  shows "consume_rounds (ms @ rest) (turn_new now n inp) =
    ((turn_new now n inp)\<lparr>tu_tool_calls := map (restored_call ts) (tu_tool_calls t)\<rparr>, rest)"
proof (cases "tu_tool_calls t = []")
  case True
  then have "ms = []" using calls by (simp add: turn_messages_def)
  then show ?thesis using rest True
    by (auto simp: consume_rounds_no_calls turn_new_def)
next
  case False
  define tcs where "tcs = map (\<lambda>(i, tc). \<lparr>tc_id = call_id (tu_turn_number t) i, tc_name = tt_name tc,
      tc_arguments = tt_parameters tc\<rparr>) (enumerate 0 (tu_tool_calls t))"
  define rs where "rs = map (\<lambda>(i, tc). cm_tool_result (call_id (tu_turn_number t) i) (tt_name tc)
      (result_content ts tc)) (enumerate 0 (tu_tool_calls t))"
  define fresh where "fresh = map (\<lambda>tc. \<lparr>tt_name = tc_name tc, tt_parameters = tc_arguments tc,
      tt_result = None, tt_error = None\<rparr>) tcs"
  have ms: "ms = cm_assistant_with_tool_calls None tcs # rs"
    using calls False by (simp add: turn_messages_def tcs_def rs_def)
  have ne: "tcs \<noteq> []" using False by (simp add: tcs_def enumerate_eq_zip)
  have len: "length rs = length fresh" by (simp add: rs_def fresh_def tcs_def)
  have merged: "map2 (\<lambda>c m. c\<lparr>tt_result := Some (JString (cm_content m))\<rparr>) fresh rs
      = map (restored_call ts) (tu_tool_calls t)"
    by (rule nth_equalityI)
       (simp_all add: rs_def fresh_def tcs_def nth_enumerate_eq restored_call_def cm_tool_result_def)
  have stop: "rest = [] \<or> cm_role (hd rest) \<noteq> Tool"
    and fin: "rest = [] \<or> cm_tool_calls (hd rest) = None \<or> cm_role (hd rest) \<noteq> Assistant"
    using rest by auto
  have "consume_results 0 0 (rs @ rest) ((turn_new now n inp)\<lparr>tu_tool_calls := fresh\<rparr>) =
      ((turn_new now n inp)\<lparr>tu_tool_calls := map (restored_call ts) (tu_tool_calls t)\<rparr>, rest)"
    using consume_results_batch [of rs fresh rest "(turn_new now n inp)\<lparr>tu_tool_calls := fresh\<rparr>" "[]" 0 0]
      len stop merged
    by (simp add: rs_def case_prod_unfold)
  then show ?thesis using ne
    by (simp add: ms fold_record_tool_call cm_assistant_with_tool_calls_def turn_new_def Let_def
        consume_rounds_no_calls [OF fin] flip: fresh_def)
qed

lemma turn_messages_split:
  "turn_messages ts t = turn_messages ts (t\<lparr>tu_response := None\<rparr>) @
     (case tu_response t of Some r \<Rightarrow> [cm_assistant r] | None \<Rightarrow> [])"
  by (cases "tu_tool_calls t = []"; cases "tu_image_content_parts t = []"; simp add: turn_messages_def)

lemma restore_turn:
  assumes no_img: "tu_image_content_parts t = []" and rest: "rest = [] \<or> cm_role (hd rest) = User"
    and n: "n = tu_turn_number t"
  shows "restore_loop now n (turn_messages ts t @ rest) = restored_turn now ts t # restore_loop now (n + 1) rest"
proof -
  obtain ms where ms: "turn_messages ts (t\<lparr>tu_response := None\<rparr>) = cm_user (tu_user_input t) # ms"
    using no_img by (auto simp: turn_messages_def)
  define tail where "tail = (case tu_response t of Some r \<Rightarrow> [cm_assistant r] | None \<Rightarrow> []) @ rest"
  have all: "turn_messages ts t @ rest = cm_user (tu_user_input t) # ms @ tail"
    by (subst turn_messages_split) (simp add: ms tail_def)
  have "tail = [] \<or> cm_role (hd tail) = User \<or> (cm_role (hd tail) = Assistant \<and> cm_tool_calls (hd tail) = None)"
    using rest by (auto simp: tail_def cm_assistant_def split: option.split)
  from consume_rounds_turn [OF no_img this ms, of now n "tu_user_input t"]
  show ?thesis
    using rest unfolding all n
    by (cases rest) (auto simp: take_response_def tail_def restored_turn_def Let_def cm_assistant_def cm_user_def
        split: option.split list.split)
qed

lemma messages_hd: "ms = concat (map (turn_messages ts) tus) \<Longrightarrow> ms = [] \<or> cm_role (hd ms) = User"
  by (cases tus) (auto simp: turn_messages_def)

lemma restore_loop_turns:
  assumes "map tu_turn_number tus = [n..<n + length tus]" and "\<forall>t \<in> set tus. tu_image_content_parts t = []"
  shows "restore_loop now n (concat (map (turn_messages ts) tus)) = map (restored_turn now ts) tus"
  using assms
proof (induction tus arbitrary: n)
  case (Cons t tus)
  then show ?case
    using restore_turn [OF _ messages_hd [OF refl, of ts tus], of t n now ts]
    by (simp add: upt_conv_Cons del: upt_Suc)
qed simp

lemma turn_messages_restored:
  assumes "tu_image_content_parts t = []" and "\<forall>tc \<in> set (tu_tool_calls t). cut_clean (result_raw ts tc)"
  shows "turn_messages ts (restored_turn now ts t) = turn_messages ts t"
proof -
  have same: "result_content ts (restored_call ts tc) = result_content ts tc"
    if "tc \<in> set (tu_tool_calls t)" for tc
    using assms(2) that cut_clean_stable [of "result_raw ts tc"]
    by (simp add: result_content_raw restored_call_def) (simp add: result_raw_def)
  have zips: "map f (enumerate 0 (map (restored_call ts) cs)) = map (\<lambda>(i, c). f (i, restored_call ts c)) (enumerate 0 cs)"
    for f :: "nat \<times> TurnToolCall \<Rightarrow> 'b" and cs
    by (rule nth_equalityI) (simp_all add: nth_enumerate_eq)
  have "map (\<lambda>(i, tc). cm_tool_result (g i) (tt_name tc) (result_content ts (restored_call ts tc)))
      (enumerate 0 (tu_tool_calls t)) =
      map (\<lambda>(i, tc). cm_tool_result (g i) (tt_name tc) (result_content ts tc)) (enumerate 0 (tu_tool_calls t))"
    for g using same by (auto simp: in_set_enumerate_eq)
  then show ?thesis using assms(1)
    by (auto simp: turn_messages_def restored_turn_def turn_new_def turn_complete_def Let_def zips
        restored_call_def split: option.split)
qed

text \<open>A thread whose transcript survives a restore unchanged.\<close>

definition transcript_stable :: "(json \<Rightarrow> string) \<Rightarrow> Thread \<Rightarrow> bool" where
  "transcript_stable ts th =
     (turns_numbered (th_turns th) \<and>
      (\<forall>t \<in> set (th_turns th). tu_image_content_parts t = [] \<and>
         (\<forall>tc \<in> set (tu_tool_calls t). cut_clean (result_raw ts tc))))"

lemma turns_restore:
  "transcript_stable ts th \<Longrightarrow>
   th_turns (restore_from_messages now (messages ts th) other) = map (restored_turn now ts) (th_turns th)"
  using restore_loop_turns [of "th_turns th" 0 now ts]
  by (simp add: transcript_stable_def restore_from_messages_def messages_def)

lemma messages_restore:
  assumes "transcript_stable ts th"
  shows "messages ts (restore_from_messages now (messages ts th) other) = messages ts th"
proof -
  have "map (turn_messages ts) (map (restored_turn now ts) (th_turns th)) = map (turn_messages ts) (th_turns th)"
    using assms by (simp add: transcript_stable_def turn_messages_restored)
  with turns_restore [OF assms, of now other] show ?thesis by (metis messages_def)
qed

lemma state_restore [simp]: "th_state (restore_from_messages now ms th) = ThreadIdle"
  by (simp add: restore_from_messages_def)

text \<open>
  Property C39. Restoring any thread from the transcript of a thread with numbered turns and no
  pending images gives turns with exactly the same transcript, provided that no tool output has a
  character straddling byte 1000, where the transcript cuts it; the restored thread is idle.
\<close>

theorem restore_messages_roundtrip:
  assumes "transcript_stable ts th"
  shows "messages ts (restore_from_messages now (messages ts th) other) = messages ts th \<and>
    length (th_turns (restore_from_messages now (messages ts th) other)) = length (th_turns th) \<and>
    th_state (restore_from_messages now (messages ts th) other) = ThreadIdle"
  by (simp add: messages_restore [OF assms] turns_restore [OF assms])

theorem restore_messages_roundtrip_witness:
  "messages (\<lambda>_. []) (restore_from_messages 9 (messages (\<lambda>_. []) demo_thread) (thread_new 8 0 3)) =
     messages (\<lambda>_. []) demo_thread"
proof -
  have "transcript_stable (\<lambda>_. []) demo_thread"
    by (simp add: transcript_stable_def demo_thread_def map_last_def record_tool_result_def record_tool_call_def start_turn_def
        thread_new_def turn_new_def cut_clean_def result_raw_def)
  from restore_messages_roundtrip [OF this] show ?thesis by simp
qed

subsection \<open>The active thread of a session\<close>

text \<open>One step of a session: its methods, and any update of a stored thread that keeps its id.\<close>

inductive session_step :: "Session \<Rightarrow> Session \<Rightarrow> bool" where
  create: "session_step s (snd (create_thread i now s))"
| get_or_create: "session_step s (snd (get_or_create_thread i now s))"
| switch: "session_step s (snd (switch_thread i now s))"
| approve: "session_step s (auto_approve_tool tool s)"
| thread: "(\<And>th. th_id (f th) = th_id th) \<Longrightarrow> session_step s (update_thread i f s)"

definition session_inv :: "Session \<Rightarrow> bool" where
  "session_inv s =
     (distinct (keys (se_threads s)) \<and>
      (\<forall>k th. map_of (se_threads s) k = Some th \<longrightarrow> th_id th = k) \<and>
      (\<forall>i. se_active_thread s = Some i \<longrightarrow> i \<in> set (keys (se_threads s))))"

lemma session_inv_lookup: "session_inv s \<Longrightarrow> map_of (se_threads s) i = Some th \<Longrightarrow> th_id th = i"
  by (simp add: session_inv_def)

lemma session_inv_new: "session_inv (session_new i now user)"
  by (simp add: session_inv_def session_new_def)

lemma create_thread_lookup:
  "map_of (se_threads (snd (create_thread i now s))) =
     (case map_of (se_threads s) i of Some _ \<Rightarrow> map_of (se_threads s)
      | None \<Rightarrow> (map_of (se_threads s))(i \<mapsto> thread_new i now (se_id s)))"
  by (auto simp: create_thread_def thread_new_def Let_def update_conv' split: option.split)

lemma create_thread_active [simp]:
  "se_active_thread (snd (create_thread i now s)) = Some i" "fst (create_thread i now s) = i"
  by (simp_all add: create_thread_def thread_new_def Let_def)

lemma keys_dom: "i \<in> set (keys m) \<longleftrightarrow> map_of m i \<noteq> None"
  by (simp add: map_of_eq_None_iff)

lemma create_thread_inv:
  assumes "session_inv s" shows "session_inv (snd (create_thread i now s))"
proof -
  have "distinct (keys (se_threads (snd (create_thread i now s))))"
    using assms by (auto simp: session_inv_def create_thread_def Let_def split: option.split)
  then show ?thesis using assms
    by (auto simp: session_inv_def create_thread_lookup keys_dom thread_new_def simp del: set_map
        split: option.splits if_splits)
qed

lemma session_step_inv:
  assumes "session_step s s'" and inv: "session_inv s"
  shows "session_inv s'"
  using assms(1)
proof cases
  case (create i now)
  then show ?thesis by (simp add: create_thread_inv inv)
next
  case (get_or_create i now)
  then show ?thesis using inv create_thread_inv [OF inv, of i now]
    by (auto simp: get_or_create_thread_def split: option.split)
next
  case (thread f i)
  then show ?thesis using inv
    by (auto simp: session_inv_def update_thread_def dom_update update_conv' simp del: map_of_eq_Some_iff
        split: option.splits if_splits intro: rev_image_eqI dest: map_of_SomeD)
qed (use inv in \<open>auto simp: switch_thread_def auto_approve_tool_def session_inv_def\<close>)

lemma session_steps_inv: "session_step\<^sup>*\<^sup>* (session_new i now user) s \<Longrightarrow> session_inv s"
  by (induction rule: rtranclp_induct) (auto simp: session_inv_new intro: session_step_inv)

text \<open>
  Also: In every reachable session the active thread, when there is one, exists and is
  stored under its own id; \<open>get_or_create_thread\<close> always yields an existing active thread and loses
  none; \<open>switch_thread\<close> succeeds exactly for existing threads and otherwise changes nothing.
\<close>

theorem session_active_thread_valid:
  assumes "session_step\<^sup>*\<^sup>* (session_new sid t0 user) s"
  shows "(\<forall>i. se_active_thread s = Some i \<longrightarrow> (\<exists>th. active_thread s = Some th \<and> th_id th = i)) \<and>
    (let (i, s') = get_or_create_thread new_id now s in
       se_active_thread s' = Some i \<and> active_thread s' \<noteq> None \<and>
       (\<forall>j th. map_of (se_threads s) j = Some th \<longrightarrow> map_of (se_threads s') j = Some th)) \<and>
    (case switch_thread j now s of (ok, s') \<Rightarrow>
       (ok \<longleftrightarrow> map_of (se_threads s) j \<noteq> None) \<and>
       (if ok then active_thread s' = map_of (se_threads s) j else s' = s))"
proof -
  have inv: "session_inv s" by (rule session_steps_inv [OF assms])
  have act: "\<exists>th. active_thread s = Some th \<and> th_id th = i" if "se_active_thread s = Some i" for i
  proof -
    have "map_of (se_threads s) i \<noteq> None" using inv that by (auto simp: session_inv_def keys_dom simp del: set_map)
    with session_inv_lookup [OF inv] that show ?thesis by (auto simp: active_thread_def)
  qed
  have new: "active_thread (snd (create_thread new_id now s)) \<noteq> None"
    by (auto simp: active_thread_def create_thread_lookup split: option.split)
  have keep: "map_of (se_threads (snd (create_thread new_id now s))) j = Some th"
    if "map_of (se_threads s) j = Some th" for j th
    using that by (auto simp: create_thread_lookup split: option.split)
  have goc: "let (i, s') = get_or_create_thread new_id now s in
       se_active_thread s' = Some i \<and> active_thread s' \<noteq> None \<and>
       (\<forall>j th. map_of (se_threads s) j = Some th \<longrightarrow> map_of (se_threads s') j = Some th)"
    using act new keep create_thread_active [of new_id now s]
    by (cases "create_thread new_id now s")
       (auto simp: get_or_create_thread_def simp del: create_thread_active split: option.split)
  have "case switch_thread j now s of (ok, s') \<Rightarrow>
       (ok \<longleftrightarrow> map_of (se_threads s) j \<noteq> None) \<and>
       (if ok then active_thread s' = map_of (se_threads s) j else s' = s)"
    by (simp add: switch_thread_def active_thread_def keys_dom del: set_map)
  with act goc show ?thesis by blast
qed

theorem session_active_thread_valid_witness:
  "active_thread (snd (create_thread 4 1 (session_new 9 0 ''ann''))) = Some (thread_new 4 1 9)"
proof -
  have "session_step\<^sup>*\<^sup>* (session_new 9 0 ''ann'') (snd (create_thread 4 1 (session_new 9 0 ''ann'')))"
    by (intro r_into_rtranclp session_step.create)
  from session_active_thread_valid [OF this] show ?thesis
    by (simp add: create_thread_lookup active_thread_def) (simp add: session_new_def)
qed

end
