(* ===== verification/Retry.thy ===== *)
theory Retry
  imports Chat
begin

text \<open>
  Retries of a provider call: \<^verbatim>\<open>src/llm/retry.rs\<close>. A provider operation is a function from its state to
  an error or a response and the next state. The lemmas give the exact outcome of the retry loop,
  its bound on the number of calls, and the range of the backoff delays.

  The random jitter is an argument. \<open>retry_backoff_delay\<close> is computed on 64-bit words as in the code;
  casts to \<open>i64\<close> read a word as signed.
\<close>

type_synonym ('s, 'r) operation = "'s \<Rightarrow> (LlmError + 'r) \<times> 's"

fun is_retryable :: "LlmError \<Rightarrow> bool" where
  "is_retryable (RequestFailed _ _) = True"
| "is_retryable (RateLimited _ _) = True"
| "is_retryable (InvalidResponse _ _) = True"
| "is_retryable (SessionRenewalFailed _ _) = True"
| "is_retryable (Http _) = True"
| "is_retryable (Io _) = True"
| "is_retryable (AuthFailed _) = False"
| "is_retryable (SessionExpired _) = False"
| "is_retryable (ContextLengthExceeded _ _) = False"
| "is_retryable (ModelNotAvailable _ _) = False"
| "is_retryable (Json _) = False"

text \<open>\<open>offset\<close> is the value drawn from \<open>0..=jitter_range * 2\<close>.\<close>

definition base_ms :: "nat \<Rightarrow> u64" where
  "base_ms attempt = saturating_mul 1000 (saturating_pow 2 attempt)"

definition retry_backoff_delay :: "u64 \<Rightarrow> nat \<Rightarrow> duration" where
  "retry_backoff_delay offset attempt =
     (let base = base_ms attempt;
          jitter_range = base div 4;
          jitter = (if jitter_range > 0 then sint offset - sint jitter_range else 0);
          delay = (sint base + jitter + 2 ^ 63) mod 2 ^ 64 - 2 ^ 63
      in nat (max 100 delay) * 1000000)"

record RetryConfig =
  rc_max_retries :: u32

definition retry_config_default :: RetryConfig where
  "retry_config_default = \<lparr>rc_max_retries = 3\<rparr>"

definition retry_delay :: "(nat \<Rightarrow> duration) \<Rightarrow> nat \<Rightarrow> LlmError \<Rightarrow> duration" where
  "retry_delay backoff attempt err =
     (case err of RateLimited _ (Some d) \<Rightarrow> d | _ \<Rightarrow> backoff attempt)"

text \<open>
  The loop from \<open>attempt\<close>, with \<open>remaining\<close> attempts after it: the result, the state and the delays
  slept in between. \<open>backoff\<close> gives the delay drawn for each attempt.
\<close>

fun retry_from ::
    "(nat \<Rightarrow> duration) \<Rightarrow> ('s, 'r) operation \<Rightarrow> nat \<Rightarrow> nat \<Rightarrow> 's \<Rightarrow> (LlmError + 'r) \<times> 's \<times> duration list" where
  "retry_from backoff op attempt remaining s =
     (case op s of
        (Inr r, s') \<Rightarrow> (Inr r, s', [])
      | (Inl e, s') \<Rightarrow>
          if \<not> is_retryable e then (Inl e, s', [])
          else (case remaining of
              0 \<Rightarrow> (Inl e, s', [])
            | Suc rem \<Rightarrow>
                (case retry_from backoff op (attempt + 1) rem s' of
                   (r, s'', ds) \<Rightarrow> (r, s'', retry_delay backoff attempt e # ds))))"

declare retry_from.simps [simp del]

definition retry_loop ::
    "RetryConfig \<Rightarrow> (nat \<Rightarrow> duration) \<Rightarrow> ('s, 'r) operation \<Rightarrow> 's \<Rightarrow> (LlmError + 'r) \<times> 's \<times> duration list" where
  "retry_loop cfg backoff op s = retry_from backoff op 0 (unat (rc_max_retries cfg)) s"

text \<open>\<open>RetryProvider::complete\<close> and \<open>complete_with_tools\<close>.\<close>

definition retry_complete ::
    "RetryConfig \<Rightarrow> (nat \<Rightarrow> duration) \<Rightarrow> ('q \<Rightarrow> ('s, 'r) operation) \<Rightarrow> 'q \<Rightarrow> ('s, 'r) operation" where
  "retry_complete cfg backoff inner request s =
     (case retry_loop cfg backoff (inner request) s of (r, s', _) \<Rightarrow> (r, s'))"

subsection \<open>Decorators that invent no responses\<close>

text \<open>
  The contract a decorator of providers keeps: a response it returns was returned by a wrapped
  provider, for one of the requests \<open>sub q\<close> it makes of the given request \<open>q\<close>.
\<close>

locale honest_decorator =
  fixes wrap :: "('p \<Rightarrow> ('s, 'r) operation) \<Rightarrow> 'q \<Rightarrow> ('t, 'r) operation" and sub :: "'q \<Rightarrow> 'p set"
  assumes from_inner: "wrap inner q t = (Inr r, t') \<Longrightarrow> \<exists>p \<in> sub q. \<exists>s s'. inner p s = (Inr r, s')"
begin

lemma never_invents:
  assumes "\<And>p s r s'. p \<in> sub q \<Longrightarrow> inner p s = (Inr r, s') \<Longrightarrow> P r" and "wrap inner q t = (Inr r, t')"
  shows "P r"
  using from_inner [OF assms(2)] assms(1) by blast

lemma fails_if_inner_fails:
  assumes "\<And>p s. p \<in> sub q \<Longrightarrow> \<exists>e s'. inner p s = (Inl e, s')"
  shows "\<exists>e t'. wrap inner q t = (Inl e, t')"
proof (cases "wrap inner q t")
  case (Pair r t')
  show ?thesis
  proof (cases r)
    case (Inr x)
    then obtain p s s' where "p \<in> sub q" "inner p s = (Inr x, s')" using from_inner Pair by blast
    with assms [of p s] show ?thesis by auto
  qed (use Pair in auto)
qed

end

subsection \<open>The retry loop\<close>

text \<open>The states and outcomes of calling an operation again and again.\<close>

primrec nth_state :: "('s, 'r) operation \<Rightarrow> nat \<Rightarrow> 's \<Rightarrow> 's" where
  "nth_state op 0 s = s"
| "nth_state op (Suc k) s = nth_state op k (snd (op s))"

definition nth_outcome :: "('s, 'r) operation \<Rightarrow> nat \<Rightarrow> 's \<Rightarrow> LlmError + 'r" where
  "nth_outcome op k s = fst (op (nth_state op k s))"

definition transient :: "LlmError + 'r \<Rightarrow> bool" where
  "transient out = (case out of Inl e \<Rightarrow> is_retryable e | Inr _ \<Rightarrow> False)"

lemma retry_from_exact:
  assumes "retry_from backoff op a rem s = (r, s', ds)"
  shows "\<exists>n \<le> rem. length ds = n \<and> r = nth_outcome op n s \<and> s' = nth_state op (Suc n) s \<and>
    (\<forall>k < n. transient (nth_outcome op k s)) \<and> (n = rem \<or> \<not> transient r)"
  using assms
proof (induction rem arbitrary: a s r s' ds)
  case 0
  then show ?case
    by (auto simp: retry_from.simps nth_outcome_def transient_def split: prod.splits sum.splits if_splits)
next
  case (Suc rem)
  obtain o1 s1 where o1: "op s = (o1, s1)" by fastforce
  show ?case
  proof (cases "transient o1")
    case False
    then have "r = o1 \<and> s' = s1 \<and> ds = []"
      using Suc.prems o1 by (auto simp: retry_from.simps [of _ _ _ "Suc rem"] transient_def split: sum.splits)
    with False o1 show ?thesis by (intro exI [of _ 0]) (simp add: nth_outcome_def)
  next
    case True
    then obtain e where e: "o1 = Inl e" "is_retryable e" by (auto simp: transient_def split: sum.splits)
    obtain ds1 where rec: "retry_from backoff op (a + 1) rem s1 = (r, s', ds1)" and ds: "length ds = Suc (length ds1)"
      using Suc.prems o1 e by (auto simp: retry_from.simps [of _ _ _ "Suc rem"] split: prod.splits)
    from Suc.IH [OF rec] obtain n where n: "n \<le> rem" "length ds1 = n" "r = nth_outcome op n s1"
      "s' = nth_state op (Suc n) s1" "\<forall>k < n. transient (nth_outcome op k s1)" "n = rem \<or> \<not> transient r" by blast
    have "transient (nth_outcome op k s)" if "k < Suc n" for k
      using that True n(5) o1 by (cases k) (auto simp: nth_outcome_def)
    with n ds o1 show ?thesis by (intro exI [of _ "Suc n"]) (auto simp: nth_outcome_def)
  qed
qed

text \<open>
  Also: The retry loop calls the provider at most \<open>max_retries + 1\<close> times and sleeps once
  between any two calls. It returns the outcome of the first call that succeeded or failed for a
  reason a retry cannot cure, or else of the last permitted call; all calls before it failed with
  retryable errors.
\<close>

theorem retry_loop_exact:
  "\<exists>n \<le> unat (rc_max_retries cfg). \<exists>ds.
     retry_loop cfg backoff op s = (nth_outcome op n s, nth_state op (Suc n) s, ds) \<and> length ds = n \<and>
     (\<forall>k < n. transient (nth_outcome op k s)) \<and>
     (n = unat (rc_max_retries cfg) \<or> \<not> transient (nth_outcome op n s))"
proof -
  obtain r s' ds where "retry_from backoff op 0 (unat (rc_max_retries cfg)) s = (r, s', ds)"
    using prod_cases3 by blast
  from retry_from_exact [OF this] this show ?thesis unfolding retry_loop_def by blast
qed

interpretation retrying: honest_decorator "retry_complete cfg backoff" "\<lambda>q. {q}"
proof
  fix inner :: "'q \<Rightarrow> ('s, 'r) operation" and q t r t'
  assume "retry_complete cfg backoff inner q t = (Inr r, t')"
  then obtain ds where "retry_from backoff (inner q) 0 (unat (rc_max_retries cfg)) t = (Inr r, t', ds)"
    by (auto simp: retry_complete_def retry_loop_def split: prod.splits)
  from retry_from_exact [OF this] have "\<exists>s s'. inner q s = (Inr r, s')"
    by (metis nth_outcome_def prod.collapse)
  then show "\<exists>p \<in> {q}. \<exists>s s'. inner p s = (Inr r, s')" by simp
qed

definition demo_flaky :: "(nat, string) operation" where
  "demo_flaky s = (if s < 2 then (Inl (Http ''503''), s + 1) else (Inr ''ok'', s + 1))"

theorem retry_loop_exact_witness:
  "fst (retry_loop retry_config_default (\<lambda>_. 1) demo_flaky 0) = Inr ''ok''"
proof -
  obtain n ds where n: "n \<le> 3" and run: "retry_loop retry_config_default (\<lambda>_. 1) demo_flaky 0 =
      (nth_outcome demo_flaky n 0, nth_state demo_flaky (Suc n) 0, ds)"
    and before: "\<forall>k < n. transient (nth_outcome demo_flaky k 0)"
    and last: "n = 3 \<or> \<not> transient (nth_outcome demo_flaky n 0)"
    using retry_loop_exact [of retry_config_default "\<lambda>_. 1" demo_flaky 0]
    by (auto simp: retry_config_default_def)
  have o2: "nth_outcome demo_flaky 2 0 = Inr ''ok''" and o01: "transient (nth_outcome demo_flaky 0 0)"
    "transient (nth_outcome demo_flaky 1 0)"
    by (simp_all add: nth_outcome_def demo_flaky_def numeral_2_eq_2 transient_def)
  have "n = 2"
  proof (rule ccontr)
    assume "n \<noteq> 2"
    then consider "n = 0" | "n = 1" | "n = 3" using n by linarith
    then show False
    proof cases
      case 3
      then have "transient (nth_outcome demo_flaky 2 0)" using before by simp
      then show False by (simp add: o2 transient_def)
    qed (use last o01 in auto)
  qed
  with run o2 show ?thesis by simp
qed

subsection \<open>Backoff\<close>

lemma sint_small:
  assumes "unat (w :: u64) < 2 ^ 63" shows "sint w = int (unat w)"
proof -
  have "uint w = int (unat w)" by simp
  moreover have "int (unat w) < int (2 ^ 63)" using assms by (simp only: of_nat_less_iff)
  ultimately show ?thesis
    unfolding sint_uint
    by (subst signed_take_bit_int_eq_self) (simp_all add: order_trans [OF _ uint_ge_0])
qed

lemma unat_base_ms: "unat (base_ms a) = min (1000 * min (2 ^ a) (2 ^ 64 - 1)) (2 ^ 64 - 1)"
  by (simp add: base_ms_def unat_saturating_mul unat_saturating_pow)

lemma base_ms_small:
  assumes "a \<le> 52" shows "unat (base_ms a) = 1000 * 2 ^ a"
proof -
  have "(2 :: nat) ^ a \<le> 2 ^ 52" using assms by (rule power_increasing) simp
  then show ?thesis by (simp add: unat_base_ms)
qed

text \<open>
  Also: For up to fifty-two attempts the backoff delay is one second doubled per attempt,
  within a quarter of that in either direction, whatever the random draw.
\<close>

theorem retry_backoff_bounds:
  assumes "a \<le> 52" and "unat offset \<le> 2 * (unat (base_ms a) div 4)"
  shows "750 * 2 ^ a * 1000000 \<le> retry_backoff_delay offset a \<and>
    retry_backoff_delay offset a \<le> 1250 * 2 ^ a * 1000000"
proof -
  have p: "(2 :: nat) ^ a \<le> 2 ^ 52" using assms(1) by (rule power_increasing) simp
  have b: "unat (base_ms a) = 1000 * 2 ^ a" by (rule base_ms_small [OF assms(1)])
  have r: "unat (base_ms a div 4) = 250 * 2 ^ a" by (simp add: unat_div b)
  have o: "unat offset \<le> 500 * 2 ^ a" using assms(2) b by simp
  have sb: "sint (base_ms a) = 1000 * 2 ^ a" using sint_small [of "base_ms a"] b p by simp
  have sr: "sint (base_ms a div 4) = 250 * 2 ^ a" using sint_small [of "base_ms a div 4"] r p by simp
  have so: "sint offset = int (unat offset)" using o p by (intro sint_small) simp
  obtain k where k: "unat offset = k" by simp
  define x where "x = (1000 * 2 ^ a + (int k - 250 * 2 ^ a) :: int)"
  have "int k \<le> int (500 * 2 ^ a)" using o k by (simp only: of_nat_le_iff)
  then have lo: "750 * 2 ^ a \<le> x" and hi: "x \<le> 1250 * 2 ^ a" by (simp_all add: x_def)
  have p': "(2 :: int) ^ a \<le> 2 ^ 52" using assms(1) by (rule power_increasing) simp
  have one: "1 \<le> (2 :: int) ^ a" by simp
  have wrap: "(x + 2 ^ 63) mod 2 ^ 64 - 2 ^ 63 = x" using lo hi p' one by simp
  have pos: "0 < base_ms a div 4" using r by (simp add: word_gt_0 unat_eq_zero [symmetric] del: unat_eq_zero)
  have "retry_backoff_delay offset a = nat (max 100 x) * 1000000"
    using pos wrap by (simp only: retry_backoff_delay_def Let_def sb sr so x_def k if_True)
  moreover have "100 \<le> x" using lo one by linarith
  ultimately show ?thesis using lo hi by (simp add: max_def nat_le_iff le_nat_iff)
qed

theorem retry_backoff_bounds_witness:
  "750 * 2 ^ 3 * 1000000 \<le> retry_backoff_delay 17 3 \<and> retry_backoff_delay 17 3 \<le> 1250 * 2 ^ 3 * 1000000"
proof -
  have "(3 :: nat) \<le> 52" and "unat (17 :: u64) \<le> 2 * (unat (base_ms 3) div 4)"
    by (simp_all add: base_ms_small)
  from retry_backoff_bounds [OF this] show ?thesis .
qed

text \<open>
  The delay does not keep doubling: once the base no longer fits the signed 64-bit type, the sum is
  read as a negative number and the minimum of 100 milliseconds is used.
\<close>

lemma retry_backoff_wraps: "retry_backoff_delay 0 60 = 100 * 1000000"
proof -
  have b: "base_ms 60 = -1" by (simp add: base_ms_def saturating_mul_def saturating_pow_def)
  show ?thesis by (simp add: retry_backoff_delay_def b)
qed

end
