(* ===== verification/Reasoning.thy ===== *)
theory Reasoning
  imports Retry
begin

text \<open>
  One step of reasoning: \<^verbatim>\<open>src/llm/reasoning.rs\<close>. \<open>respond_with_tools\<close> turns a context into a request
  to the provider and its answer into text or tool calls; \<open>llm_signals_tool_intent\<close> recognises text
  that announces a tool call without making it. The lemmas describe the request sent (one system
  message at its head, the rest of the conversation unchanged, tools only when text is not forced)
  and the kind of answer.

  The provider is a pair of operations on a state \<open>'w\<close>. The construction of the system prompt and the
  cleaning of raw model output (\<open>build_system_prompt_with_tools\<close>, \<open>truncate_at_tool_tags\<close>,
  \<open>clean_response\<close>, \<open>recover_tool_calls_from_content\<close>) are arguments, so that the lemmas hold whatever
  they compute.
\<close>

subsection \<open>Announced tool calls\<close>

text \<open>\<open>str::lines\<close>: the lines without their terminators, a trailing empty line left out.\<close>

definition strip_cr :: "string \<Rightarrow> string" where
  "strip_cr l = (case strip_suffix [CHR 0x0D] l of Some l' \<Rightarrow> l' | None \<Rightarrow> l)"

definition lines :: "string \<Rightarrow> string list" where
  "lines s =
     (let ls = split_on (\<lambda>c. c = CHR 0x0A) s;
          ls = (if last ls = [] then butlast ls else ls)
      in map strip_cr (butlast ls) @ (if ls = [] then [] else if ends_with s [CHR 0x0A] then [strip_cr (last ls)] else [last ls]))"

definition trim_start :: "string \<Rightarrow> string" where
  "trim_start s = dropWhile is_whitespace s"

fun strip_quotes_from :: "bool \<Rightarrow> char \<Rightarrow> string \<Rightarrow> string" where
  "strip_quotes_from in_quote prev [] = []"
| "strip_quotes_from in_quote prev (ch # cs) =
     (if ch = CHR 0x22 \<and> prev \<noteq> CHR 0x5C then strip_quotes_from (\<not> in_quote) prev cs
      else if in_quote then strip_quotes_from in_quote ch cs
      else ch # strip_quotes_from in_quote ch cs)"

definition strip_quoted_strings :: "string \<Rightarrow> string" where
  "strip_quoted_strings line = strip_quotes_from False (CHR 0x00) line"

fun strip_code_lines :: "bool \<Rightarrow> string list \<Rightarrow> string" where
  "strip_code_lines in_fence [] = []"
| "strip_code_lines in_fence (line # ls) =
     (if starts_with (trim_start line) ''```'' then strip_code_lines (\<not> in_fence) ls
      else if in_fence then strip_code_lines in_fence ls
      else if starts_with line ''    '' \<or> starts_with line [CHR 0x09] then strip_code_lines in_fence ls
      else strip_quoted_strings line @ [CHR 0x0A] @ strip_code_lines in_fence ls)"

definition strip_code_blocks :: "string \<Rightarrow> string" where
  "strip_code_blocks s = strip_code_lines False (lines s)"

definition intent_exclusions :: "string list" where
  "intent_exclusions =
     [''let me explain'', ''let me know'', ''let me think'', ''let me summarize'', ''let me clarify'',
      ''let me describe'', ''let me help'', ''let me understand'', ''let me break'', ''let me outline'',
      ''let me walk you'', ''let me provide'', ''let me suggest'', ''let me elaborate'', ''let me start by'']"

definition intent_prefixes :: "string list" where
  "intent_prefixes = [''let me '', ''i'' @ [CHR 0x27] @ ''ll '', ''i will '', ''i'' @ [CHR 0x27] @ ''m going to '']"

definition action_verbs :: "string list" where
  "action_verbs =
     [''search'', ''look up'', ''check'', ''fetch'', ''find'', ''read the'', ''write the'', ''create'',
      ''run the'', ''execute'', ''query'', ''retrieve'', ''add it'', ''add the'', ''add this'',
      ''add that'', ''update the'', ''delete'', ''remove the'', ''look into'']"

text \<open>What follows each match of a prefix.\<close>

definition afters :: "string \<Rightarrow> string \<Rightarrow> string list" where
  "afters p s = map (\<lambda>i. drop (i + length p) s) (filter (\<lambda>i. starts_with (drop i s) p) [0..<length s])"

definition llm_signals_tool_intent :: "string \<Rightarrow> bool" where
  "llm_signals_tool_intent response =
     (let lower = to_lowercase (strip_code_blocks response)
      in if list_ex (contains lower) intent_exclusions then False
         else list_ex (\<lambda>p. list_ex (\<lambda>rest. list_ex (\<lambda>v. starts_with rest v \<or> contains rest ('' '' @ v)) action_verbs)
                (afters p lower)) intent_prefixes)"

definition TOOL_INTENT_NUDGE :: string where
  "TOOL_INTENT_NUDGE =
     ''You said you would perform an action, but you did not include any tool calls.'' @ [CHR 0x0A] @
     ''Do NOT describe what you intend to do '' @ [CHR 0xE2, CHR 0x80, CHR 0x94] @
     '' actually call the tool now.'' @ [CHR 0x0A] @
     ''Use the tool_calls mechanism to invoke the appropriate tool.''"

definition is_ascii_punctuation :: "char \<Rightarrow> bool" where
  "is_ascii_punctuation c = (let n = of_char c :: nat
     in 33 \<le> n \<and> n \<le> 47 \<or> 58 \<le> n \<and> n \<le> 64 \<or> 91 \<le> n \<and> n \<le> 96 \<or> 123 \<le> n \<and> n \<le> 126)"

definition is_silent_reply :: "string \<Rightarrow> bool" where
  "is_silent_reply s =
     (let trimmed = trim s; token = ''NO_REPLY''
      in trimmed = token \<or>
         starts_with trimmed token \<and> length trimmed \<le> length token + 4 \<and>
         list_all (\<lambda>c. is_whitespace c \<or> is_ascii_punctuation c) (drop (length token) trimmed))"

subsection \<open>Contexts and answers\<close>

record ReasoningContext =
  rx_messages :: "ChatMessage list"
  rx_available_tools :: "ToolDefinition list"
  rx_job_description :: "string option"
  rx_current_state :: "string option"
  rx_metadata :: "(string \<times> string) list"
  rx_force_text :: bool
  rx_system_prompt :: "string option"

definition reasoning_context_new :: ReasoningContext where
  "reasoning_context_new =
     \<lparr>rx_messages = [], rx_available_tools = [], rx_job_description = None, rx_current_state = None,
      rx_metadata = [], rx_force_text = False, rx_system_prompt = None\<rparr>"

definition with_message :: "ChatMessage \<Rightarrow> ReasoningContext \<Rightarrow> ReasoningContext" where
  "with_message m ctx = ctx\<lparr>rx_messages := rx_messages ctx @ [m]\<rparr>"

record TokenUsage =
  us_input_tokens :: u32
  us_output_tokens :: u32
  us_cache_read_input_tokens :: u32
  us_cache_creation_input_tokens :: u32

datatype RespondResult = TextResult string | ToolCallsResult "ToolCall list" "string option"

record RespondOutput =
  ro_result :: RespondResult
  ro_usage :: TokenUsage

record ToolCompletionResponse =
  tp_content :: "string option"
  tp_tool_calls :: "ToolCall list"
  tp_input_tokens :: u32
  tp_output_tokens :: u32
  tp_finish_reason :: FinishReason
  tp_cache_read_input_tokens :: u32
  tp_cache_creation_input_tokens :: u32

record 'w Reasoner =
  re_complete :: "CompletionRequest \<Rightarrow> ('w, CompletionResponse) operation"
  re_complete_with_tools :: "ToolCompletionRequest \<Rightarrow> ('w, ToolCompletionResponse) operation"
  re_build_prompt :: "ToolDefinition list \<Rightarrow> string"
  re_truncate :: "string \<Rightarrow> string"
  re_clean :: "string \<Rightarrow> string"
  re_recover :: "string \<Rightarrow> ToolDefinition list \<Rightarrow> ToolCall list"

definition merge_system_messages :: "string \<Rightarrow> ChatMessage list \<Rightarrow> string" where
  "merge_system_messages primary ms =
     (let extra = map cm_content (filter (\<lambda>m. cm_role m = System) ms); nl = [CHR 0x0A, CHR 0x0A]
      in if extra = [] then primary else primary @ nl @ ''---'' @ nl @ join nl extra)"

definition fallback_text :: string where
  "fallback_text = ''I'' @ [CHR 0x27] @ ''m not sure how to respond to that.''"

definition final_text :: "'w Reasoner \<Rightarrow> string \<Rightarrow> string" where
  "final_text re content =
     (let cleaned = re_clean re (re_truncate re content)
      in if trim cleaned = [] then fallback_text else cleaned)"

definition request_messages :: "'w Reasoner \<Rightarrow> ReasoningContext \<Rightarrow> ChatMessage list" where
  "request_messages re ctx =
     (let prompt = (case rx_system_prompt ctx of Some p \<Rightarrow> p | None \<Rightarrow> re_build_prompt re (rx_available_tools ctx))
      in cm_system (merge_system_messages prompt (rx_messages ctx)) #
         filter (\<lambda>m. cm_role m \<noteq> System) (rx_messages ctx))"

text \<open>The answer to a completion with tools.\<close>

definition tool_answer :: "'w Reasoner \<Rightarrow> ReasoningContext \<Rightarrow> ToolCompletionResponse \<Rightarrow> RespondResult" where
  "tool_answer re ctx response =
     (if tp_tool_calls response \<noteq> []
      then ToolCallsResult (tp_tool_calls response)
             (map_option (\<lambda>c. re_clean re (re_truncate re c)) (tp_content response))
      else let content = (case tp_content response of Some c \<Rightarrow> c | None \<Rightarrow> fallback_text);
               recovered = re_recover re content (rx_available_tools ctx)
           in if recovered \<noteq> []
              then let cleaned = re_clean re (re_truncate re content)
                   in ToolCallsResult recovered (if cleaned = [] then None else Some cleaned)
              else TextResult (final_text re content))"

text \<open>The temperature 0.7 as the bits of an \<open>f32\<close>.\<close>

definition respond_with_tools :: "'w Reasoner \<Rightarrow> ReasoningContext \<Rightarrow> ('w, RespondOutput) operation" where
  "respond_with_tools re ctx w =
     (let messages = request_messages re ctx;
          effective_tools = (if rx_force_text ctx then [] else rx_available_tools ctx)
      in if effective_tools \<noteq> []
         then (case re_complete_with_tools re
                 ((tool_completion_request_new messages effective_tools)
                    \<lparr>tr_max_tokens := Some 4096, tr_temperature := Some 0x3F333333,
                     tr_tool_choice := Some ''auto'', tr_metadata := rx_metadata ctx\<rparr>) w of
                 (Inl e, w) \<Rightarrow> (Inl e, w)
               | (Inr response, w) \<Rightarrow>
                   (Inr \<lparr>ro_result = tool_answer re ctx response,
                         ro_usage = \<lparr>us_input_tokens = tp_input_tokens response,
                           us_output_tokens = tp_output_tokens response,
                           us_cache_read_input_tokens = tp_cache_read_input_tokens response,
                           us_cache_creation_input_tokens = tp_cache_creation_input_tokens response\<rparr>\<rparr>, w))
         else (case re_complete re
                 ((completion_request_new messages)
                    \<lparr>cr_max_tokens := Some 4096, cr_temperature := Some 0x3F333333,
                     cr_metadata := rx_metadata ctx\<rparr>) w of
                 (Inl e, w) \<Rightarrow> (Inl e, w)
               | (Inr response, w) \<Rightarrow>
                   (Inr \<lparr>ro_result = TextResult (final_text re (rs_content response)),
                         ro_usage = \<lparr>us_input_tokens = rs_input_tokens response,
                           us_output_tokens = rs_output_tokens response,
                           us_cache_read_input_tokens = rs_cache_read_input_tokens response,
                           us_cache_creation_input_tokens = rs_cache_creation_input_tokens response\<rparr>\<rparr>, w)))"

subsection \<open>Lemmas\<close>

lemma respond_forced_text:
  assumes "rx_force_text ctx" and "respond_with_tools re ctx w = (Inr out, w')"
  shows "\<exists>s. ro_result out = TextResult s"
  using assms by (auto simp: respond_with_tools_def Let_def split: prod.splits sum.splits)

lemma respond_tool_calls_nonempty:
  assumes "respond_with_tools re ctx w = (Inr out, w')" and "ro_result out = ToolCallsResult calls content"
  shows "calls \<noteq> []"
  using assms
  by (auto simp: respond_with_tools_def tool_answer_def Let_def split: prod.splits sum.splits if_splits)

lemma is_whitespace_fallback [simp]: "trim fallback_text = fallback_text" "fallback_text \<noteq> []"
  by (simp_all add: fallback_text_def trim_def is_whitespace_def)

lemma final_text_not_blank: "trim (final_text re c) \<noteq> []"
  by (simp add: final_text_def Let_def)

end
