(* ===== verification/Agentic_Loop.thy ===== *)
theory Agentic_Loop
  imports Session Reasoning
begin

text \<open>
  The loop shared by chat, jobs and containers: \<^verbatim>\<open>src/agent/agentic_loop.rs\<close>. A delegate is a record of
  its methods on its own state \<open>'s\<close> and the reasoning context; \<open>'e\<close> is the type of its errors. The
  lemmas are proved for every delegate: how often the model is called, and that an invariant every
  method keeps holds at every model call and at the end.
\<close>

datatype LoopSignal = SignalContinue | SignalStop | InjectMessage string

datatype LoopOutcome = OutResponse string | OutStopped | OutMaxIterations | OutNeedApproval PendingApproval

datatype TextAction = TextReturn LoopOutcome | TextContinue

record AgenticLoopConfig =
  lc_max_iterations :: nat
  lc_enable_tool_intent_nudge :: bool
  lc_max_tool_intent_nudges :: u32

definition loop_config_default :: AgenticLoopConfig where
  "loop_config_default =
     \<lparr>lc_max_iterations = 50, lc_enable_tool_intent_nudge = True, lc_max_tool_intent_nudges = 2\<rparr>"

record ('s, 'e) LoopDelegate =
  ld_check_signals :: "'s \<Rightarrow> LoopSignal \<times> 's"
  ld_before_llm_call :: "nat \<Rightarrow> ReasoningContext \<times> 's \<Rightarrow> LoopOutcome option \<times> ReasoningContext \<times> 's"
  ld_call_llm :: "nat \<Rightarrow> ReasoningContext \<times> 's \<Rightarrow> ('e + RespondOutput) \<times> ReasoningContext \<times> 's"
  ld_handle_text_response :: "string \<Rightarrow> ReasoningContext \<times> 's \<Rightarrow> TextAction \<times> ReasoningContext \<times> 's"
  ld_execute_tool_calls ::
    "ToolCall list \<Rightarrow> string option \<Rightarrow> ReasoningContext \<times> 's \<Rightarrow> ('e + LoopOutcome option) \<times> ReasoningContext \<times> 's"
  ld_on_tool_intent_nudge :: "string \<Rightarrow> ReasoningContext \<times> 's \<Rightarrow> ReasoningContext \<times> 's"
  ld_after_iteration :: "nat \<Rightarrow> 's \<Rightarrow> 's"

text \<open>How an iteration ends: with the result of the loop, or with the nudge counter for the next one.\<close>

datatype 'e flow = Finish "'e + LoopOutcome" | Next u32

definition push_message :: "ChatMessage \<Rightarrow> ReasoningContext \<times> 's \<Rightarrow> ReasoningContext \<times> 's" where
  "push_message m st = (case st of (rc, s) \<Rightarrow> (rc\<lparr>rx_messages := rx_messages rc @ [m]\<rparr>, s))"

definition nudge_due :: "AgenticLoopConfig \<Rightarrow> ReasoningContext \<Rightarrow> u32 \<Rightarrow> string \<Rightarrow> bool" where
  "nudge_due config rc nudges reply =
     (lc_enable_tool_intent_nudge config \<and> rx_available_tools rc \<noteq> [] \<and> \<not> rx_force_text rc \<and>
      nudges < lc_max_tool_intent_nudges config \<and> llm_signals_tool_intent reply)"

text \<open>What an iteration does with the model's answer.\<close>

definition process_result ::
    "('s, 'e) LoopDelegate \<Rightarrow> AgenticLoopConfig \<Rightarrow> nat \<Rightarrow> u32 \<Rightarrow> RespondResult \<Rightarrow> ReasoningContext \<times> 's \<Rightarrow>
       'e flow \<times> ReasoningContext \<times> 's" where
  "process_result d config iteration nudges result st =
     (case result of
        TextResult reply \<Rightarrow>
          if nudge_due config (fst st) nudges reply
          then (Next (nudges + 1),
                apsnd (ld_after_iteration d iteration)
                  (push_message (cm_user TOOL_INTENT_NUDGE)
                    (push_message (cm_assistant reply) (ld_on_tool_intent_nudge d reply st))))
          else (let nudges = (if llm_signals_tool_intent reply then nudges else 0)
                in case ld_handle_text_response d reply st of
                     (TextReturn outcome, st) \<Rightarrow> (Finish (Inr outcome), st)
                   | (TextContinue, st) \<Rightarrow> (Next nudges, apsnd (ld_after_iteration d iteration) st))
      | ToolCallsResult calls content \<Rightarrow>
          (case ld_execute_tool_calls d calls content st of
             (Inl e, st) \<Rightarrow> (Finish (Inl e), st)
           | (Inr (Some outcome), st) \<Rightarrow> (Finish (Inr outcome), st)
           | (Inr None, st) \<Rightarrow> (Next 0, apsnd (ld_after_iteration d iteration) st)))"

definition take_signal ::
    "('s, 'e) LoopDelegate \<Rightarrow> ReasoningContext \<times> 's \<Rightarrow> LoopOutcome option \<times> ReasoningContext \<times> 's" where
  "take_signal d st =
     (case st of (rc, s) \<Rightarrow>
       (case ld_check_signals d s of
          (SignalContinue, s) \<Rightarrow> (None, rc, s)
        | (SignalStop, s) \<Rightarrow> (Some OutStopped, rc, s)
        | (InjectMessage msg, s) \<Rightarrow> (None, push_message (cm_user msg) (rc, s))))"

definition loop_iteration ::
    "('s, 'e) LoopDelegate \<Rightarrow> AgenticLoopConfig \<Rightarrow> nat \<Rightarrow> u32 \<Rightarrow> ReasoningContext \<times> 's \<Rightarrow>
       'e flow \<times> ReasoningContext \<times> 's" where
  "loop_iteration d config iteration nudges st =
     (case take_signal d st of
        (Some outcome, st) \<Rightarrow> (Finish (Inr outcome), st)
      | (None, st) \<Rightarrow>
          (case ld_before_llm_call d iteration st of
             (Some outcome, st) \<Rightarrow> (Finish (Inr outcome), st)
           | (None, st) \<Rightarrow>
               (case ld_call_llm d iteration st of
                  (Inl e, st) \<Rightarrow> (Finish (Inl e), st)
                | (Inr output, st) \<Rightarrow> process_result d config iteration nudges (ro_result output) st)))"

text \<open>The iterations from \<open>iteration\<close> on, \<open>remaining\<close> of them left.\<close>

fun loop_from ::
    "('s, 'e) LoopDelegate \<Rightarrow> AgenticLoopConfig \<Rightarrow> nat \<Rightarrow> nat \<Rightarrow> u32 \<Rightarrow> ReasoningContext \<times> 's \<Rightarrow>
       ('e + LoopOutcome) \<times> ReasoningContext \<times> 's" where
  "loop_from d config iteration 0 nudges st = (Inr OutMaxIterations, st)"
| "loop_from d config iteration (Suc remaining) nudges st =
     (case loop_iteration d config iteration nudges st of
        (Finish r, st) \<Rightarrow> (r, st)
      | (Next nudges, st) \<Rightarrow> loop_from d config (iteration + 1) remaining nudges st)"

definition run_agentic_loop ::
    "('s, 'e) LoopDelegate \<Rightarrow> AgenticLoopConfig \<Rightarrow> ReasoningContext \<times> 's \<Rightarrow>
       ('e + LoopOutcome) \<times> ReasoningContext \<times> 's" where
  "run_agentic_loop d config st = loop_from d config 1 (lc_max_iterations config) 0 st"

lemma push_message_simps [simp]: "push_message m (rc, s) = (rc\<lparr>rx_messages := rx_messages rc @ [m]\<rparr>, s)"
  by (simp add: push_message_def)

text \<open>An iteration does not look at the bound on iterations.\<close>

lemma nudge_due_bound [simp]: "nudge_due (config\<lparr>lc_max_iterations := b\<rparr>) = nudge_due config"
  by (intro ext) (simp add: nudge_due_def)

lemma loop_iteration_bound [simp]: "loop_iteration d (config\<lparr>lc_max_iterations := b\<rparr>) = loop_iteration d config"
  by (intro ext) (unfold loop_iteration_def process_result_def nudge_due_bound, rule refl)

lemma loop_from_bound [simp]: "loop_from d (config\<lparr>lc_max_iterations := b\<rparr>) i k n st = loop_from d config i k n st"
  by (induction k arbitrary: i n st) (simp_all split: prod.split flow.split)

subsection \<open>The contract of a delegate\<close>

text \<open>
  A delegate keeps an invariant \<open>I\<close> of context and state, and \<open>Q\<close> holds of every outcome it gives.
  The model may be asked only in states of \<open>I\<close>.
\<close>

locale loop_delegate =
  fixes d :: "('s, 'e) LoopDelegate" and I :: "ReasoningContext \<times> 's \<Rightarrow> bool" and Q :: "LoopOutcome \<Rightarrow> bool"
  assumes signals_inv: "I (rc, s) \<Longrightarrow> ld_check_signals d s = (sig, s') \<Longrightarrow> I (rc, s')"
    and inject_inv: "I (rc, s) \<Longrightarrow> ld_check_signals d s = (InjectMessage m, s') \<Longrightarrow> I (push_message (cm_user m) (rc, s'))"
    and before_inv: "I st \<Longrightarrow> ld_before_llm_call d i st = (r0, st') \<Longrightarrow> I st'"
    and before_out: "I st \<Longrightarrow> ld_before_llm_call d i st = (Some out, st') \<Longrightarrow> Q out"
    and call_inv: "I st \<Longrightarrow> ld_call_llm d i st = (r, st') \<Longrightarrow> I st'"
    and nudge_inv: "I st \<Longrightarrow> I (push_message (cm_user TOOL_INTENT_NUDGE) (push_message (cm_assistant t) (ld_on_tool_intent_nudge d t st)))"
    and text_inv: "I st \<Longrightarrow> ld_handle_text_response d t st = (a, st') \<Longrightarrow> I st'"
    and text_out: "I st \<Longrightarrow> ld_handle_text_response d t st = (TextReturn out, st') \<Longrightarrow> Q out"
    and tools_inv: "I st \<Longrightarrow> ld_execute_tool_calls d cs c st = (r2, st') \<Longrightarrow> I st'"
    and tools_out: "I st \<Longrightarrow> ld_execute_tool_calls d cs c st = (Inr (Some out), st') \<Longrightarrow> Q out"
    and after_inv: "I (rc, s) \<Longrightarrow> I (rc, ld_after_iteration d i s)"
    and stopped: "Q OutStopped"
begin

lemma after_apsnd: "I st \<Longrightarrow> I (apsnd (ld_after_iteration d i) st)"
  by (cases st) (simp add: after_inv)

lemma process_result_ok:
  assumes "I st" and run: "process_result d config i n result st = (f, st')"
  shows "I st' \<and> (\<forall>out. f = Finish (Inr out) \<longrightarrow> Q out)"
proof (cases result)
  case (TextResult reply)
  show ?thesis
  proof (cases "nudge_due config (fst st) n reply")
    case True
    then show ?thesis using run TextResult nudge_inv [OF assms(1)] by (auto simp: process_result_def intro: after_apsnd)
  next
    case False
    obtain a st1 where h: "ld_handle_text_response d reply st = (a, st1)"
      by (cases "ld_handle_text_response d reply st") blast
    show ?thesis
      using run TextResult False h text_inv [OF assms(1) h] text_out [OF assms(1), of reply]
      by (cases a) (auto simp: process_result_def Let_def after_apsnd)
  qed
next
  case (ToolCallsResult calls content)
  obtain r st1 where e: "ld_execute_tool_calls d calls content st = (r, st1)"
    by (cases "ld_execute_tool_calls d calls content st") blast
  note inv = tools_inv [OF assms(1) e] and out = tools_out [OF assms(1), of calls content]
  consider x where "r = Inl x" | "r = Inr None" | z where "r = Inr (Some z)" by (metis sum.exhaust option.exhaust)
  then show ?thesis
    using run ToolCallsResult e inv out by cases (auto simp: process_result_def after_apsnd)
qed

lemma take_signal_ok:
  assumes "I st" and "take_signal d st = (r, st')"
  shows "I st' \<and> (\<forall>out. r = Some out \<longrightarrow> Q out)"
proof -
  obtain rc s where st: "st = (rc, s)" by (cases st)
  then show ?thesis using assms signals_inv inject_inv stopped
    by (auto simp: take_signal_def split: prod.splits LoopSignal.splits)
qed

lemma loop_iteration_ok:
  assumes "I st" and "loop_iteration d config i n st = (f, st')"
  shows "I st' \<and> (\<forall>out. f = Finish (Inr out) \<longrightarrow> Q out)"
proof -
  obtain r1 st1 where t: "take_signal d st = (r1, st1)" by (cases "take_signal d st") blast
  note ok1 = take_signal_ok [OF assms(1) t]
  show ?thesis
  proof (cases r1)
    case Some
    then show ?thesis using assms(2) ok1 t by (auto simp: loop_iteration_def)
  next
    case None
    obtain r2 st2 where b: "ld_before_llm_call d i st1 = (r2, st2)" by (cases "ld_before_llm_call d i st1") blast
    have I2: "I st2" using before_inv [OF _ b] ok1 by blast
    show ?thesis
    proof (cases r2)
      case Some
      then show ?thesis using assms(2) t b None I2 before_out [of st1 i _ st2] ok1
        by (auto simp: loop_iteration_def)
    next
      case r2: None
      obtain r3 st3 where c: "ld_call_llm d i st2 = (r3, st3)" by (cases "ld_call_llm d i st2") blast
      have I3: "I st3" using call_inv [OF I2 c] .
      show ?thesis
      proof (cases r3)
        case (Inl e)
        then show ?thesis using assms(2) t b c None r2 I3 by (auto simp: loop_iteration_def)
      next
        case (Inr out)
        then have "process_result d config i n (ro_result out) st3 = (f, st')"
          using assms(2) t b c None r2 by (simp add: loop_iteration_def)
        from process_result_ok [OF I3 this] show ?thesis .
      qed
    qed
  qed
qed

lemma loop_from_ok:
  assumes "I st" and "loop_from d config i k n st = (r, st')"
  shows "I st' \<and> (\<forall>out. r = Inr out \<longrightarrow> out = OutMaxIterations \<or> Q out)"
  using assms
proof (induction k arbitrary: i n st)
  case 0
  then show ?case by auto
next
  case (Suc k)
  obtain f st1 where s: "loop_iteration d config i n st = (f, st1)" by (cases "loop_iteration d config i n st") blast
  note ok = loop_iteration_ok [OF Suc.prems(1) s]
  show ?case
  proof (cases f)
    case (Finish x)
    then show ?thesis using Suc.prems(2) s ok by auto
  next
    case (Next m)
    then show ?thesis using Suc.IH [of st1 "i + 1" m] Suc.prems(2) s ok by auto
  qed
qed

lemma run_ok:
  assumes "I st" and "run_agentic_loop d config st = (r, st')"
  shows "I st'" and "r = Inr out \<Longrightarrow> out = OutMaxIterations \<or> Q out"
  using loop_from_ok [OF assms(1) assms(2) [unfolded run_agentic_loop_def]] by auto

text \<open>A second delegate that answers differently only outside \<open>I\<close> cannot be told apart.\<close>

lemma loop_iteration_cong:
  assumes "I st" and same: "\<And>i st. I st \<Longrightarrow> c' i st = ld_call_llm d i st"
  shows "loop_iteration (d\<lparr>ld_call_llm := c'\<rparr>) config i n st = loop_iteration d config i n st"
proof -
  obtain r1 st1 where t: "take_signal d st = (r1, st1)" by (cases "take_signal d st") blast
  have t': "take_signal (d\<lparr>ld_call_llm := c'\<rparr>) st = (r1, st1)" using t by (simp add: take_signal_def)
  have I1: "I st1" using take_signal_ok [OF assms(1) t] by blast
  obtain r2 st2 where b: "ld_before_llm_call d i st1 = (r2, st2)" by (cases "ld_before_llm_call d i st1") blast
  have I2: "I st2" using before_inv [OF I1 b] .
  let ?d = "d\<lparr>ld_call_llm := c'\<rparr>"
  have fields: "ld_after_iteration ?d = ld_after_iteration d" "ld_execute_tool_calls ?d = ld_execute_tool_calls d"
    "ld_handle_text_response ?d = ld_handle_text_response d" "ld_on_tool_intent_nudge ?d = ld_on_tool_intent_nudge d"
    by simp_all
  have p: "process_result (d\<lparr>ld_call_llm := c'\<rparr>) config i n res st = process_result d config i n res st" for res st
    unfolding process_result_def fields ..
  show ?thesis
    by (cases r1; cases r2) (simp_all add: loop_iteration_def t t' b same [OF I2] p split: prod.split sum.split)
qed

lemma loop_from_cong:
  assumes "I st" and same: "\<And>i st. I st \<Longrightarrow> c' i st = ld_call_llm d i st"
  shows "loop_from (d\<lparr>ld_call_llm := c'\<rparr>) config i k n st = loop_from d config i k n st"
  using assms(1)
proof (induction k arbitrary: i n st)
  case (Suc k)
  obtain f st1 where s: "loop_iteration d config i n st = (f, st1)" by (cases "loop_iteration d config i n st") blast
  have "I st1" using loop_iteration_ok [OF Suc.prems s] by blast
  then show ?case using Suc.IH s by (simp add: loop_iteration_cong [OF Suc.prems same] split: flow.split)
qed simp

text \<open>
  If the delegate ends every iteration from number \<open>m\<close> on, the loop ends there and never runs out of
  iterations; further ones would change nothing.
\<close>

lemma loop_from_ends:
  assumes ends: "\<And>i n st. I st \<Longrightarrow> m \<le> i \<Longrightarrow> \<exists>r st'. loop_iteration d config i n st = (Finish r, st')"
    and "I st" and "0 < k" and "m < i + k" and "\<not> Q OutMaxIterations"
  shows "fst (loop_from d config i k n st) \<noteq> Inr OutMaxIterations \<and>
    loop_from d config i (k + extra) n st = loop_from d config i k n st"
  using assms(2-4)
proof (induction k arbitrary: i n st)
  case (Suc k)
  obtain f st1 where s: "loop_iteration d config i n st = (f, st1)" by (cases "loop_iteration d config i n st") blast
  note ok = loop_iteration_ok [OF Suc.prems(1) s]
  show ?case
  proof (cases f)
    case (Finish r)
    then show ?thesis using ok s assms(5) by auto
  next
    case (Next n')
    have "i < m" using ends [OF Suc.prems(1), of i n] s Next by (metis flow.distinct(1) not_le prod.inject)
    then have "0 < k" "m < (i + 1) + k" using Suc.prems(3) by auto
    with Suc.IH [of st1 "i + 1" n'] ok s Next show ?thesis by simp
  qed
qed simp

end

end
