(* ===== verification/Undo.thy ===== *)
theory Undo
  imports Chat
begin

text \<open>
  Checkpoints of a conversation: \<^verbatim>\<open>src/agent/undo.rs\<close>. The undo stack is a bounded log; the lemmas
  show that the two stacks together stay within the limit, that undo and redo move along one
  history without losing a checkpoint, and that they are inverse to each other.
\<close>

definition DEFAULT_MAX_CHECKPOINTS :: nat where
  "DEFAULT_MAX_CHECKPOINTS = 20"

record Checkpoint =
  cp_id :: uuid
  cp_turn_number :: nat
  cp_messages :: "ChatMessage list"
  cp_description :: string

definition checkpoint_new :: "uuid \<Rightarrow> nat \<Rightarrow> ChatMessage list \<Rightarrow> string \<Rightarrow> Checkpoint" where
  "checkpoint_new new_id n ms d =
     \<lparr>cp_id = new_id, cp_turn_number = n, cp_messages = ms, cp_description = d\<rparr>"

text \<open>The top of each stack is its last element, as in \<open>push_back\<close> and \<open>Vec::push\<close>.\<close>

record UndoManager =
  um_undo_stack :: "Checkpoint list"
  um_redo_stack :: "Checkpoint list"
  um_max_checkpoints :: nat

definition undo_manager_new :: UndoManager where
  "undo_manager_new =
     \<lparr>um_undo_stack = [], um_redo_stack = [], um_max_checkpoints = DEFAULT_MAX_CHECKPOINTS\<rparr>"

definition push_undo :: "Checkpoint \<Rightarrow> UndoManager \<Rightarrow> UndoManager" where
  "push_undo cp um =
     um\<lparr>um_undo_stack := pop_front_while (um_max_checkpoints um) (um_undo_stack um @ [cp])\<rparr>"

definition checkpoint :: "uuid \<Rightarrow> nat \<Rightarrow> ChatMessage list \<Rightarrow> string \<Rightarrow> UndoManager \<Rightarrow> UndoManager" where
  "checkpoint new_id n ms d um = push_undo (checkpoint_new new_id n ms d) (um\<lparr>um_redo_stack := []\<rparr>)"

text \<open>\<open>pop_back\<close> and \<open>Vec::pop\<close>.\<close>

definition pop_last :: "'a list \<Rightarrow> 'a option \<times> 'a list" where
  "pop_last xs = (if xs = [] then (None, []) else (Some (last xs), butlast xs))"

definition undo :: "uuid \<Rightarrow> nat \<Rightarrow> ChatMessage list \<Rightarrow> UndoManager \<Rightarrow> Checkpoint option \<times> UndoManager" where
  "undo new_id current_turn current_messages um =
     (if um_undo_stack um = [] then (None, um)
      else let current = checkpoint_new new_id current_turn current_messages
                           (''Turn '' @ show_nat current_turn);
               um = um\<lparr>um_redo_stack := um_redo_stack um @ [current]\<rparr>
           in case pop_last (um_undo_stack um) of (cp, us) \<Rightarrow> (cp, um\<lparr>um_undo_stack := us\<rparr>))"

definition redo :: "uuid \<Rightarrow> nat \<Rightarrow> ChatMessage list \<Rightarrow> UndoManager \<Rightarrow> Checkpoint option \<times> UndoManager" where
  "redo new_id current_turn current_messages um =
     (if um_redo_stack um = [] then (None, um)
      else let current = checkpoint_new new_id current_turn current_messages
                           (''Turn '' @ show_nat current_turn);
               um = push_undo current um
           in case pop_last (um_redo_stack um) of (cp, rs) \<Rightarrow> (cp, um\<lparr>um_redo_stack := rs\<rparr>))"

definition can_undo :: "UndoManager \<Rightarrow> bool" where
  "can_undo um = (um_undo_stack um \<noteq> [])"

definition can_redo :: "UndoManager \<Rightarrow> bool" where
  "can_redo um = (um_redo_stack um \<noteq> [])"

definition undo_count :: "UndoManager \<Rightarrow> nat" where
  "undo_count um = length (um_undo_stack um)"

definition redo_count :: "UndoManager \<Rightarrow> nat" where
  "redo_count um = length (um_redo_stack um)"

definition undo_clear :: "UndoManager \<Rightarrow> UndoManager" where
  "undo_clear um = um\<lparr>um_undo_stack := [], um_redo_stack := []\<rparr>"

text \<open>\<open>while len > pos + 1 { pop_back }\<close> keeps the first \<open>pos + 1\<close> elements.\<close>

definition restore :: "uuid \<Rightarrow> UndoManager \<Rightarrow> Checkpoint option \<times> UndoManager" where
  "restore checkpoint_id um =
     (case position (\<lambda>c. cp_id c = checkpoint_id) (um_undo_stack um) of
        None \<Rightarrow> (None, um)
      | Some pos \<Rightarrow>
          (let um = um\<lparr>um_redo_stack := [], um_undo_stack := take (pos + 1) (um_undo_stack um)\<rparr>
           in case pop_last (um_undo_stack um) of (cp, us) \<Rightarrow> (cp, um\<lparr>um_undo_stack := us\<rparr>)))"

subsection \<open>The undo stack is a bounded log\<close>

interpretation undo_log: bounded_log push_undo um_undo_stack um_max_checkpoints "\<lambda>_. True"
  by unfold_locales (simp_all add: push_undo_def pop_front_while_eq)

lemma push_undo_frame [frame_simps]:
  "um_redo_stack (push_undo cp um) = um_redo_stack um"
  "um_max_checkpoints (push_undo cp um) = um_max_checkpoints um"
  by (simp_all add: push_undo_def)

lemma push_undo_room:
  "length (um_undo_stack um) < um_max_checkpoints um \<Longrightarrow> um_undo_stack (push_undo cp um) = um_undo_stack um @ [cp]"
  by (simp add: push_undo_def pop_front_while_eq last_n_all)

subsection \<open>Steps\<close>

inductive um_step :: "UndoManager \<Rightarrow> UndoManager \<Rightarrow> bool" where
  "um_step um (checkpoint i n ms d um)"
| "um_step um (snd (undo i n ms um))"
| "um_step um (snd (redo i n ms um))"
| "um_step um (undo_clear um)"
| "um_step um (snd (restore i um))"

abbreviation um_total :: "UndoManager \<Rightarrow> nat" where
  "um_total um \<equiv> undo_count um + redo_count um"

definition um_inv :: "UndoManager \<Rightarrow> bool" where
  "um_inv um = (um_total um \<le> um_max_checkpoints um)"

lemma undo_total: "um_total (snd (undo i n ms um)) = um_total um"
  by (auto simp: undo_def pop_last_def undo_count_def redo_count_def Let_def)

lemma redo_total: "um_inv um \<Longrightarrow> um_total (snd (redo i n ms um)) = um_total um"
proof (cases "um_redo_stack um = []")
  case False
  assume "um_inv um"
  with False have "length (um_undo_stack um) < um_max_checkpoints um"
    by (cases "um_redo_stack um") (auto simp: um_inv_def undo_count_def redo_count_def)
  from push_undo_room [OF this] False show ?thesis
    by (cases "um_redo_stack um" rule: rev_cases)
       (auto simp: redo_def pop_last_def undo_count_def redo_count_def Let_def frame_simps)
qed (simp add: redo_def)

lemma um_max_kept [frame_simps]:
  "um_max_checkpoints (checkpoint i n ms d um) = um_max_checkpoints um"
  "um_max_checkpoints (snd (undo i n ms um)) = um_max_checkpoints um"
  "um_max_checkpoints (snd (redo i n ms um)) = um_max_checkpoints um"
  "um_max_checkpoints (undo_clear um) = um_max_checkpoints um"
  "um_max_checkpoints (snd (restore j um)) = um_max_checkpoints um"
  by (simp_all add: checkpoint_def undo_def redo_def undo_clear_def restore_def pop_last_def Let_def
      frame_simps split: option.split)

lemma checkpoint_inv: "um_inv (checkpoint i n ms d um)"
  using undo_log.length_push [OF TrueI, of "checkpoint_new i n ms d" "um\<lparr>um_redo_stack := []\<rparr>"]
  by (simp add: um_inv_def checkpoint_def undo_count_def redo_count_def frame_simps)

lemma restore_total: "um_total (snd (restore j um)) \<le> um_total um"
  by (auto simp: restore_def pop_last_def undo_count_def redo_count_def Let_def split: option.split)

lemma um_step_inv:
  assumes "um_step um um'" and inv: "um_inv um"
  shows "um_inv um'"
  using assms(1)
proof cases
  case (2 i n ms)
  then show ?thesis using inv undo_total [of i n ms um] by (simp add: um_inv_def frame_simps)
next
  case (3 i n ms)
  then show ?thesis using inv redo_total [OF inv, of i n ms] by (simp add: um_inv_def frame_simps)
next
  case (5 i)
  then show ?thesis using inv restore_total [of i um] by (simp add: um_inv_def frame_simps)
qed (simp_all add: checkpoint_inv, simp add: um_inv_def undo_clear_def undo_count_def redo_count_def)

lemma um_steps_inv: "um_step\<^sup>*\<^sup>* um um' \<Longrightarrow> um_inv um \<Longrightarrow> um_inv um'"
  by (induction rule: rtranclp_induct) (auto intro: um_step_inv)

lemma um_steps_max: "um_step\<^sup>*\<^sup>* um um' \<Longrightarrow> um_max_checkpoints um' = um_max_checkpoints um"
  by (induction rule: rtranclp_induct) (auto simp: frame_simps elim!: um_step.cases)

lemma um_inv_new [simp]: "um_inv undo_manager_new"
  by (simp add: um_inv_def undo_manager_new_def undo_count_def redo_count_def)

text \<open>
  Also: Whatever is called on a new undo manager, the undo and redo stacks together never
  hold more than the twenty checkpoints of the limit, and undo and redo only move between the
  stacks: neither changes their total, so that redo never pushes a checkpoint out.
\<close>

theorem undo_total_bounded:
  assumes "um_step\<^sup>*\<^sup>* undo_manager_new um"
  shows "undo_count um + redo_count um \<le> DEFAULT_MAX_CHECKPOINTS \<and>
    (let um' = snd (undo i n ms um) in undo_count um' + redo_count um' = undo_count um + redo_count um) \<and>
    (let um' = snd (redo i n ms um) in undo_count um' + redo_count um' = undo_count um + redo_count um)"
proof -
  have "um_inv um" by (rule um_steps_inv [OF assms um_inv_new])
  with um_steps_max [OF assms] undo_total [of i n ms um] redo_total [of um i n ms] show ?thesis
    by (simp add: um_inv_def undo_manager_new_def Let_def)
qed

lemma demo_checkpoint_step: "um_step\<^sup>*\<^sup>* undo_manager_new (checkpoint 1 0 [] ''start'' undo_manager_new)"
  by (intro r_into_rtranclp um_step.intros)

theorem undo_total_bounded_witness:
  "undo_count (snd (undo 2 1 [cm_user ''hi''] (checkpoint 1 0 [] ''start'' undo_manager_new))) +
   redo_count (snd (undo 2 1 [cm_user ''hi''] (checkpoint 1 0 [] ''start'' undo_manager_new))) = 1"
proof -
  have "undo_count (checkpoint 1 0 [] ''start'' undo_manager_new) +
      redo_count (checkpoint 1 0 [] ''start'' undo_manager_new) = 1"
    by code_simp
  with undo_total_bounded [OF demo_checkpoint_step, of 2 1 "[cm_user ''hi'']"] show ?thesis
    by (simp add: Let_def)
qed

subsection \<open>Undo and redo are inverse\<close>

definition cp_state :: "Checkpoint \<Rightarrow> nat \<times> ChatMessage list" where
  "cp_state cp = (cp_turn_number cp, cp_messages cp)"

text \<open>The history a user can navigate: the states of the two stacks.\<close>

definition um_states :: "UndoManager \<Rightarrow> (nat \<times> ChatMessage list) list \<times> (nat \<times> ChatMessage list) list" where
  "um_states um = (map cp_state (um_undo_stack um), map cp_state (um_redo_stack um))"

lemma pop_last_snoc [simp]: "pop_last (xs @ [x]) = (Some x, xs)"
  by (simp add: pop_last_def)

lemma undo_states:
  "um_states um = (us @ [s], rs) \<Longrightarrow>
   um_states (snd (undo i n ms um)) = (us, rs @ [(n, ms)]) \<and> map_option cp_state (fst (undo i n ms um)) = Some s"
  by (cases "um_undo_stack um" rule: rev_cases)
     (auto simp: um_states_def undo_def Let_def checkpoint_new_def cp_state_def)

lemma redo_states:
  assumes "um_inv um" and "um_states um = (us, rs @ [s])"
  shows "um_states (snd (redo i n ms um)) = (us @ [(n, ms)], rs) \<and>
    map_option cp_state (fst (redo i n ms um)) = Some s"
proof -
  have "um_redo_stack um \<noteq> []" using assms(2) by (auto simp: um_states_def)
  with assms(1) have "length (um_undo_stack um) < um_max_checkpoints um"
    by (cases "um_redo_stack um") (auto simp: um_inv_def undo_count_def redo_count_def)
  from push_undo_room [OF this] assms(2) show ?thesis
    by (cases "um_redo_stack um" rule: rev_cases)
       (auto simp: um_states_def redo_def Let_def checkpoint_new_def cp_state_def frame_simps)
qed

lemma undo_some:
  assumes "can_undo um"
  obtains us s rs where "um_states um = (us @ [s], rs)"
  using assms by (cases "um_undo_stack um" rule: rev_cases) (auto simp: can_undo_def um_states_def)

lemma redo_some:
  assumes "can_redo um"
  obtains us s rs where "um_states um = (us, rs @ [s])"
  using assms by (cases "um_redo_stack um" rule: rev_cases) (auto simp: can_redo_def um_states_def)

lemma undo_inv: "um_inv um \<Longrightarrow> um_inv (snd (undo i n ms um))"
  using um_step_inv [OF um_step.intros(2)] .

text \<open>
  Also: In every reachable undo manager, an undo followed by a redo that saves the undone
  state returns exactly the state the undo was asked to save and leaves both histories as they
  were, and so does a redo followed by an undo.
\<close>

theorem undo_redo_inverse:
  assumes reach: "um_step\<^sup>*\<^sup>* undo_manager_new um"
  shows "(can_undo um \<longrightarrow> (\<exists>cp um1. undo i n ms um = (Some cp, um1) \<and>
      (\<exists>cp' um2. redo j (cp_turn_number cp) (cp_messages cp) um1 = (Some cp', um2) \<and>
         cp_turn_number cp' = n \<and> cp_messages cp' = ms \<and> um_states um2 = um_states um))) \<and>
    (can_redo um \<longrightarrow> (\<exists>cp um1. redo i n ms um = (Some cp, um1) \<and>
      (\<exists>cp' um2. undo j (cp_turn_number cp) (cp_messages cp) um1 = (Some cp', um2) \<and>
         cp_turn_number cp' = n \<and> cp_messages cp' = ms \<and> um_states um2 = um_states um)))"
proof (intro conjI impI)
  have inv: "um_inv um" by (rule um_steps_inv [OF reach um_inv_new])
  {
    assume "can_undo um"
    then obtain us s rs where st: "um_states um = (us @ [s], rs)" by (rule undo_some)
    obtain cp um1 where u: "undo i n ms um = (Some cp, um1)" and s: "cp_state cp = s"
      and st1: "um_states um1 = (us, rs @ [(n, ms)])"
      using undo_states [OF st, of i n ms] by (cases "undo i n ms um") auto
    have "um_inv um1" using undo_inv [OF inv, of i n ms] u by simp
    from redo_states [OF this st1, of j "cp_turn_number cp" "cp_messages cp"] u s st
    show "\<exists>cp um1. undo i n ms um = (Some cp, um1) \<and>
      (\<exists>cp' um2. redo j (cp_turn_number cp) (cp_messages cp) um1 = (Some cp', um2) \<and>
         cp_turn_number cp' = n \<and> cp_messages cp' = ms \<and> um_states um2 = um_states um)"
      by (cases "redo j (cp_turn_number cp) (cp_messages cp) um1") (auto simp: cp_state_def)
  next
    assume "can_redo um"
    then obtain us s rs where st: "um_states um = (us, rs @ [s])" by (rule redo_some)
    obtain cp um1 where r: "redo i n ms um = (Some cp, um1)" and s: "cp_state cp = s"
      and st1: "um_states um1 = (us @ [(n, ms)], rs)"
      using redo_states [OF inv st, of i n ms] by (cases "redo i n ms um") auto
    from undo_states [OF st1, of j "cp_turn_number cp" "cp_messages cp"] r s st
    show "\<exists>cp um1. redo i n ms um = (Some cp, um1) \<and>
      (\<exists>cp' um2. undo j (cp_turn_number cp) (cp_messages cp) um1 = (Some cp', um2) \<and>
         cp_turn_number cp' = n \<and> cp_messages cp' = ms \<and> um_states um2 = um_states um)"
      by (cases "undo j (cp_turn_number cp) (cp_messages cp) um1") (auto simp: cp_state_def)
  }
qed

theorem undo_redo_inverse_witness:
  "\<exists>cp um1. undo 2 5 [cm_user ''hi''] (checkpoint 1 0 [] ''start'' undo_manager_new) = (Some cp, um1) \<and>
     (\<exists>cp' um2. redo 3 (cp_turn_number cp) (cp_messages cp) um1 = (Some cp', um2) \<and>
        cp_turn_number cp' = 5 \<and> cp_messages cp' = [cm_user ''hi''] \<and>
        um_states um2 = um_states (checkpoint 1 0 [] ''start'' undo_manager_new))"
proof -
  have "can_undo (checkpoint 1 0 [] ''start'' undo_manager_new)" by code_simp
  then show ?thesis
    using undo_redo_inverse [OF demo_checkpoint_step, of 2 5 "[cm_user ''hi'']" 3] by blast
qed

text \<open>
  Also: Resuming from a checkpoint returns the first one stored under that id and keeps
  exactly the checkpoints before it, with nothing left to redo; an unknown id changes nothing.
\<close>

theorem restore_spec:
  "(case find (\<lambda>c. cp_id c = i) (um_undo_stack um) of
      None \<Rightarrow> restore i um = (None, um)
    | Some cp \<Rightarrow> restore i um =
        (Some cp, um\<lparr>um_undo_stack := takeWhile (\<lambda>c. cp_id c \<noteq> i) (um_undo_stack um), um_redo_stack := []\<rparr>))"
proof -
  have cut: "find p xs = Some x \<Longrightarrow> take (Suc (length (takeWhile (\<lambda>x. \<not> p x) xs))) xs = takeWhile (\<lambda>x. \<not> p x) xs @ [x]"
    for p :: "'a \<Rightarrow> bool" and xs x
    by (induction xs) (auto split: if_splits)
  show ?thesis
    by (auto simp: restore_def position_eq Let_def cut split: option.split)
qed


subsection \<open>Refinement: a timeline with a cursor\<close>

text \<open>
  What the user sees: one list of states with a cursor on the current one. Undo and redo only move the cursor; a new
  turn forgets what lies after the cursor, and the oldest state once the limit is reached.
\<close>

type_synonym conv_state = "nat \<times> ChatMessage list"

datatype edit = Advance uuid string conv_state | Undo uuid | Redo uuid | Clear conv_state

type_synonym timeline = "conv_state list \<times> nat"

fun timeline_edit :: "nat \<Rightarrow> edit \<Rightarrow> timeline \<Rightarrow> timeline" where
  "timeline_edit limit (Advance _ _ s) (xs, p) =
     (let ys = take (p + 1) xs @ [s] in (drop (length ys - (limit + 1)) ys, min (p + 1) limit))"
| "timeline_edit limit (Undo _) (xs, p) = (xs, p - 1)"
| "timeline_edit limit (Redo _) (xs, p) = (xs, if p + 1 < length xs then p + 1 else p)"
| "timeline_edit limit (Clear s) _ = ([s], 0)"

text \<open>What the handlers of \<^verbatim>\<open>src/agent/thread_ops.rs\<close> do with the undo manager and the state of the thread.\<close>

fun manager_edit :: "edit \<Rightarrow> UndoManager \<times> conv_state \<Rightarrow> UndoManager \<times> conv_state" where
  "manager_edit (Advance i d s) (um, (n, ms)) = (checkpoint i n ms d um, s)"
| "manager_edit (Undo i) (um, (n, ms)) =
     (case undo i n ms um of (None, um) \<Rightarrow> (um, (n, ms)) | (Some cp, um) \<Rightarrow> (um, cp_state cp))"
| "manager_edit (Redo i) (um, (n, ms)) =
     (case redo i n ms um of (None, um) \<Rightarrow> (um, (n, ms)) | (Some cp, um) \<Rightarrow> (um, cp_state cp))"
| "manager_edit (Clear s) (um, _) = (undo_clear um, s)"

definition timeline_of :: "UndoManager \<times> conv_state \<Rightarrow> timeline" where
  "timeline_of st = (case st of (um, s) \<Rightarrow>
     (map cp_state (um_undo_stack um) @ [s] @ rev (map cp_state (um_redo_stack um)), undo_count um))"

lemma timeline_of_states:
  "um_states um = (us, rs) \<Longrightarrow> timeline_of (um, s) = (us @ [s] @ rev rs, length us)"
  by (auto simp: timeline_of_def um_states_def undo_count_def)

lemma checkpoint_states:
  "um_states (checkpoint i n ms d um) = (last_n (um_max_checkpoints um) (map cp_state (um_undo_stack um) @ [(n, ms)]), [])"
  by (simp add: um_states_def checkpoint_def push_undo_def pop_front_while_eq checkpoint_new_def cp_state_def last_n_def drop_map [symmetric])

lemma manager_edit_inv:
  "um_inv (fst st) \<Longrightarrow> um_inv (fst (manager_edit e st)) \<and>
     um_max_checkpoints (fst (manager_edit e st)) = um_max_checkpoints (fst st)"
proof -
  assume inv: "um_inv (fst st)"
  have "um_step (fst st) (fst (manager_edit e st))"
  proof (cases "(e, st)" rule: manager_edit.cases)
    case (2 i um n ms)
    then show ?thesis using um_step.intros(2) [of um i n ms] by (auto split: prod.split option.split)
  next
    case (3 i um n ms)
    then show ?thesis using um_step.intros(3) [of um i n ms] by (auto split: prod.split option.split)
  qed (auto intro: um_step.intros)
  with inv show ?thesis using um_step_inv um_steps_max [OF r_into_rtranclp] by blast
qed

lemma timeline_advance:
  "timeline_of (manager_edit (Advance i d s) (um, c)) = timeline_edit (um_max_checkpoints um) (Advance i d s) (timeline_of (um, c))"
proof -
  obtain n ms where c: "c = (n, ms)" by (cases c)
  show ?thesis
    by (simp add: c timeline_of_states [OF checkpoint_states] timeline_of_states [of um, OF um_states_def] last_n_def Let_def)
       (cases "um_max_checkpoints um"; auto)
qed

lemma timeline_undo:
  "timeline_of (manager_edit (Undo i) (um, c)) = timeline_edit limit (Undo i) (timeline_of (um, c))"
proof (cases "can_undo um")
  case True
  then obtain us s rs where st: "um_states um = (us @ [s], rs)" by (rule undo_some)
  obtain n ms where c: "c = (n, ms)" by (cases c)
  obtain cp um1 where u: "undo i n ms um = (Some cp, um1)" "cp_state cp = s" "um_states um1 = (us, rs @ [(n, ms)])"
    using undo_states [OF st, of i n ms] by (cases "undo i n ms um") auto
  then show ?thesis using timeline_of_states [OF st] timeline_of_states [OF u(3)] by (simp add: c)
qed (cases c, simp add: can_undo_def undo_def timeline_of_def undo_count_def)

lemma timeline_redo:
  assumes "um_inv um"
  shows "timeline_of (manager_edit (Redo i) (um, c)) = timeline_edit limit (Redo i) (timeline_of (um, c))"
proof (cases "can_redo um")
  case True
  then obtain us s rs where st: "um_states um = (us, rs @ [s])" by (rule redo_some)
  obtain n ms where c: "c = (n, ms)" by (cases c)
  obtain cp um1 where r: "redo i n ms um = (Some cp, um1)" "cp_state cp = s" "um_states um1 = (us @ [(n, ms)], rs)"
    using redo_states [OF assms st, of i n ms] by (cases "redo i n ms um") auto
  then show ?thesis using timeline_of_states [OF st] timeline_of_states [OF r(3)] by (simp add: c)
qed (cases c, simp add: can_redo_def redo_def timeline_of_def undo_count_def)

lemma timeline_step:
  assumes "um_inv (fst st)"
  shows "timeline_of (manager_edit e st) = timeline_edit (um_max_checkpoints (fst st)) e (timeline_of st)"
proof (cases e; cases st)
  fix s um c assume "e = Clear s" "st = (um, c)"
  then show ?thesis by (simp add: timeline_of_def undo_clear_def undo_count_def split: prod.split)
qed (use assms timeline_advance timeline_undo timeline_redo in auto)

lemma timeline_fold:
  "um_inv (fst st) \<Longrightarrow> timeline_of (fold manager_edit es st) = fold (timeline_edit (um_max_checkpoints (fst st))) es (timeline_of st)"
proof (induction es arbitrary: st)
  case (Cons e es)
  then show ?case using manager_edit_inv [of st e] by (simp add: timeline_step)
qed simp

lemma undo_max_new: "um_max_checkpoints undo_manager_new = DEFAULT_MAX_CHECKPOINTS"
  by (simp add: undo_manager_new_def)

text \<open>
  Property C38. The two stacks of the undo manager refine a single timeline with a cursor: after any sequence of new
  turns, undos, redos and clears, the stacks around the current state are exactly the timeline that
  moving a cursor gives, and the current state of the thread is the one under the cursor.
\<close>

theorem undo_refines_timeline:
  defines "concrete \<equiv> \<lambda>es s. fold manager_edit es (undo_manager_new, s)"
    and "abstract \<equiv> \<lambda>es s. fold (timeline_edit DEFAULT_MAX_CHECKPOINTS) es ([s], 0)"
  shows "timeline_of (concrete es s) = abstract es s \<and> snd (concrete es s) = fst (abstract es s) ! snd (abstract es s)"
proof -
  have "timeline_of (undo_manager_new, s) = ([s], 0)" by (simp add: timeline_of_def undo_manager_new_def undo_count_def)
  then have eq: "timeline_of (concrete es s) = abstract es s"
    using timeline_fold [of "(undo_manager_new, s)" es] unfolding concrete_def abstract_def
    by (simp add: undo_max_new)
  moreover have "snd st = fst (timeline_of st) ! snd (timeline_of st)" for st
    by (simp add: timeline_of_def undo_count_def nth_append split: prod.split)
  ultimately show ?thesis by metis
qed

end
