(* ===== verification/Session_Manager.thy ===== *)
theory Session_Manager
  imports Session Undo
begin

text \<open>
  The registry of sessions, of the mapping from channel threads to internal threads, and of the
  undo managers: \<^verbatim>\<open>src/agent/session_manager.rs\<close>. Sessions and undo managers, shared objects behind
  locks in the code, are stored by value and written back by whoever updates them. The lemmas show
  that a channel thread always resolves to the same existing thread, that distinct channel threads
  never share one, and what pruning removes.

  New ids and the time are arguments; \<open>Uuid::parse_str\<close> and \<open>Uuid::to_string\<close> are parameters. Each
  operation is one atomic step; session hooks are notifications and are left out.
\<close>

record ThreadKey =
  tk_user_id :: string
  tk_channel :: string
  tk_external_thread_id :: "string option"

record SessionManager =
  sg_sessions :: "(string \<times> Session) list"
  sg_thread_map :: "(ThreadKey \<times> uuid) list"
  sg_undo_managers :: "(uuid \<times> UndoManager) list"

definition session_manager_new :: SessionManager where
  "session_manager_new = \<lparr>sg_sessions = [], sg_thread_map = [], sg_undo_managers = []\<rparr>"

definition get_or_create_session ::
    "uuid \<times> datetime \<Rightarrow> string \<Rightarrow> SessionManager \<Rightarrow> Session \<times> SessionManager" where
  "get_or_create_session env user_id sg =
     (case map_of (sg_sessions sg) user_id of
        Some session \<Rightarrow> (session, sg)
      | None \<Rightarrow>
          (let session = session_new (fst env) (snd env) user_id
           in (session, sg\<lparr>sg_sessions := AList.update user_id session (sg_sessions sg)\<rparr>)))"

text \<open>The write-back of a session updated under its lock.\<close>

definition put_session :: "string \<Rightarrow> Session \<Rightarrow> SessionManager \<Rightarrow> SessionManager" where
  "put_session user_id s sg = sg\<lparr>sg_sessions := AList.update user_id s (sg_sessions sg)\<rparr>"

definition entry_or_insert :: "'k \<Rightarrow> 'v \<Rightarrow> ('k \<times> 'v) list \<Rightarrow> ('k \<times> 'v) list" where
  "entry_or_insert k v m = (case map_of m k of Some _ \<Rightarrow> m | None \<Rightarrow> AList.update k v m)"

text \<open>The thread an external id names directly, when no mapping uses it yet.\<close>

definition adoptable ::
    "(string \<Rightarrow> uuid option) \<Rightarrow> string option \<Rightarrow> Session \<Rightarrow> SessionManager \<Rightarrow> uuid option" where
  "adoptable parse_uuid external_thread_id session sg =
     (case Option.bind external_thread_id parse_uuid of
        Some ext_uuid \<Rightarrow>
          if ext_uuid \<notin> set (vals (sg_thread_map sg)) \<and> ext_uuid \<in> set (keys (se_threads session))
          then Some ext_uuid else None
      | None \<Rightarrow> None)"

definition resolve_thread ::
    "(string \<Rightarrow> uuid option) \<Rightarrow> uuid \<Rightarrow> uuid \<Rightarrow> datetime \<Rightarrow> string \<Rightarrow> string \<Rightarrow> string option \<Rightarrow>
       SessionManager \<Rightarrow> uuid \<times> SessionManager" where
  "resolve_thread parse_uuid new_session_id new_thread_id now user_id channel external_thread_id sg =
     (let (session, sg) = get_or_create_session (new_session_id, now) user_id sg;
          key = \<lparr>tk_user_id = user_id, tk_channel = channel, tk_external_thread_id = external_thread_id\<rparr>;
          mapped = (case map_of (sg_thread_map sg) key of
              Some thread_id \<Rightarrow> if thread_id \<in> set (keys (se_threads session)) then Some thread_id else None
            | None \<Rightarrow> None)
      in case mapped of
           Some thread_id \<Rightarrow> (thread_id, sg)
         | None \<Rightarrow>
             (case adoptable parse_uuid external_thread_id session sg of
                Some ext_uuid \<Rightarrow>
                  (ext_uuid,
                   sg\<lparr>sg_thread_map := AList.update key ext_uuid (sg_thread_map sg),
                      sg_undo_managers := entry_or_insert ext_uuid undo_manager_new (sg_undo_managers sg)\<rparr>)
              | None \<Rightarrow>
                  (let (thread_id, session) = create_thread new_thread_id now session;
                       sg = put_session user_id session sg
                   in (thread_id,
                       sg\<lparr>sg_thread_map := AList.update key thread_id (sg_thread_map sg),
                          sg_undo_managers := AList.update thread_id undo_manager_new (sg_undo_managers sg)\<rparr>))))"

definition register_thread ::
    "(uuid \<Rightarrow> string) \<Rightarrow> string \<Rightarrow> string \<Rightarrow> uuid \<Rightarrow> Session \<Rightarrow> SessionManager \<Rightarrow> SessionManager" where
  "register_thread to_string user_id channel thread_id session sg =
     (let key = \<lparr>tk_user_id = user_id, tk_channel = channel, tk_external_thread_id = Some (to_string thread_id)\<rparr>
      in sg\<lparr>sg_thread_map := AList.update key thread_id (sg_thread_map sg),
            sg_undo_managers := entry_or_insert thread_id undo_manager_new (sg_undo_managers sg),
            sg_sessions := entry_or_insert user_id session (sg_sessions sg)\<rparr>)"

definition get_undo_manager :: "unit \<Rightarrow> uuid \<Rightarrow> SessionManager \<Rightarrow> UndoManager \<times> SessionManager" where
  "get_undo_manager env thread_id sg =
     (case map_of (sg_undo_managers sg) thread_id of
        Some um \<Rightarrow> (um, sg)
      | None \<Rightarrow> (undo_manager_new,
          sg\<lparr>sg_undo_managers := AList.update thread_id undo_manager_new (sg_undo_managers sg)\<rparr>))"

text \<open>
  \<open>busy1\<close> and \<open>busy2\<close> say for which users the two \<open>try_lock\<close> calls find the session locked.
\<close>

definition stale_users ::
    "(string \<Rightarrow> bool) \<Rightarrow> datetime \<Rightarrow> duration \<Rightarrow> SessionManager \<Rightarrow> string list" where
  "stale_users busy1 now max_idle sg =
     (let cutoff = now - int (max_idle div 1000000000) * 1000000000
      in map fst (filter (\<lambda>(u, s). \<not> busy1 u \<and> se_last_active_at s < cutoff) (sg_sessions sg)))"

definition stale_thread_ids :: "(string \<Rightarrow> bool) \<Rightarrow> string list \<Rightarrow> SessionManager \<Rightarrow> uuid list" where
  "stale_thread_ids busy2 users sg =
     concat (map (\<lambda>u. case map_of (sg_sessions sg) u of
         Some s \<Rightarrow> if busy2 u then [] else keys (se_threads s)
       | None \<Rightarrow> []) users)"

definition prune_stale_sessions ::
    "(string \<Rightarrow> bool) \<Rightarrow> (string \<Rightarrow> bool) \<Rightarrow> datetime \<Rightarrow> duration \<Rightarrow> SessionManager \<Rightarrow> nat \<times> SessionManager" where
  "prune_stale_sessions busy1 busy2 now max_idle sg =
     (let users = stale_users busy1 now max_idle sg
      in if users = [] then (0, sg)
         else let thread_ids = stale_thread_ids busy2 users sg;
                  sessions = fold AList.delete users (sg_sessions sg)
              in (length (sg_sessions sg) - length sessions,
                  sg\<lparr>sg_sessions := sessions,
                     sg_thread_map := filter (\<lambda>(k, _). tk_user_id k \<notin> set users) (sg_thread_map sg),
                     sg_undo_managers := fold AList.delete thread_ids (sg_undo_managers sg)\<rparr>))"

subsection \<open>Get-or-create maps\<close>

text \<open>
  The interface of an operation that looks a key up and creates its value when it is missing: the
  law is that a hit changes nothing and a miss adds exactly the returned value.
\<close>

locale get_or_create =
  fixes lookup :: "'s \<Rightarrow> 'k \<Rightarrow> 'v option"
    and goc :: "'e \<Rightarrow> 'k \<Rightarrow> 's \<Rightarrow> 'v \<times> 's"
  assumes hit: "lookup s k = Some v \<Longrightarrow> goc e k s = (v, s)"
    and miss: "lookup s k = None \<Longrightarrow> lookup (snd (goc e k s)) = (lookup s)(k \<mapsto> fst (goc e k s))"
begin

lemma present: "lookup (snd (goc e k s)) k = Some (fst (goc e k s))"
  by (cases "lookup s k") (simp_all add: hit miss)

lemma again: "goc e' k (snd (goc e k s)) = goc e k s"
  using hit [OF present] by simp

lemma keeps: "lookup s j = Some v \<Longrightarrow> lookup (snd (goc e k s)) j = Some v"
  by (cases "lookup s k") (auto simp: hit miss)

lemma others: "j \<noteq> k \<Longrightarrow> lookup (snd (goc e k s)) j = lookup s j"
  by (cases "lookup s k") (auto simp: hit miss)

end

interpretation sessions: get_or_create "\<lambda>sg. map_of (sg_sessions sg)" get_or_create_session
  by unfold_locales (simp_all add: get_or_create_session_def Let_def update_conv')

interpretation undo_managers: get_or_create "\<lambda>sg. map_of (sg_undo_managers sg)" get_undo_manager
  by unfold_locales (simp_all add: get_undo_manager_def update_conv')

lemma get_or_create_session_frame [frame_simps]:
  "sg_thread_map (snd (get_or_create_session e u sg)) = sg_thread_map sg"
  "sg_undo_managers (snd (get_or_create_session e u sg)) = sg_undo_managers sg"
  by (simp_all add: get_or_create_session_def Let_def split: option.split)

subsection \<open>Resolving a channel thread\<close>

abbreviation thread_key :: "string \<Rightarrow> string \<Rightarrow> string option \<Rightarrow> ThreadKey" where
  "thread_key u c e \<equiv> \<lparr>tk_user_id = u, tk_channel = c, tk_external_thread_id = e\<rparr>"

text \<open>No two channel threads share an internal thread.\<close>

definition isolated :: "SessionManager \<Rightarrow> bool" where
  "isolated sg = (\<forall>k k' t. map_of (sg_thread_map sg) k = Some t \<longrightarrow>
     map_of (sg_thread_map sg) k' = Some t \<longrightarrow> k = k')"

text \<open>What \<open>resolve_thread\<close> does, by case.\<close>

lemma resolve_thread_cases:
  assumes "resolve_thread pu sid tid now u c e sg = (t, sg')"
  obtains (mapped) s where "map_of (sg_thread_map sg) (thread_key u c e) = Some t"
      and "map_of (sg_sessions sg') u = Some s" and "t \<in> set (keys (se_threads s))"
      and "sg' = snd (get_or_create_session (sid, now) u sg)"
  | (adopted) s where "t \<notin> set (vals (sg_thread_map sg))"
      and "map_of (sg_sessions sg') u = Some s" and "t \<in> set (keys (se_threads s))"
      and "sg_thread_map sg' = AList.update (thread_key u c e) t (sg_thread_map sg)"
      and "\<forall>v. v \<noteq> u \<longrightarrow> map_of (sg_sessions sg') v = map_of (sg_sessions sg) v"
  | (created) s where "t = tid"
      and "map_of (sg_sessions sg') u = Some s" and "t \<in> set (keys (se_threads s))"
      and "sg_thread_map sg' = AList.update (thread_key u c e) t (sg_thread_map sg)"
      and "\<forall>v. v \<noteq> u \<longrightarrow> map_of (sg_sessions sg') v = map_of (sg_sessions sg) v"
proof -
  obtain s0 sg0 where g: "get_or_create_session (sid, now) u sg = (s0, sg0)" by fastforce
  have s0: "map_of (sg_sessions sg0) u = Some s0"
    using sessions.present [of "(sid, now)" u sg] g by simp
  have frame: "sg_thread_map sg0 = sg_thread_map sg"
    using get_or_create_session_frame(1) [of "(sid, now)" u sg] g by simp
  have oth: "\<forall>v. v \<noteq> u \<longrightarrow> map_of (sg_sessions sg0) v = map_of (sg_sessions sg) v"
    using sessions.others [of _ u "(sid, now)" sg] g by simp
  have new: "tid \<in> set (keys (se_threads (snd (create_thread tid now s0))))"
    by (simp add: keys_dom create_thread_lookup del: set_map split: option.split)
  let ?key = "thread_key u c e"
  define found where "found = (case map_of (sg_thread_map sg0) ?key of
      Some i \<Rightarrow> if i \<in> set (keys (se_threads s0)) then Some i else None | None \<Rightarrow> None)"
  have run: "(t, sg') = (case found of Some i \<Rightarrow> (i, sg0)
     | None \<Rightarrow> (case adoptable pu e s0 sg0 of
          Some x \<Rightarrow> (x, sg0\<lparr>sg_thread_map := AList.update ?key x (sg_thread_map sg0),
                      sg_undo_managers := entry_or_insert x undo_manager_new (sg_undo_managers sg0)\<rparr>)
        | None \<Rightarrow> (tid, (put_session u (snd (create_thread tid now s0)) sg0)
             \<lparr>sg_thread_map := AList.update ?key tid (sg_thread_map sg0),
              sg_undo_managers := AList.update tid undo_manager_new (sg_undo_managers sg0)\<rparr>)))"
    unfolding assms [symmetric] resolve_thread_def g found_def Let_def
    by (simp add: case_prod_unfold put_session_def cong: option.case_cong)
  consider (m) "found = Some t" "sg' = sg0"
    | (a) "adoptable pu e s0 sg0 = Some t" "sg' = sg0\<lparr>sg_thread_map := AList.update ?key t (sg_thread_map sg0),
                      sg_undo_managers := entry_or_insert t undo_manager_new (sg_undo_managers sg0)\<rparr>"
    | (n) "t = tid" "sg' = (put_session u (snd (create_thread tid now s0)) sg0)\<lparr>sg_thread_map :=
             AList.update ?key t (sg_thread_map sg0),
             sg_undo_managers := AList.update t undo_manager_new (sg_undo_managers sg0)\<rparr>"
    using run by (cases found; cases "adoptable pu e s0 sg0") simp_all
  then show thesis
  proof cases
    case m then show ?thesis using mapped [of s0] s0 g frame
      by (simp add: found_def del: set_map split: option.splits if_splits)
  next
    case a then show ?thesis using adopted [of s0] s0 frame oth
      by (auto simp: adoptable_def split: option.splits if_splits)
  next
    case n then show ?thesis using created [of "snd (create_thread tid now s0)"] frame oth new
      by (simp add: put_session_def map_of_update_if del: set_map)
  qed
qed

lemma resolve_thread_hit:
  assumes "map_of (sg_thread_map sg) (thread_key u c e) = Some t"
    and "map_of (sg_sessions sg) u = Some s" and "t \<in> set (keys (se_threads s))"
  shows "resolve_thread pu sid tid now u c e sg = (t, sg)"
  unfolding resolve_thread_def sessions.hit [OF assms(2)] using assms(1,3) by (simp add: Let_def)

lemma isolated_update:
  assumes "isolated sg" and "t \<notin> set (vals (sg_thread_map sg))"
    and "sg_thread_map sg' = AList.update k t (sg_thread_map sg)"
  shows "isolated sg'"
proof -
  have "map_of (sg_thread_map sg) k' \<noteq> Some t" for k'
    using assms(2) by (force dest: map_of_SomeD)
  with assms(1,3) show ?thesis by (auto simp: isolated_def map_of_update_if split: if_splits)
qed

text \<open>
  Also: Resolving a channel thread, with a fresh id at hand for a new thread, yields a thread
  that exists in the user's session and stays the answer for that channel thread: asking again
  changes nothing. No two channel threads ever share an internal thread, other mappings and
  other users' sessions are untouched.
\<close>

theorem resolve_thread_isolated:
  assumes iso: "isolated sg" and fresh: "tid \<notin> set (vals (sg_thread_map sg))"
    and run: "resolve_thread pu sid tid now u c e sg = (t, sg')"
  shows "isolated sg' \<and> map_of (sg_thread_map sg') (thread_key u c e) = Some t \<and>
    (\<exists>s. map_of (sg_sessions sg') u = Some s \<and> map_of (se_threads s) t \<noteq> None) \<and>
    resolve_thread pu sid' tid' now' u c e sg' = (t, sg') \<and>
    (\<forall>k. k \<noteq> thread_key u c e \<longrightarrow> map_of (sg_thread_map sg') k = map_of (sg_thread_map sg) k) \<and>
    (\<forall>v. v \<noteq> u \<longrightarrow> map_of (sg_sessions sg') v = map_of (sg_sessions sg) v)"
  using run
proof (cases rule: resolve_thread_cases)
  case (mapped s)
  moreover have "isolated sg'" using iso mapped(4) by (simp add: isolated_def frame_simps)
  moreover have "map_of (sg_thread_map sg') (thread_key u c e) = Some t"
    using mapped(1,4) by (simp add: frame_simps)
  ultimately show ?thesis
    using resolve_thread_hit [of sg' u c e t s pu sid' tid' now'] mapped(2,3)
    by (simp add: keys_dom sessions.others frame_simps del: set_map)
next
  case (adopted s)
  have look: "map_of (sg_thread_map sg') (thread_key u c e) = Some t"
    by (simp add: adopted(4) map_of_update_if)
  from isolated_update [OF iso adopted(1,4)] look resolve_thread_hit [OF look adopted(2,3)] adopted
  show ?thesis by (simp add: keys_dom map_of_update_if del: set_map)
next
  case (created s)
  have look: "map_of (sg_thread_map sg') (thread_key u c e) = Some t"
    by (simp add: created(4) map_of_update_if)
  from fresh created(1) isolated_update [OF iso _ created(4)] look resolve_thread_hit [OF look created(2,3)] created
  show ?thesis by (simp add: keys_dom map_of_update_if del: set_map)
qed

definition demo_sessions :: SessionManager where
  "demo_sessions = snd (resolve_thread (\<lambda>_. None) 1 2 0 ''ann'' ''cli'' None session_manager_new)"

theorem resolve_thread_isolated_witness:
  "fst (resolve_thread (\<lambda>_. None) 1 3 50 ''ann'' ''web'' None demo_sessions) = 3 \<and>
   isolated (snd (resolve_thread (\<lambda>_. None) 1 3 50 ''ann'' ''web'' None demo_sessions))"
proof -
  have start: "isolated session_manager_new" by (simp add: isolated_def session_manager_new_def)
  have run: "resolve_thread (\<lambda>_. None) 1 2 0 ''ann'' ''cli'' None session_manager_new = (2, demo_sessions)"
    unfolding demo_sessions_def by (rule prod_eqI) (simp, code_simp, simp)
  have "isolated demo_sessions"
    using resolve_thread_isolated [OF start _ run] by (simp add: session_manager_new_def)
  moreover have "vals (sg_thread_map demo_sessions) = [2]" by code_simp
  moreover have "fst (resolve_thread (\<lambda>_. None) 1 3 50 ''ann'' ''web'' None demo_sessions) = 3" by code_simp
  ultimately show ?thesis
    using resolve_thread_isolated [of demo_sessions 3 "\<lambda>_. None" 1 50 "''ann''" "''web''" None 3]
    by (metis list.set(1,2) prod.collapse numeral_eq_iff semiring_norm(88) singletonD num.distinct(5)
        insert_iff empty_iff semiring_norm(90) num.inject(1))
qed

subsection \<open>Pruning\<close>

lemma fold_delete_filter: "fold AList.delete ks m = filter (\<lambda>(k, _). k \<notin> set ks) m"
  by (induction ks arbitrary: m) (auto simp: AList.delete_eq intro: filter_cong)

lemma map_of_filter_fst: "map_of (filter (\<lambda>(k, _). P k) m) k = (if P k then map_of m k else None)"
  by (induction m) auto

definition is_stale :: "(string \<Rightarrow> bool) \<Rightarrow> datetime \<Rightarrow> duration \<Rightarrow> SessionManager \<Rightarrow> string \<Rightarrow> bool" where
  "is_stale busy now max_idle sg u =
     (\<not> busy u \<and> (\<exists>s. map_of (sg_sessions sg) u = Some s \<and>
        se_last_active_at s < now - int (max_idle div 1000000000) * 1000000000))"

lemma stale_users_iff:
  "distinct (keys (sg_sessions sg)) \<Longrightarrow>
   u \<in> set (stale_users busy now max_idle sg) \<longleftrightarrow> is_stale busy now max_idle sg u"
  by (force simp: stale_users_def is_stale_def Let_def)

lemma stale_users_distinct:
  "distinct (keys (sg_sessions sg)) \<Longrightarrow> distinct (stale_users busy now max_idle sg)"
  by (simp add: stale_users_def Let_def distinct_map_filter)

lemma stale_thread_ids_owner:
  "t \<in> set (stale_thread_ids busy us sg) \<Longrightarrow>
   \<exists>u s. u \<in> set us \<and> map_of (sg_sessions sg) u = Some s \<and> t \<in> set (keys (se_threads s))"
  by (force simp: stale_thread_ids_def split: option.splits if_splits)

lemma prune_stale_sessions_eq:
  "prune_stale_sessions busy1 busy2 now max_idle sg =
     (let us = stale_users busy1 now max_idle sg in
      (length (filter (\<lambda>(u, _). u \<in> set us) (sg_sessions sg)),
       sg\<lparr>sg_sessions := filter (\<lambda>(u, _). u \<notin> set us) (sg_sessions sg),
          sg_thread_map := filter (\<lambda>(k, _). tk_user_id k \<notin> set us) (sg_thread_map sg),
          sg_undo_managers := filter (\<lambda>(t, _). t \<notin> set (stale_thread_ids busy2 us sg)) (sg_undo_managers sg)\<rparr>))"
proof -
  have count: "length m - length (filter (\<lambda>(u, _). u \<notin> A) m) = length (filter (\<lambda>(u, _). u \<in> A) m)"
    for m :: "(string \<times> Session) list" and A
    using sum_length_filter_compl [of "\<lambda>(u, _). u \<in> A" m] by (simp add: case_prod_unfold)
  have triv: "filter (\<lambda>(k, _). True) m = m" for m :: "('k \<times> 'v) list"
    by (simp add: case_prod_unfold)
  show ?thesis
    by (simp add: prune_stale_sessions_def Let_def fold_delete_filter count stale_thread_ids_def triv)
qed

text \<open>
  Also: Pruning removes exactly the sessions of users that are idle beyond the limit and not
  in use, reports how many they are, and removes the channel mappings of exactly these users; the
  undo history of every thread of a remaining session survives, since threads belong to one session.
\<close>

theorem prune_stale_sessions_spec:
  assumes dist: "distinct (keys (sg_sessions sg))"
    and own: "\<And>u v s s' t. \<lbrakk>map_of (sg_sessions sg) u = Some s; map_of (sg_sessions sg) v = Some s';
      t \<in> set (keys (se_threads s)); t \<in> set (keys (se_threads s'))\<rbrakk> \<Longrightarrow> u = v"
    and run: "prune_stale_sessions busy1 busy2 now max_idle sg = (n, sg')"
  shows "n = card {u. is_stale busy1 now max_idle sg u} \<and>
    (\<forall>u. map_of (sg_sessions sg') u =
      (if is_stale busy1 now max_idle sg u then None else map_of (sg_sessions sg) u)) \<and>
    (\<forall>k. map_of (sg_thread_map sg') k =
      (if is_stale busy1 now max_idle sg (tk_user_id k) then None else map_of (sg_thread_map sg) k)) \<and>
    (\<forall>u s t. map_of (sg_sessions sg') u = Some s \<longrightarrow> t \<in> set (keys (se_threads s)) \<longrightarrow>
      map_of (sg_undo_managers sg') t = map_of (sg_undo_managers sg) t)"
proof (intro conjI allI impI)
  let ?us = "stale_users busy1 now max_idle sg"
  note iff = stale_users_iff [OF dist, of _ busy1 now max_idle]
  from run have n: "n = length (filter (\<lambda>(u, _). u \<in> set ?us) (sg_sessions sg))"
    and sg': "sg' = sg\<lparr>sg_sessions := filter (\<lambda>(u, _). u \<notin> set ?us) (sg_sessions sg),
          sg_thread_map := filter (\<lambda>(k, _). tk_user_id k \<notin> set ?us) (sg_thread_map sg),
          sg_undo_managers := filter (\<lambda>(t, _). t \<notin> set (stale_thread_ids busy2 ?us sg)) (sg_undo_managers sg)\<rparr>"
    by (simp_all add: prune_stale_sessions_eq Let_def)
  have "n = length (map fst (filter (\<lambda>(u, _). u \<in> set ?us) (sg_sessions sg)))" using n by simp
  also have "\<dots> = card (set (map fst (filter (\<lambda>(u, _). u \<in> set ?us) (sg_sessions sg))))"
    using dist by (intro distinct_card [symmetric]) (simp add: distinct_map_filter)
  also have "set (map fst (filter (\<lambda>(u, _). u \<in> set ?us) (sg_sessions sg))) = {u. is_stale busy1 now max_idle sg u}"
    by (force simp: iff is_stale_def dest: map_of_SomeD)
  finally show "n = card {u. is_stale busy1 now max_idle sg u}" .
  show ses: "map_of (sg_sessions sg') u =
      (if is_stale busy1 now max_idle sg u then None else map_of (sg_sessions sg) u)" for u
    by (simp add: sg' map_of_filter_fst iff)
  show "map_of (sg_thread_map sg') k =
      (if is_stale busy1 now max_idle sg (tk_user_id k) then None else map_of (sg_thread_map sg) k)" for k
    using map_of_filter_fst [of "\<lambda>k. tk_user_id k \<notin> set ?us" "sg_thread_map sg" k] by (simp add: sg' iff)
  fix u s t assume u: "map_of (sg_sessions sg') u = Some s" and t: "t \<in> set (keys (se_threads s))"
  have "t \<notin> set (stale_thread_ids busy2 ?us sg)"
  proof
    assume "t \<in> set (stale_thread_ids busy2 ?us sg)"
    then obtain v s' where "v \<in> set ?us" "map_of (sg_sessions sg) v = Some s'" "t \<in> set (keys (se_threads s'))"
      using stale_thread_ids_owner by blast
    with own [of u s v s' t] u t ses [of u] show False by (auto simp: iff split: if_splits)
  qed
  then show "map_of (sg_undo_managers sg') t = map_of (sg_undo_managers sg) t"
    by (simp add: sg' map_of_filter_fst)
qed

theorem prune_stale_sessions_spec_witness:
  "map_of (sg_sessions (snd (prune_stale_sessions (\<lambda>_. False) (\<lambda>_. False) 5000000000 (secs 1) demo_sessions))) ''ann'' = None"
proof -
  have one: "keys (sg_sessions demo_sessions) = [''ann'']" by code_simp
  then have dist: "distinct (keys (sg_sessions demo_sessions))" by simp
  have own: "u = v" if "map_of (sg_sessions demo_sessions) u = Some s" "map_of (sg_sessions demo_sessions) v = Some s'"
    for u v s s'
    using that one map_of_SomeD [OF that(1)] map_of_SomeD [OF that(2)]
    by (cases "sg_sessions demo_sessions") auto
  have old: "map_option se_last_active_at (map_of (sg_sessions demo_sessions) ''ann'') = Some 0" by code_simp
  have "is_stale (\<lambda>_. False) 5000000000 (secs 1) demo_sessions ''ann''"
    using old by (auto simp: is_stale_def)
  moreover obtain n sg' where run:
      "prune_stale_sessions (\<lambda>_. False) (\<lambda>_. False) 5000000000 (secs 1) demo_sessions = (n, sg')"
    by fastforce
  ultimately show ?thesis
    using prune_stale_sessions_spec [OF dist _ run] own by auto
qed

text \<open>
  Also: Using a thread does not keep its session alive: resolving an already mapped thread
  leaves the time of last activity as it is, so that a session whose last thread was created or
  switched to long ago is pruned even right after a message was resolved to it.
\<close>

theorem prune_forgets_active_session:
  assumes mapped: "map_of (sg_thread_map sg) (thread_key u c e) = Some t"
    and session: "map_of (sg_sessions sg) u = Some s" and known: "map_of (se_threads s) t \<noteq> None"
    and dist: "distinct (keys (sg_sessions sg))"
    and old: "se_last_active_at s < now - int (max_idle div 1000000000) * 1000000000"
  shows "let sg' = snd (resolve_thread pu sid tid now u c e sg);
             sg'' = snd (prune_stale_sessions (\<lambda>_. False) busy2 now max_idle sg')
    in map_of (sg_sessions sg'') u = None \<and> map_of (sg_thread_map sg'') (thread_key u c e) = None"
proof -
  have "t \<in> set (keys (se_threads s))" using known by (simp add: keys_dom del: set_map)
  from resolve_thread_hit [OF mapped session this]
  have "resolve_thread pu sid tid now u c e sg = (t, sg)" .
  moreover have "u \<in> set (stale_users (\<lambda>_. False) now max_idle sg)"
    using session old by (simp add: stale_users_iff [OF dist] is_stale_def)
  ultimately show ?thesis
    using map_of_filter_fst [of "\<lambda>k. tk_user_id k \<notin> set (stale_users (\<lambda>_. False) now max_idle sg)" "sg_thread_map sg"]
    by (simp add: prune_stale_sessions_eq Let_def map_of_filter_fst)
qed

theorem prune_forgets_active_session_witness:
  "map_of (sg_sessions (snd (prune_stale_sessions (\<lambda>_. False) (\<lambda>_. False) 5000000000 (secs 1)
     (snd (resolve_thread (\<lambda>_. None) 7 8 5000000000 ''ann'' ''cli'' None demo_sessions))))) ''ann'' = None"
proof -
  obtain s where s: "map_of (sg_sessions demo_sessions) ''ann'' = Some s" "se_last_active_at s = 0"
      "map_of (se_threads s) 2 \<noteq> None"
  proof -
    have "case map_of (sg_sessions demo_sessions) ''ann'' of Some s \<Rightarrow> se_last_active_at s = 0 \<and>
        map_of (se_threads s) 2 \<noteq> None | None \<Rightarrow> False" by code_simp
    then show thesis using that by (auto split: option.splits)
  qed
  have m: "map_of (sg_thread_map demo_sessions) (thread_key ''ann'' ''cli'' None) = Some 2" by code_simp
  have "keys (sg_sessions demo_sessions) = [''ann'']" by code_simp
  then have dist: "distinct (keys (sg_sessions demo_sessions))" by simp
  from prune_forgets_active_session [OF m s(1,3) dist, of 5000000000 "secs 1" "\<lambda>_. None" 7 8 "\<lambda>_. False"] s(2)
  show ?thesis by (simp add: Let_def)
qed

end
