(* ===== verification/Submission.thy ===== *)
theory Submission
  imports Chat
begin

text \<open>
  User submissions: \<^verbatim>\<open>src/agent/submission.rs\<close>. \<open>parse\<close> decides whether a message is a command, an
  answer to an approval request, or input for a new turn. The lemmas show that plain text is never
  taken for a command and reaches the agent verbatim, and that approvals are only the listed words.

  \<open>Uuid::parse_str\<close> and \<open>serde_json::from_str\<close> are the parameters \<open>parse_uuid\<close> and \<open>from_json\<close>.
\<close>

datatype Submission =
    UserInput string
  | ExecApproval uuid bool bool
  | ApprovalResponse bool bool
  | Interrupt
  | Compact
  | Undo
  | Redo
  | Resume uuid
  | Clear
  | SwitchThread uuid
  | NewThread
  | Heartbeat
  | Summarize
  | Suggest
  | JobStatus "string option"
  | JobCancel string
  | Quit
  | SystemCommand string "string list"

fun is_control :: "Submission \<Rightarrow> bool" where
  "is_control Interrupt = True"
| "is_control Compact = True"
| "is_control Undo = True"
| "is_control Redo = True"
| "is_control Clear = True"
| "is_control NewThread = True"
| "is_control Heartbeat = True"
| "is_control Summarize = True"
| "is_control Suggest = True"
| "is_control (JobStatus _) = True"
| "is_control (JobCancel _) = True"
| "is_control (SystemCommand _ _) = True"
| "is_control _ = False"

datatype SubmissionResult =
    Response string
  | NeedApproval uuid string string json
  | ResultOk "string option"
  | ResultError string
  | ResultInterrupted

definition ok_with_message :: "string \<Rightarrow> SubmissionResult" where
  "ok_with_message m = ResultOk (Some m)"

definition result_error :: "string \<Rightarrow> SubmissionResult" where
  "result_error m = ResultError m"

subsection \<open>The parser\<close>

text \<open>The exact-match commands before the job commands; \<open>None\<close> falls through.\<close>

definition parse_control :: "string \<Rightarrow> string \<Rightarrow> Submission option" where
  "parse_control trimmed lower =
     (if lower = ''/undo'' then Some Undo
      else if lower = ''/redo'' then Some Redo
      else if lower = ''/interrupt'' \<or> lower = ''/stop'' then Some Interrupt
      else if lower = ''/compact'' then Some Compact
      else if lower = ''/clear'' then Some Clear
      else if lower = ''/heartbeat'' then Some Heartbeat
      else if lower = ''/summarize'' \<or> lower = ''/summary'' then Some Summarize
      else if lower = ''/suggest'' then Some Suggest
      else if lower = ''/thread new'' \<or> lower = ''/new'' then Some NewThread
      else if lower = ''/help'' \<or> lower = ''/?'' then Some (SystemCommand ''help'' [])
      else if lower = ''/version'' then Some (SystemCommand ''version'' [])
      else if lower = ''/tools'' then Some (SystemCommand ''tools'' [])
      else if lower = ''/skills'' then Some (SystemCommand ''skills'' [])
      else if starts_with lower ''/skills '' then
        Some (SystemCommand ''skills'' (drop 1 (split_whitespace trimmed)))
      else if lower = ''/ping'' then Some (SystemCommand ''ping'' [])
      else if lower = ''/debug'' then Some (SystemCommand ''debug'' [])
      else if lower = ''/restart'' then Some (SystemCommand ''restart'' [])
      else if starts_with lower ''/model'' then
        Some (SystemCommand ''model'' (drop 1 (split_whitespace trimmed)))
      else if lower = ''/quit'' \<or> lower = ''/exit'' \<or> lower = ''/shutdown'' then Some Quit
      else None)"

definition or_else :: "'a option \<Rightarrow> 'a option \<Rightarrow> 'a option" where
  "or_else a b = (case a of Some x \<Rightarrow> Some x | None \<Rightarrow> b)"

definition non_empty_id :: "string \<Rightarrow> string option" where
  "non_empty_id rest = (let i = trim rest in if i \<noteq> [] then Some i else None)"

definition parse_job :: "string \<Rightarrow> Submission option" where
  "parse_job lower =
     (if lower = ''/status'' \<or> lower = ''/progress'' then Some (JobStatus None)
      else or_else
        (case or_else (strip_prefix ''/status '' lower) (strip_prefix ''/progress '' lower) of
           Some rest \<Rightarrow> map_option (\<lambda>i. JobStatus (Some i)) (non_empty_id rest)
         | None \<Rightarrow> None)
        (if lower = ''/list'' then Some (JobStatus None)
         else case strip_prefix ''/cancel '' lower of
             Some rest \<Rightarrow> map_option JobCancel (non_empty_id rest)
           | None \<Rightarrow> None))"

definition parse_thread :: "(string \<Rightarrow> uuid option) \<Rightarrow> string \<Rightarrow> Submission option" where
  "parse_thread parse_uuid lower =
     or_else
       (case strip_prefix ''/thread '' lower of
          Some rest \<Rightarrow> (let rest = trim rest
             in if rest \<noteq> ''new'' then map_option SwitchThread (parse_uuid rest) else None)
        | None \<Rightarrow> None)
       (case strip_prefix ''/resume '' lower of
          Some rest \<Rightarrow> map_option Resume (parse_uuid (trim rest))
        | None \<Rightarrow> None)"

definition parse_json_approval :: "(string \<Rightarrow> Submission option) \<Rightarrow> string \<Rightarrow> Submission option" where
  "parse_json_approval from_json trimmed =
     (if starts_with trimmed ''{''
      then (case from_json trimmed of
              Some (ExecApproval r a w) \<Rightarrow> Some (ExecApproval r a w)
            | _ \<Rightarrow> None)
      else None)"

definition approve_words :: "string list" where
  "approve_words = [''yes'', ''y'', ''approve'', ''ok'', ''/approve'', ''/yes'', ''/y'']"

definition always_words :: "string list" where
  "always_words = [''always'', ''a'', ''yes always'', ''approve always'', ''/always'', ''/a'']"

definition deny_words :: "string list" where
  "deny_words = [''no'', ''n'', ''deny'', ''reject'', ''cancel'', ''/deny'', ''/no'', ''/n'']"

definition parse_approval :: "string \<Rightarrow> Submission option" where
  "parse_approval lower =
     (if lower \<in> set approve_words then Some (ApprovalResponse True False)
      else if lower \<in> set always_words then Some (ApprovalResponse True True)
      else if lower \<in> set deny_words then Some (ApprovalResponse False False)
      else None)"

definition parse ::
    "(string \<Rightarrow> uuid option) \<Rightarrow> (string \<Rightarrow> Submission option) \<Rightarrow> string \<Rightarrow> Submission" where
  "parse parse_uuid from_json content =
     (let trimmed = trim content;
          lower = to_lowercase trimmed
      in case or_else (parse_control trimmed lower)
            (or_else (parse_job lower)
            (or_else (parse_thread parse_uuid lower)
            (or_else (parse_json_approval from_json trimmed) (parse_approval lower)))) of
           Some s \<Rightarrow> s
         | None \<Rightarrow> UserInput content)"

subsection \<open>Lemmas\<close>

lemma or_else_simps [simp]: "or_else None b = b" "or_else (Some x) b = Some x"
  by (simp_all add: or_else_def)

lemma or_else_eq_Some: "or_else a b = Some x \<longleftrightarrow> a = Some x \<or> (a = None \<and> b = Some x)"
  by (simp add: or_else_def split: option.split)

lemma or_else_eq_None: "or_else a b = None \<longleftrightarrow> a = None \<and> b = None"
  by (simp add: or_else_def split: option.split)

lemma to_lower_char_slash [simp]: "to_lower_char c = CHR ''/'' \<longleftrightarrow> c = CHR ''/''"
proof
  assume "to_lower_char c = CHR ''/''"
  then have "(of_char (to_lower_char c) :: nat) = 47" by simp
  then have "(of_char c :: nat) = 47"
    by (simp only: to_lower_char_def Let_def split: if_splits) simp
  then have "(of_char c :: nat) = of_char (CHR ''/'')" by simp
  then show "c = CHR ''/''" by (simp only: of_char_eq_iff)
qed (simp add: to_lower_char_def)

lemma lowercase_hd: "s \<noteq> [] \<Longrightarrow> hd s \<noteq> CHR ''/'' \<Longrightarrow> hd (to_lowercase s) \<noteq> CHR ''/''"
  by (cases s) (simp_all add: to_lowercase_def)

lemma parse_no_slash:
  assumes "l = [] \<or> hd l \<noteq> CHR ''/''"
  shows "parse_control t l = None" and "parse_job l = None" and "parse_thread parse_uuid l = None"
proof -
  consider "l = []" | c r where "l = c # r" "c \<noteq> CHR ''/''" using assms by (cases l) auto
  then show "parse_control t l = None" by cases (simp_all add: parse_control_def)
next
  consider "l = []" | c r where "l = c # r" "c \<noteq> CHR ''/''" using assms by (cases l) auto
  then show "parse_job l = None" by cases (simp_all add: parse_job_def strip_prefix_def)
next
  consider "l = []" | c r where "l = c # r" "c \<noteq> CHR ''/''" using assms by (cases l) auto
  then show "parse_thread parse_uuid l = None" by cases (simp_all add: parse_thread_def strip_prefix_def)
qed

lemma if_Some_neq: "x \<noteq> z \<Longrightarrow> y \<noteq> Some z \<Longrightarrow> (if b then Some x else y) \<noteq> Some z"
  by simp

lemma parse_control_kinds:
  "parse_control t l \<noteq> Some (UserInput c)" "parse_control t l \<noteq> Some (ApprovalResponse a w)"
  unfolding parse_control_def by (intro if_Some_neq; simp)+

lemma parse_job_kinds:
  "parse_job l \<noteq> Some (UserInput c)" "parse_job l \<noteq> Some (ApprovalResponse a w)"
  by (auto simp: parse_job_def or_else_eq_Some split: if_splits option.splits)

lemma parse_thread_kinds:
  "parse_thread f l \<noteq> Some (UserInput c)" "parse_thread f l \<noteq> Some (ApprovalResponse a w)"
  by (auto simp: parse_thread_def or_else_eq_Some Let_def split: if_splits option.splits)

lemma parse_json_kinds:
  "parse_json_approval f t \<noteq> Some (UserInput c)" "parse_json_approval f t \<noteq> Some (ApprovalResponse a w)"
  by (auto simp: parse_json_approval_def split: if_splits option.splits Submission.splits)

lemma parse_approval_kinds: "parse_approval l \<noteq> Some (UserInput c)"
  by (simp add: parse_approval_def)

lemmas parse_kinds = parse_control_kinds parse_job_kinds parse_thread_kinds parse_json_kinds parse_approval_kinds

definition answer_words :: "bool \<Rightarrow> bool \<Rightarrow> string list" where
  "answer_words approved always =
     (if approved then (if always then always_words else approve_words)
      else if always then [] else deny_words)"

lemma answer_words_not_commands:
  assumes "l \<in> set (answer_words a w)"
  shows "parse_control t l = None" and "parse_job l = None" and "parse_thread f l = None" and "hd l \<noteq> CHR ''{''"
proof -
  have "\<forall>l \<in> set (answer_words a w). parse_control t l = None \<and> parse_job l = None \<and>
      parse_thread f l = None \<and> hd l \<noteq> CHR ''{''"
    by (cases a; cases w)
       (simp_all add: answer_words_def approve_words_def always_words_def deny_words_def
         parse_control_def parse_job_def parse_thread_def strip_prefix_def)
  with assms show "parse_control t l = None" and "parse_job l = None" and "parse_thread f l = None"
    and "hd l \<noteq> CHR ''{''" by blast+
qed

lemma parse_approval_iff:
  "parse_approval l = Some (ApprovalResponse a w) \<longleftrightarrow> l \<in> set (answer_words a w)"
proof -
  have disj: "set approve_words \<inter> set always_words = {}" "set approve_words \<inter> set deny_words = {}"
    "set always_words \<inter> set deny_words = {}"
    by (simp_all add: approve_words_def always_words_def deny_words_def)
  then show ?thesis
    by (cases a; cases w) (auto simp: parse_approval_def answer_words_def)
qed

lemma lowercase_brace: "starts_with t ''{'' \<Longrightarrow> hd (to_lowercase t) = CHR ''{''"
  by (auto simp: prefix_def to_lowercase_def to_lower_char_def)

text \<open>
  Also: The parser treats a message as an answer to an approval request exactly when its
  trimmed, case-folded text is one of the listed words, with the meaning of its list; text that is
  passed on as user input is passed on verbatim; and a message that does not begin with a slash or
  a brace and is no such word is always user input, never a command.
\<close>

theorem parse_spec:
  "(parse parse_uuid from_json content = ApprovalResponse a w \<longleftrightarrow>
      to_lowercase (trim content) \<in> set (answer_words a w)) \<and>
   (parse parse_uuid from_json content = UserInput c \<longrightarrow> c = content) \<and>
   ((trim content = [] \<or> hd (trim content) \<notin> {CHR ''/'', CHR ''{''}) \<longrightarrow>
    (\<forall>a w. to_lowercase (trim content) \<notin> set (answer_words a w)) \<longrightarrow>
      parse parse_uuid from_json content = UserInput content)"
proof (intro conjI impI)
  show "parse parse_uuid from_json content = ApprovalResponse a w \<longleftrightarrow>
      to_lowercase (trim content) \<in> set (answer_words a w)"
  proof
    assume "parse parse_uuid from_json content = ApprovalResponse a w"
    then have "parse_approval (to_lowercase (trim content)) = Some (ApprovalResponse a w)"
      using parse_kinds
      by (auto simp: parse_def Let_def or_else_eq_Some or_else_eq_None split: option.splits)
    then show "to_lowercase (trim content) \<in> set (answer_words a w)" by (simp add: parse_approval_iff)
  next
    assume w: "to_lowercase (trim content) \<in> set (answer_words a w)"
    have "parse_json_approval from_json (trim content) = None"
      using answer_words_not_commands(4) [OF w] lowercase_brace [of "trim content"]
      by (auto simp: parse_json_approval_def)
    with w show "parse parse_uuid from_json content = ApprovalResponse a w"
      by (simp add: parse_def Let_def answer_words_not_commands(1-3) [OF w] parse_approval_iff [THEN iffD2])
  qed
  show "c = content" if "parse parse_uuid from_json content = UserInput c"
    using that parse_kinds
    by (auto simp: parse_def Let_def or_else_eq_Some or_else_eq_None split: option.splits)
  assume plain: "trim content = [] \<or> hd (trim content) \<notin> {CHR ''/'', CHR ''{''}"
    and no_word: "\<forall>a w. to_lowercase (trim content) \<notin> set (answer_words a w)"
  have "to_lowercase (trim content) = [] \<or> hd (to_lowercase (trim content)) \<noteq> CHR ''/''"
    using plain lowercase_hd [of "trim content"] by (auto simp: to_lowercase_def)
  note none = parse_no_slash [OF this]
  have "parse_json_approval from_json (trim content) = None"
    using plain by (auto simp: parse_json_approval_def prefix_def)
  moreover have "parse_approval (to_lowercase (trim content)) = None"
    using no_word [rule_format, of True False] no_word [rule_format, of True True]
      no_word [rule_format, of False False]
    by (simp add: parse_approval_def answer_words_def)
  ultimately show "parse parse_uuid from_json content = UserInput content"
    by (simp add: parse_def Let_def none)
qed

theorem parse_spec_witness:
  "parse (\<lambda>_. None) (\<lambda>_. None) ''undo that'' = UserInput ''undo that'' \<and>
   parse (\<lambda>_. None) (\<lambda>_. None) '' YES '' = ApprovalResponse True False"
proof -
  have t1: "trim ''undo that'' = ''undo that''" and t2: "to_lowercase (trim '' YES '') = ''yes''"
    and t3: "to_lowercase ''undo that'' = ''undo that''"
    by code_simp+
  have words: "''undo that'' \<notin> set (answer_words a w)" for a w
    by (simp add: answer_words_def approve_words_def always_words_def deny_words_def)
  have yes: "''yes'' \<in> set (answer_words True False)"
    by (simp add: answer_words_def approve_words_def)
  show ?thesis
    using parse_spec [of "\<lambda>_. None" "\<lambda>_. None" "''undo that''"]
      parse_spec [of "\<lambda>_. None" "\<lambda>_. None" "'' YES ''" True False] words yes
    by (simp add: t1 t2 t3)
qed

end
