(* ===== verification/Thread_Ops.thy ===== *)
theory Thread_Ops
  imports Session_Manager Submission Context_Manager
begin

text \<open>
  The handlers of user submissions on a thread: \<^verbatim>\<open>src/agent/thread_ops.rs\<close>. Each handler works on the
  session it was given and on the session manager. The lemmas show that input is accepted exactly
  on idle or interrupted threads and every accepted turn ends, that undo and redo move between the
  transcripts before and after a turn, and that an approval is used at most once.

  The parts of \<open>process_user_input\<close> and \<open>process_approval\<close> that run the model, screen the text or route
  job commands are arguments of the handlers; status messages and the writes of the conversation to
  the database are left out.
\<close>

type_synonym ops_state = "Session \<times> SessionManager"
type_synonym ops_result = "(JobError + SubmissionResult) \<times> ops_state"

datatype AgenticLoopResult = LoopResponse string | LoopNeedApproval PendingApproval

definition put_undo_manager :: "uuid \<Rightarrow> UndoManager \<Rightarrow> SessionManager \<Rightarrow> SessionManager" where
  "put_undo_manager i um sg = sg\<lparr>sg_undo_managers := AList.update i um (sg_undo_managers sg)\<rparr>"

subsection \<open>Undo, redo, interrupt, clear, resume\<close>

definition process_undo :: "(json \<Rightarrow> string) \<Rightarrow> uuid \<Rightarrow> datetime \<Rightarrow> uuid \<Rightarrow> ops_state \<Rightarrow> ops_result" where
  "process_undo ts new_id now thread_id st =
     (let (sess, sg) = st;
          (mgr, sg) = get_undo_manager () thread_id sg
      in if \<not> can_undo mgr then (Inr (ok_with_message ''Nothing to undo.''), sess, sg)
         else (case map_of (se_threads sess) thread_id of
             None \<Rightarrow> (Inl (NotFound thread_id), sess, sg)
           | Some thread \<Rightarrow>
               (case undo new_id (turn_number thread) (messages ts thread) mgr of
                  (Some cp, mgr) \<Rightarrow>
                    (Inr (ok_with_message (''Undone to turn '' @ show_nat (cp_turn_number cp) @ ''. '' @
                            show_nat (undo_count mgr) @ '' undo(s) remaining.'')),
                     update_thread thread_id (restore_from_messages now (cp_messages cp)) sess,
                     put_undo_manager thread_id mgr sg)
                | (None, mgr) \<Rightarrow>
                    (Inr (result_error ''Undo failed.''), sess, put_undo_manager thread_id mgr sg))))"

definition process_redo :: "(json \<Rightarrow> string) \<Rightarrow> uuid \<Rightarrow> datetime \<Rightarrow> uuid \<Rightarrow> ops_state \<Rightarrow> ops_result" where
  "process_redo ts new_id now thread_id st =
     (let (sess, sg) = st;
          (mgr, sg) = get_undo_manager () thread_id sg
      in if \<not> can_redo mgr then (Inr (ok_with_message ''Nothing to redo.''), sess, sg)
         else (case map_of (se_threads sess) thread_id of
             None \<Rightarrow> (Inl (NotFound thread_id), sess, sg)
           | Some thread \<Rightarrow>
               (case redo new_id (turn_number thread) (messages ts thread) mgr of
                  (Some cp, mgr) \<Rightarrow>
                    (Inr (ok_with_message (''Redone to turn '' @ show_nat (cp_turn_number cp) @ ''.'')),
                     update_thread thread_id (restore_from_messages now (cp_messages cp)) sess,
                     put_undo_manager thread_id mgr sg)
                | (None, mgr) \<Rightarrow>
                    (Inr (result_error ''Redo failed.''), sess, put_undo_manager thread_id mgr sg))))"

definition process_interrupt :: "datetime \<Rightarrow> uuid \<Rightarrow> Session \<Rightarrow> (JobError + SubmissionResult) \<times> Session" where
  "process_interrupt now thread_id sess =
     (case map_of (se_threads sess) thread_id of
        None \<Rightarrow> (Inl (NotFound thread_id), sess)
      | Some thread \<Rightarrow>
          if th_state thread \<in> {ThreadProcessing, ThreadAwaitingApproval}
          then (Inr (ok_with_message ''Interrupted.''), update_thread thread_id (thread_interrupt now) sess)
          else (Inr (ok_with_message ''Nothing to interrupt.''), sess))"

definition process_clear :: "uuid \<Rightarrow> ops_state \<Rightarrow> ops_result" where
  "process_clear thread_id st =
     (let (sess, sg) = st
      in case map_of (se_threads sess) thread_id of
           None \<Rightarrow> (Inl (NotFound thread_id), sess, sg)
         | Some thread \<Rightarrow>
             (let sess = update_thread thread_id (\<lambda>th. th\<lparr>th_turns := [], th_state := ThreadIdle\<rparr>) sess;
                  (mgr, sg) = get_undo_manager () thread_id sg
              in (Inr (ok_with_message ''Thread cleared.''), sess,
                  put_undo_manager thread_id (undo_clear mgr) sg)))"

definition process_resume :: "datetime \<Rightarrow> uuid \<Rightarrow> uuid \<Rightarrow> ops_state \<Rightarrow> ops_result" where
  "process_resume now thread_id checkpoint_id st =
     (let (sess, sg) = st;
          (mgr, sg) = get_undo_manager () thread_id sg
      in case restore checkpoint_id mgr of
           (Some cp, mgr) \<Rightarrow>
             (let sg = put_undo_manager thread_id mgr sg
              in case map_of (se_threads sess) thread_id of
                   None \<Rightarrow> (Inl (NotFound thread_id), sess, sg)
                 | Some thread \<Rightarrow>
                     (Inr (ok_with_message (''Resumed from checkpoint: '' @ cp_description cp)),
                      update_thread thread_id (restore_from_messages now (cp_messages cp)) sess, sg))
         | (None, mgr) \<Rightarrow> (Inr (result_error ''Checkpoint not found.''), sess, put_undo_manager thread_id mgr sg))"

definition process_new_thread ::
    "(uuid \<Rightarrow> string) \<Rightarrow> uuid \<Rightarrow> uuid \<Rightarrow> datetime \<Rightarrow> string \<Rightarrow> SessionManager \<Rightarrow> SubmissionResult \<times> SessionManager" where
  "process_new_thread us new_session_id new_thread_id now user_id sg =
     (let (sess, sg) = get_or_create_session (new_session_id, now) user_id sg;
          (thread_id, sess) = create_thread new_thread_id now sess
      in (ok_with_message (''New thread: '' @ us thread_id), put_session user_id sess sg))"

definition process_switch_thread ::
    "(uuid \<Rightarrow> string) \<Rightarrow> uuid \<Rightarrow> datetime \<Rightarrow> string \<Rightarrow> uuid \<Rightarrow> SessionManager \<Rightarrow> SubmissionResult \<times> SessionManager" where
  "process_switch_thread us new_session_id now user_id target_thread_id sg =
     (let (sess, sg) = get_or_create_session (new_session_id, now) user_id sg
      in case switch_thread target_thread_id now sess of
           (True, sess) \<Rightarrow> (ok_with_message (''Switched to thread '' @ us target_thread_id), put_session user_id sess sg)
         | (False, sess) \<Rightarrow> (result_error ''Thread not found.'', put_session user_id sess sg))"

subsection \<open>User input\<close>

text \<open>The check of the thread state; \<open>None\<close> lets the input pass.\<close>

fun state_rejection :: "ThreadState \<Rightarrow> SubmissionResult option" where
  "state_rejection ThreadProcessing = Some (result_error ''Turn in progress. Use /interrupt to cancel.'')"
| "state_rejection ThreadAwaitingApproval = Some (result_error ''Waiting for approval. Use /interrupt to cancel.'')"
| "state_rejection ThreadCompleted = Some (result_error ''Thread completed. Use /thread new.'')"
| "state_rejection ThreadIdle = None"
| "state_rejection ThreadInterrupted = None"

text \<open>The checkpoint before the turn and the start of the turn.\<close>

definition begin_turn ::
    "(json \<Rightarrow> string) \<Rightarrow> uuid \<Rightarrow> datetime \<Rightarrow> uuid \<Rightarrow> string \<Rightarrow> ContentPart list \<Rightarrow> ops_state \<Rightarrow>
       (JobError + ChatMessage list) \<times> ops_state" where
  "begin_turn ts new_id now thread_id effective_content image_parts st =
     (let (sess, sg) = st;
          (mgr, sg) = get_undo_manager () thread_id sg
      in case map_of (se_threads sess) thread_id of
           None \<Rightarrow> (Inl (NotFound thread_id), sess, sg)
         | Some thread \<Rightarrow>
             (let mgr = checkpoint new_id (turn_number thread) (messages ts thread)
                          (''Before turn '' @ show_nat (turn_number thread)) mgr;
                  thread = update_last_turn (\<lambda>t. t\<lparr>tu_image_content_parts := image_parts\<rparr>)
                             (start_turn now effective_content thread)
              in (Inr (messages ts thread), update_thread thread_id (\<lambda>_. thread) sess,
                  put_undo_manager thread_id mgr sg)))"

text \<open>What happens after the agentic loop: the outcome is an error text or a result.\<close>

definition finish_turn ::
    "(string \<Rightarrow> string) \<Rightarrow> datetime \<Rightarrow> uuid \<Rightarrow> string + AgenticLoopResult \<Rightarrow> Session \<Rightarrow>
       (JobError + SubmissionResult) \<times> Session" where
  "finish_turn transform now thread_id outcome sess =
     (case map_of (se_threads sess) thread_id of
        None \<Rightarrow> (Inl (NotFound thread_id), sess)
      | Some thread \<Rightarrow>
          if th_state thread = ThreadInterrupted then (Inr ResultInterrupted, sess)
          else (case outcome of
              Inr (LoopResponse response) \<Rightarrow>
                (let response = transform response
                 in (Inr (Response response), update_thread thread_id (complete_turn now response) sess))
            | Inr (LoopNeedApproval pending) \<Rightarrow>
                (Inr (NeedApproval (pa_request_id pending) (pa_tool_name pending) (pa_description pending)
                        (pa_display_parameters pending)),
                 update_thread thread_id (await_approval now pending) sess)
            | Inl e \<Rightarrow> (Inr (result_error e), update_thread thread_id (fail_turn now e) sess)))"

definition process_user_input ::
    "(json \<Rightarrow> string) \<Rightarrow> (string \<Rightarrow> string option) \<Rightarrow> (string \<Rightarrow> (JobError + SubmissionResult) option) \<Rightarrow>
     (Thread \<Rightarrow> Thread) \<Rightarrow> (string \<Rightarrow> string \<times> ContentPart list) \<Rightarrow>
     (ChatMessage list \<Rightarrow> ops_state \<Rightarrow> (string + AgenticLoopResult) \<times> ops_state) \<Rightarrow> (string \<Rightarrow> string) \<Rightarrow>
     uuid \<Rightarrow> datetime \<Rightarrow> datetime \<Rightarrow> uuid \<Rightarrow> string \<Rightarrow> ops_state \<Rightarrow> ops_result" where
  "process_user_input ts screen route auto_compact augment run_loop transform new_id t0 t1 thread_id content st =
     (let (sess, sg) = st
      in case map_of (se_threads sess) thread_id of
           None \<Rightarrow> (Inl (NotFound thread_id), sess, sg)
         | Some thread \<Rightarrow>
             (case state_rejection (th_state thread) of
                Some r \<Rightarrow> (Inr r, sess, sg)
              | None \<Rightarrow>
                  (case screen content of
                     Some e \<Rightarrow> (Inr (result_error e), sess, sg)
                   | None \<Rightarrow>
                       (case route content of
                          Some r \<Rightarrow> (r, sess, sg)
                        | None \<Rightarrow>
                            (let sess = update_thread thread_id auto_compact sess;
                                 (effective_content, image_parts) = augment content
                             in case begin_turn ts new_id t0 thread_id effective_content image_parts (sess, sg) of
                                  (Inl e, st) \<Rightarrow> (Inl e, st)
                                | (Inr msgs, st) \<Rightarrow>
                                    (case run_loop msgs st of
                                       (outcome, sess, sg) \<Rightarrow>
                                         (case finish_turn transform t1 thread_id outcome sess of
                                            (r, sess) \<Rightarrow> (r, sess, sg))))))))"

subsection \<open>Approvals\<close>

definition rejection_text :: "string \<Rightarrow> string" where
  "rejection_text tool =
     ''Tool '' @ [CHR 0x27] @ tool @ [CHR 0x27] @ '' was rejected. The agent will not execute this tool.'' @
     [CHR 0x0A, CHR 0x0A] @ ''You can continue the conversation or try a different approach.''"

definition process_approval ::
    "(PendingApproval \<Rightarrow> Session \<Rightarrow> (JobError + SubmissionResult) \<times> Session) \<Rightarrow>
     datetime \<Rightarrow> uuid \<Rightarrow> uuid option \<Rightarrow> bool \<Rightarrow> bool \<Rightarrow> Session \<Rightarrow> (JobError + SubmissionResult) \<times> Session" where
  "process_approval execute now thread_id request_id approved always sess =
     (case map_of (se_threads sess) thread_id of
        None \<Rightarrow> (Inl (NotFound thread_id), sess)
      | Some thread \<Rightarrow>
          if th_state thread \<noteq> ThreadAwaitingApproval then (Inr (ok_with_message ''''), sess)
          else
            (case take_pending_approval thread of
               (None, thread) \<Rightarrow> (Inr (ok_with_message ''''), update_thread thread_id (\<lambda>_. thread) sess)
             | (Some pending, thread) \<Rightarrow>
                 (let sess = update_thread thread_id (\<lambda>_. thread) sess
                  in if (case request_id of Some r \<Rightarrow> r \<noteq> pa_request_id pending | None \<Rightarrow> False)
                     then (Inr (result_error ''Request ID mismatch. Use the correct request ID.''),
                           update_thread thread_id (await_approval now pending) sess)
                     else if approved
                     then (let sess = (if always then auto_approve_tool (pa_tool_name pending) sess else sess);
                               sess = update_thread thread_id (\<lambda>th. th\<lparr>th_state := ThreadProcessing\<rparr>) sess
                           in execute pending sess)
                     else (Inr (Response (rejection_text (pa_tool_name pending))),
                           update_thread thread_id
                             (\<lambda>th. complete_turn now (rejection_text (pa_tool_name pending))
                                     (clear_pending_approval now th)) sess))))"

subsection \<open>Lemmas\<close>

lemma update_thread_lookup:
  "map_of (se_threads (update_thread i f s)) j =
     (if j = i then map_option f (map_of (se_threads s) i) else map_of (se_threads s) j)"
  by (simp add: update_thread_def map_of_update_if split: option.split)

lemma update_thread_auto_approved [frame_simps]:
  "se_auto_approved_tools (update_thread i f s) = se_auto_approved_tools s"
  by (simp add: update_thread_def split: option.split)

lemma get_undo_manager_put: "get_undo_manager () i (put_undo_manager i um sg) = (um, put_undo_manager i um sg)"
  by (rule undo_managers.hit) (simp add: put_undo_manager_def map_of_update_if)

definition begun_thread :: "datetime \<Rightarrow> string \<Rightarrow> ContentPart list \<Rightarrow> Thread \<Rightarrow> Thread" where
  "begun_thread now c imgs th =
     update_last_turn (\<lambda>t. t\<lparr>tu_image_content_parts := imgs\<rparr>) (start_turn now c th)"

lemma begun_thread_state [simp]: "th_state (begun_thread now c imgs th) = ThreadProcessing"
  by (simp add: begun_thread_def update_last_turn_def start_turn_def)

lemma begin_turn_some:
  assumes "map_of (se_threads sess) i = Some th"
  shows "begin_turn ts nid now i c imgs (sess, sg) =
    (Inr (messages ts (begun_thread now c imgs th)), update_thread i (\<lambda>_. begun_thread now c imgs th) sess,
      put_undo_manager i (checkpoint nid (turn_number th) (messages ts th) (''Before turn '' @ show_nat (turn_number th))
        (fst (get_undo_manager () i sg))) (snd (get_undo_manager () i sg)))"
  by (cases "get_undo_manager () i sg") (simp add: begin_turn_def begun_thread_def assms Let_def)

lemma checkpoint_top:
  "0 < um_max_checkpoints um \<Longrightarrow> \<exists>us. um_undo_stack (checkpoint nid n ms d um) = us @ [checkpoint_new nid n ms d]"
  by (simp add: checkpoint_def push_undo_def pop_front_while_eq last_n_snoc)

lemma undo_top:
  "um_undo_stack um = us @ [cp] \<Longrightarrow> undo nid n ms um =
     (Some cp, um\<lparr>um_undo_stack := us,
        um_redo_stack := um_redo_stack um @ [checkpoint_new nid n ms (''Turn '' @ show_nat n)]\<rparr>)"
  by (simp add: undo_def Let_def)

lemma redo_top:
  "um_redo_stack um = rs @ [cp] \<Longrightarrow> \<exists>um'. redo nid n ms um = (Some cp, um')"
  by (simp add: redo_def Let_def frame_simps)

lemma process_undo_top:
  assumes "map_of (sg_undo_managers sg) i = Some um" and "um_undo_stack um = us @ [cp]"
    and "map_of (se_threads sess) i = Some th"
  shows "\<exists>r um'. process_undo ts nid now i (sess, sg) =
      (Inr r, update_thread i (restore_from_messages now (cp_messages cp)) sess, put_undo_manager i um' sg) \<and>
    um_redo_stack um' = um_redo_stack um @ [checkpoint_new nid (turn_number th) (messages ts th)
      (''Turn '' @ show_nat (turn_number th))]"
  using assms by (simp add: process_undo_def undo_managers.hit [OF assms(1)] undo_top can_undo_def)
    (rule exI, rule conjI, rule refl, simp)

lemma process_redo_top:
  assumes "map_of (sg_undo_managers sg) i = Some um" and "um_redo_stack um = rs @ [cp]"
    and "map_of (se_threads sess) i = Some th"
  shows "\<exists>r sg'. process_redo ts nid now i (sess, sg) =
      (Inr r, update_thread i (restore_from_messages now (cp_messages cp)) sess, sg')"
  using assms redo_top [OF assms(2), of nid "turn_number th" "messages ts th"]
  by (auto simp: process_redo_def undo_managers.hit [OF assms(1)] can_redo_def)

text \<open>
  Property C29. Undo takes a whole turn back: when a turn was begun on a thread with a stable
  transcript, then whatever happened to the thread since, an undo restores exactly the transcript
  it had before the turn and leaves the thread idle; and a redo right after it restores the
  transcript the undo took away, if that is stable too. Other threads are not affected.
\<close>

theorem undo_takes_turn_back:
  assumes before: "map_of (se_threads sess) i = Some th" and stable: "transcript_stable ts th"
    and room: "0 < um_max_checkpoints (fst (get_undo_manager () i sg))"
    and begun: "begin_turn ts nid t0 i content imgs (sess, sg) = (r, sess1, sg1)"
    and later: "map_of (se_threads sess2) i = Some th2"
    and same: "map_of (sg_undo_managers sg2) i = map_of (sg_undo_managers sg1) i"
    and undone: "process_undo ts nid2 t2 i (sess2, sg2) = (r2, sess3, sg3)"
    and redone: "process_redo ts nid3 t3 i (sess3, sg3) = (r3, sess4, sg4)"
  shows "(\<exists>th3. map_of (se_threads sess3) i = Some th3 \<and> messages ts th3 = messages ts th \<and>
      th_state th3 = ThreadIdle) \<and>
    (transcript_stable ts th2 \<longrightarrow>
      (\<exists>th4. map_of (se_threads sess4) i = Some th4 \<and> messages ts th4 = messages ts th2)) \<and>
    (\<forall>j. j \<noteq> i \<longrightarrow> map_of (se_threads sess4) j = map_of (se_threads sess2) j)"
proof -
  define um where "um = checkpoint nid (turn_number th) (messages ts th)
    (''Before turn '' @ show_nat (turn_number th)) (fst (get_undo_manager () i sg))"
  have um: "map_of (sg_undo_managers sg2) i = Some um"
    using begin_turn_some [OF before, of ts nid t0 content imgs sg] begun same
    by (auto simp: um_def put_undo_manager_def map_of_update_if)
  obtain us where top: "um_undo_stack um = us @ [checkpoint_new nid (turn_number th) (messages ts th)
      (''Before turn '' @ show_nat (turn_number th))]"
    using checkpoint_top [OF room] um_def by blast
  obtain um' where u: "sess3 = update_thread i (restore_from_messages t2 (messages ts th)) sess2"
      "sg3 = put_undo_manager i um' sg2"
    and redo: "um_redo_stack um' = um_redo_stack um @ [checkpoint_new nid2 (turn_number th2) (messages ts th2)
      (''Turn '' @ show_nat (turn_number th2))]"
    using process_undo_top [OF um top later, of ts nid2 t2] undone by (auto simp: checkpoint_new_def)
  have l3: "map_of (se_threads sess3) i = Some (restore_from_messages t2 (messages ts th) th2)"
    by (simp add: u update_thread_lookup later)
  have um3: "map_of (sg_undo_managers sg3) i = Some um'"
    by (simp add: u put_undo_manager_def map_of_update_if)
  have s4: "sess4 = update_thread i (restore_from_messages t3 (messages ts th2)) sess3"
    using process_redo_top [OF um3 redo l3, of ts nid3 t3] redone by (auto simp: checkpoint_new_def)
  show ?thesis
    using l3 by (simp add: s4 update_thread_lookup messages_restore stable) (simp add: u update_thread_lookup)
qed

definition demo_session :: Session where
  "demo_session = snd (create_thread 4 1 (session_new 9 0 ''ann''))"

theorem undo_takes_turn_back_witness:
  "let (r, sess1, sg1) = begin_turn (\<lambda>_. []) 11 2 4 ''hello'' [] (demo_session, session_manager_new);
       (r2, sess3, sg3) = process_undo (\<lambda>_. []) 12 3 4 (sess1, sg1)
   in map_option (messages (\<lambda>_. [])) (map_of (se_threads sess3) 4) = Some []"
proof -
  let ?ts = "\<lambda>_ :: json. [] :: string"
  obtain r sess1 sg1 where b: "begin_turn ?ts 11 2 4 ''hello'' [] (demo_session, session_manager_new) = (r, sess1, sg1)"
    using prod_cases3 by blast
  obtain r2 sess3 sg3 where u: "process_undo ?ts 12 3 4 (sess1, sg1) = (r2, sess3, sg3)"
    using prod_cases3 by blast
  obtain r3 sess4 sg4 where d: "process_redo ?ts 13 4 4 (sess3, sg3) = (r3, sess4, sg4)"
    using prod_cases3 by blast
  have th: "map_of (se_threads demo_session) 4 = Some (thread_new 4 1 9)"
    by (simp add: demo_session_def create_thread_lookup session_new_def)
  have stable: "transcript_stable ?ts (thread_new 4 1 9)" and none: "messages ?ts (thread_new 4 1 9) = []"
    by (simp_all add: transcript_stable_def thread_new_def messages_def)
  have room: "0 < um_max_checkpoints (fst (get_undo_manager () 4 session_manager_new))"
    by (simp add: get_undo_manager_def session_manager_new_def undo_manager_new_def DEFAULT_MAX_CHECKPOINTS_def)
  have later: "map_of (se_threads sess1) 4 = Some (begun_thread 2 ''hello'' [] (thread_new 4 1 9))"
    using begin_turn_some [OF th, of ?ts 11 2 "''hello''" "[]" session_manager_new] b
    by (auto simp: update_thread_lookup th)
  from undo_takes_turn_back [OF th stable room b later refl u d] none
  show ?thesis by (auto simp: b u)
qed

subsection \<open>Every accepted turn ends\<close>

text \<open>
  Property C33. User input is refused, with nothing changed, while the thread is processing, waits
  for an approval or is completed. Otherwise, when the text passes the screens and is no command, a
  turn is run on the thread and always brought to an end: whatever the agentic loop returned and
  did to the thread, the thread is not left in the processing state it was put in, and it waits for
  an approval exactly when the loop asked for one and was not interrupted.
\<close>

theorem user_input_turn_ends:
  assumes th: "map_of (se_threads sess) i = Some th"
    and loop: "\<And>ms s g. map_of (se_threads s) i \<noteq> None \<Longrightarrow>
      map_of (se_threads (fst (snd (run_loop ms (s, g))))) i \<noteq> None"
    and run: "process_user_input ts screen route compact augment run_loop transform nid t0 t1 i content (sess, sg) =
      (r, sess', sg')"
  shows "(th_state th \<in> {ThreadProcessing, ThreadAwaitingApproval, ThreadCompleted} \<longrightarrow>
      (\<exists>e. r = Inr (ResultError e)) \<and> sess' = sess \<and> sg' = sg) \<and>
    (th_state th \<in> {ThreadIdle, ThreadInterrupted} \<longrightarrow> screen content = None \<longrightarrow> route content = None \<longrightarrow>
      (\<exists>th' res. r = Inr res \<and> map_of (se_threads sess') i = Some th' \<and>
        th_state th' \<in> {ThreadIdle, ThreadAwaitingApproval, ThreadInterrupted} \<and>
        (th_state th' = ThreadAwaitingApproval \<longleftrightarrow> (\<exists>a b c d. res = NeedApproval a b c d)) \<and>
        (th_state th' = ThreadInterrupted \<longleftrightarrow> res = ResultInterrupted)))"
proof (intro conjI impI)
  assume "th_state th \<in> {ThreadProcessing, ThreadAwaitingApproval, ThreadCompleted}"
  then show "\<exists>e. r = Inr (ResultError e)" and "sess' = sess" and "sg' = sg"
    using run by (auto simp: process_user_input_def th result_error_def)
next
  assume st: "th_state th \<in> {ThreadIdle, ThreadInterrupted}" and "screen content = None" and "route content = None"
  obtain eff imgs where aug: "augment content = (eff, imgs)" by fastforce
  let ?sess = "update_thread i compact sess"
  have c: "map_of (se_threads ?sess) i = Some (compact th)" by (simp add: update_thread_lookup th)
  obtain ms s1 g1 where b: "begin_turn ts nid t0 i eff imgs (?sess, sg) = (Inr ms, s1, g1)"
    and s1: "map_of (se_threads s1) i \<noteq> None"
    using begin_turn_some [OF c, of ts nid t0 eff imgs sg] c by (auto simp: update_thread_lookup)
  obtain outcome s2 g2 where l: "run_loop ms (s1, g1) = (outcome, s2, g2)" using prod_cases3 by blast
  obtain th2 where th2: "map_of (se_threads s2) i = Some th2" using loop [OF s1, of ms g1] l by auto
  have r: "r = fst (finish_turn transform t1 i outcome s2)" "sess' = snd (finish_turn transform t1 i outcome s2)"
    using run st \<open>screen content = None\<close> \<open>route content = None\<close>
    by (auto simp: process_user_input_def th aug b l Let_def split: prod.splits)
  show "\<exists>th' res. r = Inr res \<and> map_of (se_threads sess') i = Some th' \<and>
        th_state th' \<in> {ThreadIdle, ThreadAwaitingApproval, ThreadInterrupted} \<and>
        (th_state th' = ThreadAwaitingApproval \<longleftrightarrow> (\<exists>a b c d. res = NeedApproval a b c d)) \<and>
        (th_state th' = ThreadInterrupted \<longleftrightarrow> res = ResultInterrupted)"
    unfolding r
    by (auto simp: finish_turn_def th2 update_thread_lookup Let_def result_error_def complete_turn_def fail_turn_def
        await_approval_def split: sum.split AgenticLoopResult.split)
qed

theorem user_input_turn_ends_witness:
  "\<exists>th' res. fst (process_user_input (\<lambda>_. []) (\<lambda>_. None) (\<lambda>_. None) (\<lambda>th. th) (\<lambda>c. (c, []))
       (\<lambda>ms st. (Inr (LoopResponse ''hi''), st)) (\<lambda>x. x) 11 2 3 4 ''hello'' (demo_session, session_manager_new)) = Inr res \<and>
     map_of (se_threads (fst (snd (process_user_input (\<lambda>_. []) (\<lambda>_. None) (\<lambda>_. None) (\<lambda>th. th) (\<lambda>c. (c, []))
       (\<lambda>ms st. (Inr (LoopResponse ''hi''), st)) (\<lambda>x. x) 11 2 3 4 ''hello'' (demo_session, session_manager_new))))) 4 = Some th' \<and>
     th_state th' \<in> {ThreadIdle, ThreadAwaitingApproval, ThreadInterrupted}"
proof -
  let ?loop = "\<lambda>ms st. (Inr (LoopResponse ''hi''), st) :: (string + AgenticLoopResult) \<times> ops_state"
  obtain r s g where run: "process_user_input (\<lambda>_. []) (\<lambda>_. None) (\<lambda>_. None) (\<lambda>th. th) (\<lambda>c. (c, []))
      ?loop (\<lambda>x. x) 11 2 3 4 ''hello'' (demo_session, session_manager_new) = (r, s, g)"
    using prod_cases3 by blast
  have th: "map_of (se_threads demo_session) 4 = Some (thread_new 4 1 9)"
    by (simp add: demo_session_def create_thread_lookup session_new_def)
  have idle: "th_state (thread_new 4 1 9) = ThreadIdle" by (simp add: thread_new_def)
  from user_input_turn_ends [OF th _ run] idle show ?thesis unfolding run by auto
qed

subsection \<open>Approvals\<close>

text \<open>
  Property C35. An answer to an approval request takes effect only on a thread that waits for one,
  and only when the id it names, if any, is that of the pending request; otherwise the request
  stays pending as it was and no tool is approved. Then a rejection ends the turn and an approval
  hands exactly the pending call to execution, adding its tool to the auto-approved ones only when
  asked to; in both cases the request is gone, so that a repeated answer is ignored.
\<close>

theorem approval_used_once:
  assumes th: "map_of (se_threads sess) i = Some th"
  shows "(th_state th \<noteq> ThreadAwaitingApproval \<longrightarrow>
      process_approval execute now i req approved always sess = (Inr (ResultOk (Some '''')), sess)) \<and>
    (th_state th = ThreadAwaitingApproval \<longrightarrow> th_pending_approval th = Some p \<longrightarrow>
      req = Some q \<longrightarrow> q \<noteq> pa_request_id p \<longrightarrow>
      (\<exists>e sess' th'. process_approval execute now i req approved always sess = (Inr (ResultError e), sess') \<and>
         map_of (se_threads sess') i = Some th' \<and> th_state th' = ThreadAwaitingApproval \<and>
         th_pending_approval th' = Some p \<and> se_auto_approved_tools sess' = se_auto_approved_tools sess)) \<and>
    (th_state th = ThreadAwaitingApproval \<longrightarrow> th_pending_approval th = Some p \<longrightarrow>
      req = None \<or> req = Some (pa_request_id p) \<longrightarrow>
      (\<exists>sess' th'. map_of (se_threads sess') i = Some th' \<and> th_pending_approval th' = None \<and>
         th_state th' = (if approved then ThreadProcessing else ThreadIdle) \<and>
         is_tool_auto_approved sess' (pa_tool_name p) =
           ((approved \<and> always) \<or> is_tool_auto_approved sess (pa_tool_name p)) \<and>
         process_approval execute now i req approved always sess =
           (if approved then execute p sess' else (Inr (Response (rejection_text (pa_tool_name p))), sess')) \<and>
         process_approval execute' now' i req' approved' always' sess' = (Inr (ResultOk (Some '''')), sess')))"
proof (intro conjI impI)
  show "process_approval execute now i req approved always sess = (Inr (ResultOk (Some '''')), sess)"
    if "th_state th \<noteq> ThreadAwaitingApproval"
    using that by (simp add: process_approval_def th ok_with_message_def)
  show "\<exists>e sess' th'. process_approval execute now i req approved always sess = (Inr (ResultError e), sess') \<and>
         map_of (se_threads sess') i = Some th' \<and> th_state th' = ThreadAwaitingApproval \<and>
         th_pending_approval th' = Some p \<and> se_auto_approved_tools sess' = se_auto_approved_tools sess"
    if "th_state th = ThreadAwaitingApproval" "th_pending_approval th = Some p" "req = Some q" "q \<noteq> pa_request_id p"
    using that by (simp add: process_approval_def th take_pending_approval_def Let_def result_error_def
        update_thread_lookup await_approval_def frame_simps)
next
  assume st: "th_state th = ThreadAwaitingApproval" and p: "th_pending_approval th = Some p"
    and req: "req = None \<or> req = Some (pa_request_id p)"
  let ?s0 = "update_thread i (\<lambda>_. th\<lparr>th_pending_approval := None\<rparr>) sess"
  define s1 where "s1 = (if approved then update_thread i (\<lambda>th. th\<lparr>th_state := ThreadProcessing\<rparr>)
        (if always then auto_approve_tool (pa_tool_name p) ?s0 else ?s0)
      else update_thread i (\<lambda>th. complete_turn now (rejection_text (pa_tool_name p)) (clear_pending_approval now th)) ?s0)"
  have run: "process_approval execute now i req approved always sess =
      (if approved then execute p s1 else (Inr (Response (rejection_text (pa_tool_name p))), s1))"
    using st p req by (auto simp: process_approval_def th take_pending_approval_def Let_def s1_def)
  have look: "\<exists>th'. map_of (se_threads s1) i = Some th' \<and> th_pending_approval th' = None \<and>
      th_state th' = (if approved then ThreadProcessing else ThreadIdle)"
    by (auto simp: s1_def update_thread_lookup th auto_approve_tool_def complete_turn_def update_last_turn_def
        clear_pending_approval_def)
  have tools: "is_tool_auto_approved s1 (pa_tool_name p) =
      ((approved \<and> always) \<or> is_tool_auto_approved sess (pa_tool_name p))"
    by (auto simp: s1_def is_tool_auto_approved_def frame_simps auto_approve_tool_def)
  have again: "process_approval execute' now' i req' approved' always' s1 = (Inr (ResultOk (Some '''')), s1)"
    using look by (auto simp: process_approval_def ok_with_message_def split: if_splits)
  show "\<exists>sess' th'. map_of (se_threads sess') i = Some th' \<and> th_pending_approval th' = None \<and>
         th_state th' = (if approved then ThreadProcessing else ThreadIdle) \<and>
         is_tool_auto_approved sess' (pa_tool_name p) =
           ((approved \<and> always) \<or> is_tool_auto_approved sess (pa_tool_name p)) \<and>
         process_approval execute now i req approved always sess =
           (if approved then execute p sess' else (Inr (Response (rejection_text (pa_tool_name p))), sess')) \<and>
         process_approval execute' now' i req' approved' always' sess' = (Inr (ResultOk (Some '''')), sess')"
    using look tools run again by blast
qed

theorem approval_used_once_witness:
  "process_approval (\<lambda>p s. (Inl (NotFound 0), s)) 5 4 None True True demo_session =
     (Inr (ResultOk (Some '''')), demo_session)"
proof -
  have th: "map_of (se_threads demo_session) 4 = Some (thread_new 4 1 9)"
    by (simp add: demo_session_def create_thread_lookup session_new_def)
  have "th_state (thread_new 4 1 9) \<noteq> ThreadAwaitingApproval" by (simp add: thread_new_def)
  with approval_used_once [OF th, of "\<lambda>p s. (Inl (NotFound 0), s)" 5 None True True] show ?thesis by blast
qed

end
