(* ===== verification/Cost_Guard.thy ===== *)
theory Cost_Guard
  imports Chat
begin

text \<open>
  Spending and rate limits for model calls: \<^verbatim>\<open>src/agent/cost_guard.rs\<close>, and the way the dispatcher
  uses them (\<open>call_llm\<close> in \<^verbatim>\<open>src/agent/dispatcher.rs\<close>). The lemmas characterise when a call is
  allowed and what a recorded call adds, and show that a guard that once refused for the daily
  budget refuses every later call, on later days too.

  The type of amounts (\<open>rust_decimal\<close>) is a type variable with the operations used; \<open>dec\<close> embeds the
  integers and \<open>tr\<close> is the integer part of an amount. The price table \<open>costs::model_cost\<close> with its
  default is the parameter \<open>price\<close>.
\<close>

record CostGuardConfig =
  gc_max_cost_per_day_cents :: "u64 option"
  gc_max_actions_per_hour :: "u64 option"

datatype CostLimitExceeded = DailyBudget u64 u64 | HourlyRate u64 u64

record 'd ModelTokens =
  mt_input_tokens :: u64
  mt_output_tokens :: u64
  mt_cost :: 'd

record 'd CostGuard =
  cg_config :: CostGuardConfig
  cg_total :: 'd
  cg_reset_date :: int
  cg_action_window :: "instant list"
  cg_budget_exceeded :: bool
  cg_model_tokens :: "(string \<times> 'd ModelTokens) list"

definition cost_guard_new :: "int \<Rightarrow> CostGuardConfig \<Rightarrow> ('d::zero) CostGuard" where
  "cost_guard_new today config =
     \<lparr>cg_config = config, cg_total = 0, cg_reset_date = today, cg_action_window = [],
      cg_budget_exceeded = False, cg_model_tokens = []\<rparr>"

text \<open>\<open>parse::<u64>\<close> fails on negative amounts and beyond 64 bits; the result is then 0.\<close>

definition to_cents :: "(nat \<Rightarrow> 'd::times) \<Rightarrow> ('d \<Rightarrow> int) \<Rightarrow> 'd \<Rightarrow> u64" where
  "to_cents dec tr usd =
     (let cents = tr (usd * dec 100)
      in if 0 \<le> cents \<and> cents < 2 ^ 64 then word_of_int cents else 0)"

definition drain_window :: "instant \<Rightarrow> instant list \<Rightarrow> instant list" where
  "drain_window now w =
     (if secs 3600 \<le> now then dropWhile (\<lambda>t. t < now - secs 3600) w else w)"

definition check_rate :: "instant \<Rightarrow> 'd CostGuard \<Rightarrow> (CostLimitExceeded + unit) \<times> 'd CostGuard" where
  "check_rate now cg =
     (case gc_max_actions_per_hour (cg_config cg) of
        None \<Rightarrow> (Inr (), cg)
      | Some limit \<Rightarrow>
          (let cg = cg\<lparr>cg_action_window := drain_window now (cg_action_window cg)\<rparr>;
               count = of_nat (length (cg_action_window cg)) :: u64
           in if count \<ge> limit then (Inl (HourlyRate count limit), cg) else (Inr (), cg)))"

definition check_allowed ::
    "(nat \<Rightarrow> 'd::times) \<Rightarrow> ('d \<Rightarrow> int) \<Rightarrow> instant \<Rightarrow> 'd CostGuard \<Rightarrow> (CostLimitExceeded + unit) \<times> 'd CostGuard" where
  "check_allowed dec tr now cg =
     (if cg_budget_exceeded cg
      then (Inl (DailyBudget (to_cents dec tr (cg_total cg))
                   (case gc_max_cost_per_day_cents (cg_config cg) of Some l \<Rightarrow> l | None \<Rightarrow> 0)), cg)
      else (case gc_max_cost_per_day_cents (cg_config cg) of
              Some limit_cents \<Rightarrow>
                (let spent_cents = to_cents dec tr (cg_total cg)
                 in if spent_cents \<ge> limit_cents
                    then (Inl (DailyBudget spent_cents limit_cents), cg\<lparr>cg_budget_exceeded := True\<rparr>)
                    else check_rate now cg)
            | None \<Rightarrow> check_rate now cg))"

definition call_cost ::
    "(nat \<Rightarrow> 'd::{zero,one,plus,times,divide}) \<Rightarrow> 'd \<times> 'd \<Rightarrow> u32 \<Rightarrow> u32 \<Rightarrow> u32 \<Rightarrow> u32 \<Rightarrow> 'd \<Rightarrow> 'd \<Rightarrow> 'd" where
  "call_cost dec rates input_tokens output_tokens cache_read cache_creation read_discount write_multiplier =
     (let (input_rate, output_rate) = rates;
          cached_total = saturating_add cache_read cache_creation;
          uncached_input = saturating_sub input_tokens cached_total;
          effective_discount = (if read_discount = 0 then 1 else read_discount);
          cache_read_cost = input_rate * dec (unat cache_read) div effective_discount;
          cache_write_cost = input_rate * dec (unat cache_creation) * write_multiplier
      in input_rate * dec (unat uncached_input) + cache_read_cost + cache_write_cost +
         output_rate * dec (unat output_tokens))"

definition record_llm_call ::
    "(nat \<Rightarrow> 'd::{zero,one,plus,times,divide}) \<Rightarrow> ('d \<Rightarrow> int) \<Rightarrow> (string \<Rightarrow> 'd \<times> 'd) \<Rightarrow> int \<Rightarrow> instant \<Rightarrow>
     string \<Rightarrow> u32 \<Rightarrow> u32 \<Rightarrow> u32 \<Rightarrow> u32 \<Rightarrow> 'd \<Rightarrow> 'd \<Rightarrow> ('d \<times> 'd) option \<Rightarrow> 'd CostGuard \<Rightarrow> 'd \<times> 'd CostGuard" where
  "record_llm_call dec tr price today now model input_tokens output_tokens cache_read cache_creation
      read_discount write_multiplier cost_per_token cg =
     (let rates = (case cost_per_token of Some r \<Rightarrow> r | None \<Rightarrow> price model);
          cost = call_cost dec rates input_tokens output_tokens cache_read cache_creation
                   read_discount write_multiplier;
          cg = (if today \<noteq> cg_reset_date cg
                then cg\<lparr>cg_total := 0, cg_reset_date := today, cg_budget_exceeded := False\<rparr> else cg);
          cg = cg\<lparr>cg_total := cg_total cg + cost\<rparr>;
          cg = (case gc_max_cost_per_day_cents (cg_config cg) of
                  Some limit_cents \<Rightarrow>
                    if to_cents dec tr (cg_total cg) \<ge> limit_cents
                    then cg\<lparr>cg_budget_exceeded := True\<rparr> else cg
                | None \<Rightarrow> cg);
          cg = cg\<lparr>cg_action_window := cg_action_window cg @ [now]\<rparr>;
          entry = (case map_of (cg_model_tokens cg) model of Some e \<Rightarrow> e
                   | None \<Rightarrow> \<lparr>mt_input_tokens = 0, mt_output_tokens = 0, mt_cost = 0\<rparr>);
          entry = entry\<lparr>mt_input_tokens := mt_input_tokens entry + ucast input_tokens,
                        mt_output_tokens := mt_output_tokens entry + ucast output_tokens,
                        mt_cost := mt_cost entry + cost\<rparr>
      in (cost, cg\<lparr>cg_model_tokens := AList.update model entry (cg_model_tokens cg)\<rparr>))"

definition daily_spend :: "int \<Rightarrow> ('d::zero) CostGuard \<Rightarrow> 'd" where
  "daily_spend today cg = (if today \<noteq> cg_reset_date cg then 0 else cg_total cg)"

definition actions_this_hour :: "instant \<Rightarrow> 'd CostGuard \<Rightarrow> u64 \<times> 'd CostGuard" where
  "actions_this_hour now cg =
     (let cg = cg\<lparr>cg_action_window := drain_window now (cg_action_window cg)\<rparr>
      in (of_nat (length (cg_action_window cg)), cg))"

subsection \<open>The dispatcher's use of the guard\<close>

record LlmUsage =
  us_model :: string
  us_input :: u32
  us_output :: u32
  us_cache_read :: u32
  us_cache_creation :: u32

text \<open>
  \<open>call_llm\<close>: check, call the model, record. The outcome of the model call is an argument, an error
  or the usage it reports; \<open>now\<close> is the instant of the check, \<open>now'\<close> and \<open>today\<close> those of the record.
\<close>

definition call_llm ::
    "(nat \<Rightarrow> 'd::{zero,one,plus,times,divide}) \<Rightarrow> ('d \<Rightarrow> int) \<Rightarrow> (string \<Rightarrow> 'd \<times> 'd) \<Rightarrow> 'd \<Rightarrow> 'd \<Rightarrow> 'd \<times> 'd \<Rightarrow>
     (CostLimitExceeded \<Rightarrow> string) \<Rightarrow> instant \<times> instant \<times> int \<times> (LlmError + LlmUsage) \<Rightarrow> 'd CostGuard \<Rightarrow>
     (LlmError + LlmUsage) \<times> 'd CostGuard" where
  "call_llm dec tr price read_discount write_multiplier cost_per_token show_limit ev cg =
     (case ev of (now, now', today, outcome) \<Rightarrow>
       (case check_allowed dec tr now cg of
          (Inl limit, cg) \<Rightarrow> (Inl (InvalidResponse ''agent'' (show_limit limit)), cg)
        | (Inr _, cg) \<Rightarrow>
            (case outcome of
               Inl e \<Rightarrow> (Inl e, cg)
             | Inr u \<Rightarrow>
                 (Inr u, snd (record_llm_call dec tr price today now' (us_model u) (us_input u) (us_output u)
                                (us_cache_read u) (us_cache_creation u) read_discount write_multiplier
                                (Some cost_per_token) cg)))))"

subsection \<open>The hourly rate\<close>

text \<open>The window is in order of time, up to the instant \<open>t\<close>.\<close>

definition window_inv :: "instant \<Rightarrow> 'd CostGuard \<Rightarrow> bool" where
  "window_inv t cg = (sorted (cg_action_window cg) \<and> (\<forall>x \<in> set (cg_action_window cg). x \<le> t))"

abbreviation last_hour :: "instant \<Rightarrow> instant list \<Rightarrow> instant list" where
  "last_hour now w \<equiv> filter (\<lambda>t. now \<le> t + secs 3600) w"

lemma drain_window_eq: "sorted w \<Longrightarrow> drain_window now w = last_hour now w"
proof (cases "secs 3600 \<le> now")
  case True
  assume "sorted w"
  then have "dropWhile (\<lambda>t. t < now - secs 3600) w = filter (\<lambda>t. \<not> t < now - secs 3600) w"
    by (induction w) (auto intro!: filter_True [symmetric] dest: le_less_trans)
  with True show ?thesis by (auto simp: drain_window_def intro: filter_cong)
next
  case False
  then show ?thesis by (auto simp: drain_window_def filter_id_conv)
qed

lemma last_hour_append: "last_hour now (w @ [t]) = last_hour now w @ (if now \<le> t + secs 3600 then [t] else [])"
  by simp

lemma last_hour_idem: "last_hour now (last_hour now w) = last_hour now w"
  by simp

lemma count_less:
  "length w < 2 ^ 64 \<Longrightarrow> (of_nat (length w) :: u64) \<ge> l \<longleftrightarrow> unat l \<le> length w"
  by (simp add: word_le_nat_alt unat_of_nat take_bit_nat_eq_self)

lemma check_rate_spec:
  assumes "sorted (cg_action_window cg)" and "length (cg_action_window cg) < 2 ^ 64"
  shows "fst (check_rate now cg) = Inr () \<longleftrightarrow>
    (\<forall>l. gc_max_actions_per_hour (cg_config cg) = Some l \<longrightarrow>
       length (last_hour now (cg_action_window cg)) < unat l)"
proof -
  have "length (last_hour now (cg_action_window cg)) < 2 ^ 64"
    using assms(2) le_less_trans [OF length_filter_le] by blast
  from count_less [OF this] show ?thesis
    by (auto simp: check_rate_def Let_def drain_window_eq [OF assms(1)] not_le split: option.split)
qed

lemma check_rate_window:
  "sorted (cg_action_window cg) \<Longrightarrow>
   cg_action_window (snd (check_rate now cg)) = cg_action_window cg \<or>
   cg_action_window (snd (check_rate now cg)) = last_hour now (cg_action_window cg)"
  by (auto simp: check_rate_def Let_def drain_window_eq split: option.split)

lemma check_allowed_frame:
  "cg_config (snd (check_allowed dec tr now cg)) = cg_config cg"
  "cg_total (snd (check_allowed dec tr now cg)) = cg_total cg"
  by (auto simp: check_allowed_def check_rate_def Let_def split: option.split)

text \<open>
  Also: On a guard whose recorded actions are in order of time, the next call is allowed
  exactly when no daily budget was exceeded, the amount spent is below the daily limit if there is
  one, and fewer actions than the hourly limit lie within the last hour.
\<close>

theorem check_allowed_iff:
  assumes "sorted (cg_action_window cg)" and "length (cg_action_window cg) < 2 ^ 64"
  shows "fst (check_allowed dec tr now cg) = Inr () \<longleftrightarrow>
    \<not> cg_budget_exceeded cg \<and>
    (\<forall>l. gc_max_cost_per_day_cents (cg_config cg) = Some l \<longrightarrow> to_cents dec tr (cg_total cg) < l) \<and>
    (\<forall>l. gc_max_actions_per_hour (cg_config cg) = Some l \<longrightarrow>
       length (last_hour now (cg_action_window cg)) < unat l)"
  using check_rate_spec [OF assms, of now]
  by (auto simp: check_allowed_def Let_def not_le split: option.split)

definition demo_guard :: "int CostGuard" where
  "demo_guard = \<lparr>cg_config = \<lparr>gc_max_cost_per_day_cents = Some 500, gc_max_actions_per_hour = Some 2\<rparr>,
     cg_total = 3, cg_reset_date = 10, cg_action_window = [secs 10, secs 4000], cg_budget_exceeded = False,
     cg_model_tokens = []\<rparr>"

theorem check_allowed_iff_witness:
  "fst (check_allowed int (\<lambda>x. x) (secs 4100) demo_guard) = Inr ()"
proof -
  have s: "sorted (cg_action_window demo_guard)" and l: "length (cg_action_window demo_guard) < 2 ^ 64"
    by (simp_all add: demo_guard_def)
  show ?thesis unfolding check_allowed_iff [OF s l]
    by (simp add: demo_guard_def to_cents_def word_less_nat_alt)
qed

subsection \<open>Accepted calls respect the hourly limit\<close>

lemma record_llm_call_window:
  "cg_action_window (snd (record_llm_call dec tr price today now m i out cr cc rd wm cpt cg)) =
     cg_action_window cg @ [now]"
  by (auto simp: record_llm_call_def Let_def split: option.split)

text \<open>
  Also: With an hourly limit, time going forward and a guard whose window is in order, every
  model call that is made and recorded leaves at most the allowed number of recorded actions within
  the hour before its check, itself included; and the window stays in order.
\<close>

theorem hourly_rate_enforced:
  assumes inv: "window_inv t cg" and small: "length (cg_action_window cg) < 2 ^ 64"
    and clock: "t \<le> now" "now \<le> now'"
    and limit: "gc_max_actions_per_hour (cg_config cg) = Some l"
    and run: "call_llm dec tr price rd wm cpt sl (now, now', today, outcome) cg = (Inr u, cg')"
  shows "length (last_hour now (cg_action_window cg')) \<le> unat l \<and> window_inv now' cg'"
proof -
  let ?w = "cg_action_window cg"
  from inv have s: "sorted ?w" and le: "\<forall>x \<in> set ?w. x \<le> t" by (auto simp: window_inv_def)
  obtain cg1 where chk: "check_allowed dec tr now cg = (Inr (), cg1)"
    using run by (auto simp: call_llm_def split: prod.splits sum.splits)
  have rate: "check_rate now cg = (Inr (), cg1)"
    using chk by (auto simp: check_allowed_def Let_def split: if_splits option.splits)
  have room: "length (last_hour now ?w) < unat l"
    using check_rate_spec [OF s small, of now] rate limit by simp
  have w1: "cg_action_window cg1 = last_hour now ?w"
    using rate limit by (auto simp: check_rate_def Let_def drain_window_eq [OF s] split: if_splits)
  have w': "cg_action_window cg' = last_hour now ?w @ [now']"
    using run chk w1 by (auto simp: call_llm_def record_llm_call_window split: sum.splits)
  have "window_inv now' cg'"
    using s le clock by (force simp: window_inv_def w' sorted_append intro: sorted_wrt_filter)
  moreover have "length (last_hour now (cg_action_window cg')) \<le> unat l"
    using room clock by (simp add: w' last_hour_idem)
  ultimately show ?thesis by blast
qed

definition demo_usage :: LlmUsage where
  "demo_usage = \<lparr>us_model = ''m'', us_input = 1, us_output = 1, us_cache_read = 0, us_cache_creation = 0\<rparr>"

theorem hourly_rate_enforced_witness:
  "length (last_hour (secs 4100) (cg_action_window
     (snd (call_llm int (\<lambda>x. x) (\<lambda>_. (1, 1)) 1 1 (1, 1) (\<lambda>_. []) (secs 4100, secs 4200, 10, Inr demo_usage) demo_guard)))) \<le> 2"
proof -
  let ?ev = "(secs 4100, secs 4200, 10 :: int, Inr demo_usage :: LlmError + LlmUsage)"
  have inv: "window_inv (secs 4000) demo_guard" by (simp add: window_inv_def demo_guard_def)
  have l: "length (cg_action_window demo_guard) < 2 ^ 64" by (simp add: demo_guard_def)
  have lim: "gc_max_actions_per_hour (cg_config demo_guard) = Some 2" by (simp add: demo_guard_def)
  have ok: "fst (check_allowed int (\<lambda>x. x) (secs 4100) demo_guard) = Inr ()"
    by (simp add: check_allowed_def check_rate_def drain_window_def demo_guard_def to_cents_def word_le_nat_alt)
  then obtain cg' where run: "call_llm int (\<lambda>x. x) (\<lambda>_. (1, 1)) 1 1 (1, 1) (\<lambda>_. []) ?ev demo_guard = (Inr demo_usage, cg')"
    by (cases "check_allowed int (\<lambda>x. x) (secs 4100) demo_guard") (auto simp: call_llm_def)
  have c1: "secs 4000 \<le> secs 4100" and c2: "secs 4100 \<le> secs 4200" by simp_all
  from hourly_rate_enforced [OF inv l c1 c2 lim run] show ?thesis
    unfolding run by (simp add: unat_numeral)
qed

subsection \<open>A reached budget is never reopened\<close>

fun run_calls :: "('e \<Rightarrow> 's \<Rightarrow> 'r \<times> 's) \<Rightarrow> 'e list \<Rightarrow> 's \<Rightarrow> 'r list \<times> 's" where
  "run_calls f [] s = ([], s)"
| "run_calls f (e # es) s = (case f e s of (r, s') \<Rightarrow> (case run_calls f es s' of (rs, s'') \<Rightarrow> (r # rs, s'')))"

lemma call_llm_blocked:
  "cg_budget_exceeded cg \<Longrightarrow> \<exists>e. call_llm dec tr price rd wm cpt sl ev cg = (Inl e, cg)"
  by (cases ev) (auto simp: call_llm_def check_allowed_def)

text \<open>
  Also: Once the daily limit was reached, the guard refuses every further model call, in
  every sequence of calls and on whatever later days they are made: the total and the flag are only
  reset when a call is recorded, which needs the check to pass first. The limit is documented as a
  limit per day.
\<close>

theorem daily_budget_never_reopens:
  assumes limit: "gc_max_cost_per_day_cents (cg_config cg) = Some l"
    and reached: "to_cents dec tr (cg_total cg) \<ge> l"
  shows "case run_calls (call_llm dec tr price rd wm cpt sl) evs cg of (rs, cg') \<Rightarrow>
    cg_total cg' = cg_total cg \<and> cg_reset_date cg' = cg_reset_date cg \<and> length rs = length evs \<and>
    (\<forall>r \<in> set rs. \<exists>e. r = Inl e)"
proof -
  let ?f = "call_llm dec tr price rd wm cpt sl"
  have stuck: "case run_calls ?f evs g of (rs, g') \<Rightarrow> g' = g \<and> length rs = length evs \<and> (\<forall>r \<in> set rs. \<exists>e. r = Inl e)"
    if "cg_budget_exceeded g" for g evs
  proof (induction evs)
    case (Cons ev evs)
    then show ?case using call_llm_blocked [OF that, of dec tr price rd wm cpt sl ev]
      by (auto split: prod.splits)
  qed simp
  have first: "\<exists>e g. ?f ev cg = (Inl e, g) \<and> cg_budget_exceeded g \<and> cg_total g = cg_total cg \<and>
      cg_reset_date g = cg_reset_date cg" for ev
    using limit reached by (cases ev) (auto simp: call_llm_def check_allowed_def Let_def)
  show ?thesis
  proof (cases evs)
    case (Cons ev es)
    obtain e g where g: "?f ev cg = (Inl e, g)" "cg_budget_exceeded g" "cg_total g = cg_total cg"
        "cg_reset_date g = cg_reset_date cg"
      using first by blast
    from stuck [OF g(2), of es] g Cons show ?thesis by (auto split: prod.splits)
  qed simp
qed

theorem daily_budget_never_reopens_witness:
  "\<exists>e. fst (run_calls (call_llm int (\<lambda>x. x) (\<lambda>_. (1, 1)) 1 1 (1, 1) (\<lambda>_. []))
       [(secs 5000, secs 5001, 10, Inr demo_usage), (secs 900000, secs 900001, 20, Inr demo_usage)]
       (demo_guard\<lparr>cg_total := 7\<rparr>)) ! 1 = Inl e"
proof -
  let ?evs = "[(secs 5000, secs 5001, 10, Inr demo_usage), (secs 900000, secs 900001, 20, Inr demo_usage)]
    :: (instant \<times> instant \<times> int \<times> (LlmError + LlmUsage)) list"
  have "gc_max_cost_per_day_cents (cg_config (demo_guard\<lparr>cg_total := 7\<rparr>)) = Some 500"
    and "to_cents int (\<lambda>x. x) (cg_total (demo_guard\<lparr>cg_total := 7\<rparr>)) \<ge> 500"
    by (simp_all add: demo_guard_def to_cents_def word_le_nat_alt)
  note blocked = daily_budget_never_reopens [OF this, of ?evs "\<lambda>_. (1, 1)" 1 1 "(1, 1)" "\<lambda>_. []"]
  let ?r = "run_calls (call_llm int (\<lambda>x. x) (\<lambda>_. (1, 1)) 1 1 (1, 1) (\<lambda>_. [])) ?evs (demo_guard\<lparr>cg_total := 7\<rparr>)"
  have len: "length (fst ?r) = 2" and all: "\<forall>r \<in> set (fst ?r). \<exists>e. r = Inl e"
    using blocked by (simp_all only: case_prod_unfold list.size) simp_all
  have "fst ?r ! 1 \<in> set (fst ?r)" using len by (intro nth_mem) simp
  with all show ?thesis by blast
qed

end
