(* ===== verification/Tool.thy ===== *)
theory Tool
  imports Chat
begin

text \<open>
  What tools share (\<^verbatim>\<open>src/tools/tool.rs\<close>): errors, the approval a call needs, access to parameters and
  their redaction.
\<close>

datatype ToolError =
    InvalidParameters string | ExecutionFailed string | ToolTimeout duration | NotAuthorized string
  | ToolRateLimited "duration option" | ExternalService string | ToolSandbox string

datatype ApprovalRequirement = Never | UnlessAutoApproved | Always

definition json_get :: "string \<Rightarrow> json \<Rightarrow> json option" where
  "json_get k j = (case j of JObject kvs \<Rightarrow> map_of kvs k | _ \<Rightarrow> None)"

definition as_str :: "json \<Rightarrow> string option" where
  "as_str j = (case j of JString s \<Rightarrow> Some s | _ \<Rightarrow> None)"

definition require_str :: "json \<Rightarrow> string \<Rightarrow> ToolError + string" where
  "require_str params name =
     (case Option.bind (json_get name params) as_str of
        Some s \<Rightarrow> Inr s
      | None \<Rightarrow> Inl (InvalidParameters (''missing '' @ [CHR 0x27] @ name @ [CHR 0x27] @ '' parameter'')))"

definition redact_params :: "json \<Rightarrow> string list \<Rightarrow> json" where
  "redact_params params sensitive =
     (if sensitive = [] then params
      else case params of
          JObject kvs \<Rightarrow>
            JObject (fold (\<lambda>key kvs. if key \<in> set (keys kvs) then AList.update key (JString ''[REDACTED]'') kvs else kvs)
              sensitive kvs)
        | _ \<Rightarrow> params)"

end
