(* ===== verification/Net_Guard.thy ===== *)
theory Net_Guard
  imports Tool
begin

text \<open>
  The guards against requests to internal addresses. The program has five of them: for the HTTP tool
  (\<^verbatim>\<open>src/tools/builtin/http.rs\<close>), for skill downloads (\<^verbatim>\<open>src/tools/builtin/skill_tools.rs\<close>), for WASM
  tools (\<^verbatim>\<open>src/tools/wasm/wrapper.rs\<close>), for MCP authorization (\<^verbatim>\<open>src/tools/mcp/auth.rs\<close>) and for
  webhook hooks (\<^verbatim>\<open>src/hooks/bundled.rs\<close>). Each has its own test on addresses. The reference is the
  list \<open>internal_nets\<close> of networks; the lemmas say which of the tests cover it, and what an accepted URL
  can be connected to.

  The URL parser, the parser of addresses and the resolver are arguments, collected in \<open>NetEnv\<close>.
\<close>

unbundle bit_operations_syntax

subsection \<open>Addresses\<close>

type_synonym u8 = "8 word"
type_synonym u16 = "16 word"

datatype Ipv4Addr = Ipv4 u8 u8 u8 u8

datatype Ipv6Addr = Ipv6 u16 u16 u16 u16 u16 u16 u16 u16

datatype IpAddr = V4 Ipv4Addr | V6 Ipv6Addr

fun v4_octets :: "Ipv4Addr \<Rightarrow> u8 list" where
  "v4_octets (Ipv4 a b c d) = [a, b, c, d]"

fun v6_segments :: "Ipv6Addr \<Rightarrow> u16 list" where
  "v6_segments (Ipv6 a b c d e f g h) = [a, b, c, d, e, f, g, h]"

text \<open>The classification of the standard library.\<close>

fun v4_is_private :: "Ipv4Addr \<Rightarrow> bool" where
  "v4_is_private (Ipv4 a b c d) = (a = 10 \<or> a = 172 \<and> 16 \<le> b \<and> b \<le> 31 \<or> a = 192 \<and> b = 168)"

fun v4_is_loopback :: "Ipv4Addr \<Rightarrow> bool" where
  "v4_is_loopback (Ipv4 a b c d) = (a = 127)"

fun v4_is_link_local :: "Ipv4Addr \<Rightarrow> bool" where
  "v4_is_link_local (Ipv4 a b c d) = (a = 169 \<and> b = 254)"

definition v4_is_broadcast :: "Ipv4Addr \<Rightarrow> bool" where
  "v4_is_broadcast ip = (ip = Ipv4 255 255 255 255)"

fun v4_is_documentation :: "Ipv4Addr \<Rightarrow> bool" where
  "v4_is_documentation (Ipv4 a b c d) =
     (a = 192 \<and> b = 0 \<and> c = 2 \<or> a = 198 \<and> b = 51 \<and> c = 100 \<or> a = 203 \<and> b = 0 \<and> c = 113)"

definition v4_is_unspecified :: "Ipv4Addr \<Rightarrow> bool" where
  "v4_is_unspecified ip = (ip = Ipv4 0 0 0 0)"

fun v4_is_multicast :: "Ipv4Addr \<Rightarrow> bool" where
  "v4_is_multicast (Ipv4 a b c d) = (224 \<le> a \<and> a \<le> 239)"

definition v6_is_loopback :: "Ipv6Addr \<Rightarrow> bool" where
  "v6_is_loopback ip = (ip = Ipv6 0 0 0 0 0 0 0 1)"

definition v6_is_unspecified :: "Ipv6Addr \<Rightarrow> bool" where
  "v6_is_unspecified ip = (ip = Ipv6 0 0 0 0 0 0 0 0)"

fun v6_is_unique_local :: "Ipv6Addr \<Rightarrow> bool" where
  "v6_is_unique_local (Ipv6 a b c d e f g h) = (a AND 0xfe00 = 0xfc00)"

fun v6_is_unicast_link_local :: "Ipv6Addr \<Rightarrow> bool" where
  "v6_is_unicast_link_local (Ipv6 a b c d e f g h) = (a AND 0xffc0 = 0xfe80)"

fun v6_is_multicast :: "Ipv6Addr \<Rightarrow> bool" where
  "v6_is_multicast (Ipv6 a b c d e f g h) = (a AND 0xff00 = 0xff00)"

definition mapped_v4 :: "u16 \<Rightarrow> u16 \<Rightarrow> Ipv4Addr" where
  "mapped_v4 g h = Ipv4 (ucast (drop_bit 8 g)) (ucast g) (ucast (drop_bit 8 h)) (ucast h)"

fun to_ipv4_mapped :: "Ipv6Addr \<Rightarrow> Ipv4Addr option" where
  "to_ipv4_mapped (Ipv6 a b c d e f g h) =
     (if a = 0 \<and> b = 0 \<and> c = 0 \<and> d = 0 \<and> e = 0 \<and> f = 0xffff then Some (mapped_v4 g h) else None)"

subsection \<open>The tests on addresses\<close>

text \<open>Webhook hooks.\<close>

fun ipv6_mapped_ipv4 :: "Ipv6Addr \<Rightarrow> Ipv4Addr option" where
  "ipv6_mapped_ipv4 (Ipv6 a b c d e f g h) =
     (if a = 0 \<and> b = 0 \<and> c = 0 \<and> d = 0 \<and> e = 0 \<and> f = 0xffff
      then Some (Ipv4 (ucast (drop_bit 8 g)) (ucast g) (ucast (drop_bit 8 h)) (ucast h)) else None)"

definition is_forbidden_ipv4 :: "Ipv4Addr \<Rightarrow> bool" where
  "is_forbidden_ipv4 ip =
     (v4_is_private ip \<or> v4_is_loopback ip \<or> v4_is_link_local ip \<or> v4_is_broadcast ip \<or> v4_is_documentation ip \<or>
      v4_is_unspecified ip \<or> v4_is_multicast ip \<or>
      (case ip of Ipv4 a b _ _ \<Rightarrow> a = 100 \<and> 64 \<le> b \<and> b \<le> 127) \<or>
      (case ip of Ipv4 a b _ _ \<Rightarrow> a = 198 \<and> (b = 18 \<or> b = 19)))"

fun is_forbidden_ip :: "IpAddr \<Rightarrow> bool" where
  "is_forbidden_ip (V4 ip) = is_forbidden_ipv4 ip"
| "is_forbidden_ip (V6 ip) =
     (case ipv6_mapped_ipv4 ip of
        Some mapped \<Rightarrow> is_forbidden_ipv4 mapped
      | None \<Rightarrow>
          v6_is_loopback ip \<or> v6_is_unspecified ip \<or> v6_is_unique_local ip \<or> v6_is_unicast_link_local ip \<or>
          v6_is_multicast ip \<or> (v6_segments ip ! 0 = 0x2001 \<and> v6_segments ip ! 1 = 0x0db8))"

text \<open>The HTTP tool.\<close>

fun is_disallowed_ip :: "IpAddr \<Rightarrow> bool" where
  "is_disallowed_ip (V4 ip) =
     (v4_is_private ip \<or> v4_is_loopback ip \<or> v4_is_link_local ip \<or> v4_is_multicast ip \<or> v4_is_unspecified ip \<or>
      ip = Ipv4 169 254 169 254)"
| "is_disallowed_ip (V6 ip) =
     (v6_is_loopback ip \<or> v6_is_unique_local ip \<or> v6_is_unicast_link_local ip \<or> v6_is_multicast ip \<or> v6_is_unspecified ip)"

text \<open>WASM tools.\<close>

fun wasm_is_private_ip :: "IpAddr \<Rightarrow> bool" where
  "wasm_is_private_ip (V4 ip) =
     (v4_is_loopback ip \<or> v4_is_private ip \<or> v4_is_link_local ip \<or> v4_is_unspecified ip \<or>
      v4_octets ip ! 0 = 100 \<and> v4_octets ip ! 1 AND 0xC0 = 64)"
| "wasm_is_private_ip (V6 ip) =
     (v6_is_loopback ip \<or> v6_is_unspecified ip \<or> v6_segments ip ! 0 AND 0xFE00 = 0xFC00 \<or>
      v6_segments ip ! 0 AND 0xFFC0 = 0xFE80)"

text \<open>Skill downloads.\<close>

fun normalize_ip :: "IpAddr \<Rightarrow> IpAddr" where
  "normalize_ip (V6 ip) = (case to_ipv4_mapped ip of Some v4 \<Rightarrow> V4 v4 | None \<Rightarrow> V6 ip)"
| "normalize_ip (V4 ip) = V4 ip"

fun ip_is_loopback :: "IpAddr \<Rightarrow> bool" where
  "ip_is_loopback (V4 ip) = v4_is_loopback ip"
| "ip_is_loopback (V6 ip) = v6_is_loopback ip"

fun ip_is_unspecified :: "IpAddr \<Rightarrow> bool" where
  "ip_is_unspecified (V4 ip) = v4_is_unspecified ip"
| "ip_is_unspecified (V6 ip) = v6_is_unspecified ip"

fun skill_is_private_ip :: "IpAddr \<Rightarrow> bool" where
  "skill_is_private_ip (V4 ip) = (v4_is_private ip \<or> v4_is_link_local ip)"
| "skill_is_private_ip (V6 ip) = (v6_segments ip ! 0 AND 0xfe00 = 0xfc00)"

fun is_link_local_ip :: "IpAddr \<Rightarrow> bool" where
  "is_link_local_ip (V4 ip) = v4_is_link_local ip"
| "is_link_local_ip (V6 ip) = (v6_segments ip ! 0 AND 0xffc0 = 0xfe80)"

definition fetch_ip_refused :: "IpAddr \<Rightarrow> bool" where
  "fetch_ip_refused ip = (ip_is_loopback ip \<or> ip_is_unspecified ip \<or> skill_is_private_ip ip \<or> is_link_local_ip ip)"

text \<open>MCP authorization. The recursion on the mapped address is unfolded: an IPv4 address has none.\<close>

definition is_dangerous_ipv4 :: "Ipv4Addr \<Rightarrow> bool" where
  "is_dangerous_ipv4 ip =
     (v4_is_loopback ip \<or> v4_is_private ip \<or> v4_is_link_local ip \<or> v4_is_broadcast ip \<or> v4_is_unspecified ip \<or>
      v4_octets ip ! 0 = 169 \<and> v4_octets ip ! 1 = 254 \<or> v4_octets ip ! 0 = 100 \<and> v4_octets ip ! 1 AND 0xC0 = 64)"

fun is_dangerous_ip :: "IpAddr \<Rightarrow> bool" where
  "is_dangerous_ip (V4 ip) = is_dangerous_ipv4 ip"
| "is_dangerous_ip (V6 ip) =
     (v6_is_loopback ip \<or> v6_is_unspecified ip \<or> v6_segments ip ! 0 AND 0xffc0 = 0xfe80 \<or>
      v6_segments ip ! 0 AND 0xffc0 = 0xfec0 \<or> v6_segments ip ! 0 AND 0xfe00 = 0xfc00 \<or>
      v6_segments ip ! 0 = 0x2001 \<and> v6_segments ip ! 1 = 0x0db8 \<or>
      (case to_ipv4_mapped ip of Some v4 \<Rightarrow> is_dangerous_ipv4 v4 | None \<Rightarrow> False))"

subsection \<open>The guards\<close>

text \<open>
  A parsed URL, as far as the guards look at it: the host as it is written in the URL (an IPv6 address
  in brackets) and as the parser classifies it, and the port with the default of the scheme.
\<close>

datatype Host = Domain string | HostV4 Ipv4Addr | HostV6 Ipv6Addr

record Url =
  u_scheme :: string
  u_username :: string
  u_password :: "string option"
  u_host :: "Host option"
  u_host_str :: "string option"
  u_port_or_known_default :: "nat option"
  u_path :: string

record NetEnv =
  ne_parse_url :: "string \<Rightarrow> string + Url"
  ne_parse_ip :: "string \<Rightarrow> IpAddr option"
  ne_lookup :: "string \<Rightarrow> nat \<Rightarrow> string + IpAddr list"
  ne_show_ip :: "IpAddr \<Rightarrow> string"
  ne_show_host :: "Host \<Rightarrow> string"

text \<open>A client that resolves names itself, or one whose addresses for a name are fixed.\<close>

datatype Client = BaseClient | PinnedClient string "IpAddr list"

subsubsection \<open>Webhook hooks\<close>

datatype HookBundleError =
    InvalidFormat string | MissingHookPoints string | InvalidRegex string string string
  | InvalidTimeout string u64 | InvalidWebhookUrl string string | InvalidWebhookScheme string string
  | ForbiddenWebhookHost string string | InvalidWebhookHeader string string string
  | ForbiddenWebhookHeader string string | InvalidWebhookMaxInFlight string

definition normalize_host :: "string \<Rightarrow> string" where
  "normalize_host host = rev (dropWhile (\<lambda>c. c = CHR '']'') (rev (dropWhile (\<lambda>c. c = CHR ''['') host)))"

definition is_forbidden_webhook_host :: "string \<Rightarrow> bool" where
  "is_forbidden_webhook_host host =
     (let lower = to_lowercase host
      in lower = ''localhost'' \<or> ends_with lower ''.localhost'' \<or> lower = ''host.docker.internal'' \<or>
         lower = ''metadata.google.internal'' \<or> lower = ''metadata.aws.internal'')"

definition is_forbidden_header :: "string \<Rightarrow> bool" where
  "is_forbidden_header name =
     (let lower = to_lowercase name
      in lower \<in> set [''host'', ''authorization'', ''cookie'', ''proxy-authorization'', ''forwarded'', ''x-real-ip'',
           ''transfer-encoding'', ''connection''] \<or> starts_with lower ''x-forwarded-'')"

definition validate_webhook_url :: "NetEnv \<Rightarrow> string \<Rightarrow> string \<Rightarrow> HookBundleError + Url" where
  "validate_webhook_url env hook url =
     (case ne_parse_url env url of
        Inl _ \<Rightarrow> Inl (InvalidWebhookUrl hook url)
      | Inr parsed \<Rightarrow>
          if u_scheme parsed \<noteq> ''https'' then Inl (InvalidWebhookScheme hook (u_scheme parsed))
          else if u_username parsed \<noteq> [] \<or> u_password parsed \<noteq> None then Inl (InvalidWebhookUrl hook url)
          else (case u_host_str parsed of
             None \<Rightarrow> Inr parsed
           | Some host \<Rightarrow>
               let normalized = normalize_host host
               in case ne_parse_ip env normalized of
                   Some ip \<Rightarrow> if is_forbidden_ip ip then Inl (ForbiddenWebhookHost hook normalized) else Inr parsed
                 | None \<Rightarrow>
                     if is_forbidden_webhook_host normalized then Inl (ForbiddenWebhookHost hook normalized) else Inr parsed))"

definition dispatch_client_for_target :: "NetEnv \<Rightarrow> string \<Rightarrow> string + Client" where
  "dispatch_client_for_target env url =
     (case ne_parse_url env url of
        Inl e \<Rightarrow> Inl (''Invalid URL: '' @ e)
      | Inr parsed \<Rightarrow>
          (case u_host_str parsed of
             None \<Rightarrow> Inl ''Webhook URL has no host''
           | Some host \<Rightarrow>
               let normalized = normalize_host host
               in case ne_parse_ip env normalized of
                   Some ip \<Rightarrow>
                     if is_forbidden_ip ip then Inl (''Webhook target resolves to blocked IP '' @ ne_show_ip env ip)
                     else Inr BaseClient
                 | None \<Rightarrow>
                     (case u_port_or_known_default parsed of
                        None \<Rightarrow> Inl ''Webhook URL has no valid port''
                      | Some port \<Rightarrow>
                          (case ne_lookup env normalized port of
                             Inl e \<Rightarrow> Inl (''DNS resolution failed: '' @ e)
                           | Inr addrs \<Rightarrow>
                               if addrs = [] then Inl ''DNS resolution returned no addresses''
                               else (case find is_forbidden_ip addrs of
                                  Some ip \<Rightarrow> Inl (''Webhook target resolves to blocked IP '' @ ne_show_ip env ip)
                                | None \<Rightarrow> Inr (PinnedClient normalized addrs))))))"

subsubsection \<open>The HTTP tool\<close>

definition http_validate_url :: "NetEnv \<Rightarrow> string \<Rightarrow> ToolError + Url" where
  "http_validate_url env url =
     (case ne_parse_url env url of
        Inl e \<Rightarrow> Inl (InvalidParameters (''invalid URL: '' @ e))
      | Inr parsed \<Rightarrow>
          if u_scheme parsed \<noteq> ''https'' then Inl (NotAuthorized ''only https URLs are allowed'')
          else (case u_host_str parsed of
             None \<Rightarrow> Inl (InvalidParameters ''URL missing host'')
           | Some host \<Rightarrow>
               let host_lower = to_lowercase host
               in if host_lower = ''localhost'' \<or> ends_with host_lower ''.localhost''
                  then Inl (NotAuthorized ''localhost is not allowed'')
                  else if (case ne_parse_ip env host of Some ip \<Rightarrow> is_disallowed_ip ip | None \<Rightarrow> False)
                  then Inl (NotAuthorized ''private or local IPs are not allowed'')
                  else (case ne_lookup env host (case u_port_or_known_default parsed of Some p \<Rightarrow> p | None \<Rightarrow> 443) of
                     Inl _ \<Rightarrow> Inr parsed
                   | Inr addrs \<Rightarrow>
                       (case find is_disallowed_ip addrs of
                          Some ip \<Rightarrow>
                            Inl (NotAuthorized (''hostname '' @ [CHR 0x27] @ host @ [CHR 0x27] @
                              '' resolves to disallowed IP '' @ ne_show_ip env ip))
                        | None \<Rightarrow> Inr parsed))))"

subsubsection \<open>WASM tools\<close>

definition strip_brackets :: "string \<Rightarrow> string" where
  "strip_brackets h =
     (case strip_prefix ''['' h of
        Some v \<Rightarrow> (case strip_suffix '']'' v of Some w \<Rightarrow> w | None \<Rightarrow> h)
      | None \<Rightarrow> h)"

definition extract_host_from_url :: "NetEnv \<Rightarrow> string \<Rightarrow> string option" where
  "extract_host_from_url env url =
     (case ne_parse_url env url of
        Inl _ \<Rightarrow> None
      | Inr parsed \<Rightarrow>
          if u_scheme parsed \<notin> {''http'', ''https''} then None
          else map_option (\<lambda>h. to_lowercase (strip_brackets h)) (u_host_str parsed))"

definition reject_private_ip :: "NetEnv \<Rightarrow> string \<Rightarrow> string + unit" where
  "reject_private_ip env url =
     (case ne_parse_url env url of
        Inl e \<Rightarrow> Inl (''Failed to parse URL: '' @ e)
      | Inr parsed \<Rightarrow>
          if u_scheme parsed \<notin> {''http'', ''https''} then Inl (''Unsupported URL scheme: '' @ u_scheme parsed)
          else if u_username parsed \<noteq> [] \<or> u_password parsed \<noteq> None
          then Inl ''URL contains userinfo (@) which is not allowed''
          else (case u_host_str parsed of
             None \<Rightarrow> Inl ''Failed to parse host from URL''
           | Some h \<Rightarrow>
               let host = strip_brackets h
               in case ne_parse_ip env host of
                   Some ip \<Rightarrow>
                     if wasm_is_private_ip ip
                     then Inl (''HTTP request to private/internal IP '' @ ne_show_ip env ip @ '' is not allowed'')
                     else Inr ()
                 | None \<Rightarrow>
                     (case ne_lookup env host 0 of
                        Inl e \<Rightarrow> Inl (''DNS resolution failed for '' @ host @ '': '' @ e)
                      | Inr addrs \<Rightarrow>
                          if addrs = [] then Inl (''DNS resolution returned no addresses for '' @ host)
                          else (case find wasm_is_private_ip addrs of
                             Some ip \<Rightarrow>
                               Inl (''DNS rebinding detected: '' @ host @ '' resolved to private IP '' @ ne_show_ip env ip)
                           | None \<Rightarrow> Inr ()))))"

subsubsection \<open>Skill downloads\<close>

fun host_ip_addr :: "Host \<Rightarrow> IpAddr option" where
  "host_ip_addr (HostV4 v4) = Some (V4 v4)"
| "host_ip_addr (HostV6 v6) = Some (normalize_ip (V6 v6))"
| "host_ip_addr (Domain _) = None"

definition validate_fetch_ip :: "IpAddr \<Rightarrow> string \<Rightarrow> ToolError + unit" where
  "validate_fetch_ip ip display_host =
     (if fetch_ip_refused ip
      then Inl (ExecutionFailed (''URL points to a private/loopback/link-local address: '' @ display_host))
      else Inr ())"

definition normalize_domain :: "string \<Rightarrow> string" where
  "normalize_domain host = rev (dropWhile (\<lambda>c. c = CHR ''.'') (rev host))"

definition validate_fetch_url :: "NetEnv \<Rightarrow> string \<Rightarrow> ToolError + Url" where
  "validate_fetch_url env url =
     (case ne_parse_url env url of
        Inl e \<Rightarrow> Inl (ExecutionFailed (''Invalid URL '' @ [CHR 0x27] @ url @ [CHR 0x27] @ '': '' @ e))
      | Inr parsed \<Rightarrow>
          if u_scheme parsed \<noteq> ''https''
          then Inl (ExecutionFailed (''Only HTTPS URLs are allowed for skill fetching, got scheme '' @ [CHR 0x27] @
            u_scheme parsed @ [CHR 0x27]))
          else (case u_host parsed of
             None \<Rightarrow> Inl (ExecutionFailed ''URL has no host'')
           | Some host \<Rightarrow>
               (case (case host_ip_addr host of Some ip \<Rightarrow> validate_fetch_ip ip (ne_show_host env host) | None \<Rightarrow> Inr ()) of
                  Inl e \<Rightarrow> Inl e
                | Inr _ \<Rightarrow>
                    let host_lower = to_lowercase (normalize_domain (ne_show_host env host))
                    in if host_lower = ''localhost'' \<or> host_lower = ''metadata.google.internal'' \<or>
                          ends_with host_lower ''.internal'' \<or> ends_with host_lower ''.local''
                       then Inl (ExecutionFailed (''URL points to an internal hostname: '' @ ne_show_host env host))
                       else Inr parsed)))"

fun validate_addrs :: "string \<Rightarrow> IpAddr list \<Rightarrow> ToolError + unit" where
  "validate_addrs host [] = Inr ()"
| "validate_addrs host (ip # ips) =
     (case validate_fetch_ip (normalize_ip ip) host of Inl e \<Rightarrow> Inl e | Inr _ \<Rightarrow> validate_addrs host ips)"

definition validate_resolved_addrs :: "string \<Rightarrow> IpAddr list \<Rightarrow> ToolError + unit" where
  "validate_resolved_addrs host addrs =
     (if addrs = [] then Inl (ExecutionFailed (''DNS resolution returned no addresses for '' @ host))
      else validate_addrs host addrs)"

definition build_safe_fetch_client :: "NetEnv \<Rightarrow> Url \<Rightarrow> ToolError + Client" where
  "build_safe_fetch_client env parsed =
     (case u_host parsed of
        None \<Rightarrow> Inl (ExecutionFailed ''URL has no host'')
      | Some (Domain domain) \<Rightarrow>
          (case u_port_or_known_default parsed of
             None \<Rightarrow> Inl (ExecutionFailed ''URL has no valid port'')
           | Some port \<Rightarrow>
               (case ne_lookup env (normalize_domain domain) port of
                  Inl e \<Rightarrow> Inl (ExecutionFailed (''DNS resolution failed for '' @ normalize_domain domain @ '': '' @ e))
                | Inr addrs \<Rightarrow>
                    (case validate_resolved_addrs domain addrs of
                       Inl e \<Rightarrow> Inl e
                     | Inr _ \<Rightarrow> Inr (PinnedClient domain addrs))))
      | Some _ \<Rightarrow> Inr BaseClient)"

subsubsection \<open>MCP authorization\<close>

definition validate_url_safe :: "NetEnv \<Rightarrow> string \<Rightarrow> string + unit" where
  "validate_url_safe env url =
     (case ne_parse_url env url of
        Inl e \<Rightarrow> Inl (''Invalid URL: '' @ e)
      | Inr parsed \<Rightarrow>
          let scheme = u_scheme parsed
          in if scheme \<noteq> ''https'' \<and> scheme \<noteq> ''http'' then Inl (''Unsupported scheme: '' @ scheme)
             else if scheme = ''http''
             then (let host = (case u_host_str parsed of Some h \<Rightarrow> h | None \<Rightarrow> [])
                   in if host \<in> {''localhost'', ''127.0.0.1'', ''::1'', ''[::1]''} then Inr ()
                      else Inl (''HTTP is only allowed for localhost; use HTTPS for '' @ [CHR 0x27] @ host @ [CHR 0x27]))
             else (case u_host_str parsed of
                None \<Rightarrow> Inl ''URL has no host''
              | Some host \<Rightarrow>
                  (case ne_parse_ip env host of
                     Some ip \<Rightarrow>
                       if is_dangerous_ip ip then Inl (''URL points to a restricted IP address: '' @ host) else Inr ()
                   | None \<Rightarrow>
                       (case ne_lookup env host (case u_port_or_known_default parsed of Some p \<Rightarrow> p | None \<Rightarrow> 443) of
                          Inl e \<Rightarrow> Inl (''DNS resolution failed for '' @ [CHR 0x27] @ host @ [CHR 0x27] @ '': '' @ e)
                        | Inr addrs \<Rightarrow>
                            (case find is_dangerous_ip addrs of
                               Some ip \<Rightarrow>
                                 Inl (''URL hostname '' @ [CHR 0x27] @ host @ [CHR 0x27] @
                                   '' resolves to restricted IP address: '' @ ne_show_ip env ip)
                             | None \<Rightarrow> Inr ())))))"

subsection \<open>Internal networks\<close>

text \<open>
  The reference: an address as a number, and the networks that are internal to a host or a site, each
  as its first address and the number of free bits.
\<close>

fun v4_num :: "Ipv4Addr \<Rightarrow> nat" where
  "v4_num (Ipv4 a b c d) = ((unat a * 256 + unat b) * 256 + unat c) * 256 + unat d"

definition seg_num :: "u16 list \<Rightarrow> nat" where
  "seg_num ss = foldl (\<lambda>n s. n * 65536 + unat s) 0 ss"

definition v6_num :: "Ipv6Addr \<Rightarrow> nat" where
  "v6_num ip = seg_num (v6_segments ip)"

definition in_nets :: "(nat \<times> nat) list \<Rightarrow> nat \<Rightarrow> bool" where
  "in_nets nets n = (\<exists>(base, k) \<in> set nets. base \<le> n \<and> n < base + 2 ^ k)"

text \<open>0.0.0.0/32, 10.0.0.0/8, 127.0.0.0/8, 169.254.0.0/16, 172.16.0.0/12, 192.168.0.0/16\<close>

definition internal_nets_v4 :: "(nat \<times> nat) list" where
  "internal_nets_v4 =
     [(0, 0), (10 * 2 ^ 24, 24), (127 * 2 ^ 24, 24), (169 * 2 ^ 24 + 254 * 2 ^ 16, 16),
      (172 * 2 ^ 24 + 16 * 2 ^ 16, 20), (192 * 2 ^ 24 + 168 * 2 ^ 16, 16)]"

text \<open>::/128, ::1/128, fc00::/7, fe80::/10\<close>

definition internal_nets_v6 :: "(nat \<times> nat) list" where
  "internal_nets_v6 = [(0, 0), (1, 0), (0xfc00 * 2 ^ 112, 121), (0xfe80 * 2 ^ 112, 118)]"

text \<open>An IPv4-mapped address ::ffff:a.b.c.d reaches the host a.b.c.d.\<close>

definition mapped_base :: nat where
  "mapped_base = 0xffff * 2 ^ 32"

definition direct_internal :: "IpAddr \<Rightarrow> bool" where
  "direct_internal ip = (case ip of V4 a \<Rightarrow> in_nets internal_nets_v4 (v4_num a) | V6 a \<Rightarrow> in_nets internal_nets_v6 (v6_num a))"

definition internal :: "IpAddr \<Rightarrow> bool" where
  "internal ip = (direct_internal ip \<or>
     (case ip of V4 _ \<Rightarrow> False | V6 a \<Rightarrow>
        mapped_base \<le> v6_num a \<and> v6_num a < mapped_base + 2 ^ 32 \<and> in_nets internal_nets_v4 (v6_num a - mapped_base)))"

subsection \<open>The reference and the classification of the standard library\<close>

lemma unat_u8_less: "unat (a :: u8) < 256"
  using unsigned_less [where 'a = nat, of a] by simp

lemma unat_u16_less: "unat (a :: u16) < 65536"
  using unsigned_less [where 'a = nat, of a] by simp

lemma block_iff:
  fixes x r m :: nat
  assumes "r < m"
  shows "q * m \<le> x * m + r \<and> x * m + r < p * m \<longleftrightarrow> q \<le> x \<and> x < p"
proof -
  have "(x * m + r) div m = x" using assms by simp
  then have "q * m \<le> x * m + r \<longleftrightarrow> q \<le> x" and "x * m + r < p * m \<longleftrightarrow> x < p"
    using assms less_eq_div_iff_mult_less_eq [of m q "x * m + r"] div_less_iff_less_mult [of m "x * m + r" p] by auto
  then show ?thesis by simp
qed

lemma v4_block:
  fixes a b c d :: nat
  assumes "c < 256" and "d < 256" and "base = q * 65536" and "base + 2 ^ k = p * 65536"
  shows "base \<le> ((a * 256 + b) * 256 + c) * 256 + d \<and> ((a * 256 + b) * 256 + c) * 256 + d < base + 2 ^ k \<longleftrightarrow>
    q \<le> a * 256 + b \<and> a * 256 + b < p"
proof -
  have "c * 256 + d < 65536" using assms by linarith
  from block_iff [OF this, of q "a * 256 + b" p] assms(3, 4) show ?thesis by (simp add: algebra_simps)
qed

lemma internal_v4_iff:
  "in_nets internal_nets_v4 (v4_num ip) \<longleftrightarrow>
     v4_is_unspecified ip \<or> v4_is_private ip \<or> v4_is_loopback ip \<or> v4_is_link_local ip"
proof (cases ip)
  case (Ipv4 a b c d)
  have eq: "x = y \<longleftrightarrow> unat x = unat y" for x y :: u8 by (rule word_eq_iff_unsigned)
  let ?a = "unat a" and ?b = "unat b"
  note lt = unat_u8_less [of a] unat_u8_less [of b]
  note block = v4_block [OF unat_u8_less [of c] unat_u8_less [of d], where a = ?a and b = ?b]
  have "in_nets internal_nets_v4 (v4_num ip) \<longleftrightarrow>
      v4_num ip = 0 \<or> (2560 \<le> ?a * 256 + ?b \<and> ?a * 256 + ?b < 2816) \<or>
      (32512 \<le> ?a * 256 + ?b \<and> ?a * 256 + ?b < 32768) \<or> (43518 \<le> ?a * 256 + ?b \<and> ?a * 256 + ?b < 43519) \<or>
      (44048 \<le> ?a * 256 + ?b \<and> ?a * 256 + ?b < 44064) \<or> (49320 \<le> ?a * 256 + ?b \<and> ?a * 256 + ?b < 49321)"
    unfolding Ipv4 v4_num.simps in_nets_def internal_nets_v4_def
    using block [of "10 * 2 ^ 24" 2560 24 2816] block [of "127 * 2 ^ 24" 32512 24 32768]
      block [of "169 * 2 ^ 24 + 254 * 2 ^ 16" 43518 16 43519] block [of "172 * 2 ^ 24 + 16 * 2 ^ 16" 44048 20 44064]
      block [of "192 * 2 ^ 24 + 168 * 2 ^ 16" 49320 16 49321] by simp
  also have "\<dots> \<longleftrightarrow> v4_num ip = 0 \<or> ?a = 10 \<or> ?a = 127 \<or> (?a = 169 \<and> ?b = 254) \<or> (?a = 172 \<and> 16 \<le> ?b \<and> ?b \<le> 31) \<or>
      (?a = 192 \<and> ?b = 168)"
  proof -
    have "(2560 \<le> ?a * 256 + ?b \<and> ?a * 256 + ?b < 2816) = (?a = 10)" using lt by auto
    moreover have "(32512 \<le> ?a * 256 + ?b \<and> ?a * 256 + ?b < 32768) = (?a = 127)" using lt by auto
    moreover have "(43518 \<le> ?a * 256 + ?b \<and> ?a * 256 + ?b < 43519) = (?a = 169 \<and> ?b = 254)" using lt by presburger
    moreover have "(44048 \<le> ?a * 256 + ?b \<and> ?a * 256 + ?b < 44064) = (?a = 172 \<and> 16 \<le> ?b \<and> ?b \<le> 31)" using lt by presburger
    moreover have "(49320 \<le> ?a * 256 + ?b \<and> ?a * 256 + ?b < 49321) = (?a = 192 \<and> ?b = 168)" using lt by presburger
    ultimately show ?thesis by simp
  qed
  also have "\<dots> \<longleftrightarrow> v4_is_unspecified ip \<or> v4_is_private ip \<or> v4_is_loopback ip \<or> v4_is_link_local ip"
    by (auto simp: Ipv4 v4_is_unspecified_def word_le_nat_alt eq)
  finally show ?thesis .
qed

text \<open>Masking the low bits away.\<close>

lemma unat_and_not_mask:
  fixes a :: "'a::len word"
  shows "unat (a AND NOT (mask n)) = unat a div 2 ^ n * 2 ^ n"
proof -
  have "unat (a AND NOT (mask n)) = push_bit n (drop_bit n (unat a))"
    by (rule bit_eqI) (auto simp: bit_simps dest: bit_imp_le_length)
  then show ?thesis by (simp add: push_bit_eq_mult drop_bit_eq_div)
qed

lemma high_bits_iff:
  fixes a c :: "'a::len word"
  assumes "m = NOT (mask n)" and "2 ^ n dvd unat c"
  shows "a AND m = c \<longleftrightarrow> unat c \<le> unat a \<and> unat a < unat c + 2 ^ n"
proof -
  obtain k where k: "unat c = 2 ^ n * k" using assms(2) by blast
  have "a AND m = c \<longleftrightarrow> unat a div 2 ^ n * 2 ^ n = unat c"
    unfolding assms(1) by (simp add: word_eq_iff_unsigned [where 'a = nat] unat_and_not_mask)
  also have "\<dots> \<longleftrightarrow> unat a div 2 ^ n = k" by (simp add: k mult.commute)
  also have "\<dots> \<longleftrightarrow> unat c \<le> unat a \<and> unat a < unat c + 2 ^ n"
  proof
    assume "unat a div 2 ^ n = k"
    then have "unat a = 2 ^ n * k + unat a mod 2 ^ n" using mult_div_mod_eq [of "2 ^ n" "unat a"] by simp
    moreover have "unat a mod 2 ^ n < 2 ^ n" by simp
    ultimately show "unat c \<le> unat a \<and> unat a < unat c + 2 ^ n" unfolding k by linarith
  qed (auto simp: k intro!: div_nat_eqI)
  finally show ?thesis .
qed


lemma seg_num_snoc: "seg_num (ss @ [s]) = seg_num ss * 65536 + unat s"
  by (simp add: seg_num_def)

lemma seg_num_Nil [simp]: "seg_num [] = 0"
  by (simp add: seg_num_def)

lemma seg_num_less: "seg_num ss < 65536 ^ length ss"
proof (induction ss rule: rev_induct)
  case (snoc s ss)
  then show ?case using unat_u16_less [of s] by (simp add: seg_num_snoc)
qed simp

lemma seg_num_append: "seg_num (xs @ ys) = seg_num xs * 65536 ^ length ys + seg_num ys"
proof (induction ys rule: rev_induct)
  case (snoc y ys)
  then show ?case by (simp add: seg_num_snoc algebra_simps flip: append_assoc)
qed simp

lemma seg_num_eq_small:
  assumes "n < 65536"
  shows "seg_num (ss @ [s]) = n \<longleftrightarrow> (\<forall>x \<in> set ss. x = 0) \<and> unat s = n"
proof -
  have zero: "seg_num xs = 0 \<longleftrightarrow> (\<forall>x \<in> set xs. x = 0)" for xs
    by (induction xs rule: rev_induct) (auto simp: seg_num_snoc unat_eq_0)
  have "seg_num (ss @ [s]) = n \<longleftrightarrow> seg_num ss = 0 \<and> unat s = n" using assms by (auto simp: seg_num_snoc)
  then show ?thesis by (simp add: zero)
qed

lemma u16_eq: "x = y \<longleftrightarrow> unat x = unat y" for x y :: u16
  by (rule word_eq_iff_unsigned)

lemma internal_v6_iff:
  "in_nets internal_nets_v6 (v6_num ip) \<longleftrightarrow>
     v6_is_unspecified ip \<or> v6_is_loopback ip \<or> v6_is_unique_local ip \<or> v6_is_unicast_link_local ip"
proof (cases ip)
  case (Ipv6 a b c d e f g h)
  let ?r = "seg_num [b, c, d, e, f, g, h]"
  have n: "v6_num ip = unat a * 2 ^ 112 + ?r"
    using seg_num_append [of "[a]" "[b, c, d, e, f, g, h]"] seg_num_snoc [of "[]" a] by (simp add: v6_num_def Ipv6)
  have r: "?r < 2 ^ 112" using seg_num_less [of "[b, c, d, e, f, g, h]"] by simp
  note block = block_iff [OF r, where x = "unat a", folded n]
  have masks: "(0xfe00 :: u16) = NOT (mask 9)" "(0xffc0 :: u16) = NOT (mask 6)" by code_simp+
  have fc: "a AND 0xfe00 = 0xfc00 \<longleftrightarrow> 0xfc00 * 2 ^ 112 \<le> v6_num ip \<and> v6_num ip < 0xfc00 * 2 ^ 112 + 2 ^ 121"
    using high_bits_iff [OF masks(1), of "0xfc00" a] block [of "0xfc00" "0xfe00"] by simp
  have fe: "a AND 0xffc0 = 0xfe80 \<longleftrightarrow> 0xfe80 * 2 ^ 112 \<le> v6_num ip \<and> v6_num ip < 0xfe80 * 2 ^ 112 + 2 ^ 118"
    using high_bits_iff [OF masks(2), of "0xfe80" a] block [of "0xfe80" "0xfec0"] by simp
  have small: "v6_num ip = n \<longleftrightarrow> (\<forall>x \<in> set [a, b, c, d, e, f, g]. x = 0) \<and> unat h = n" if "n < 65536" for n
    using seg_num_eq_small [OF that, of "[a, b, c, d, e, f, g]" h] by (simp add: v6_num_def Ipv6)
  have "in_nets internal_nets_v6 (v6_num ip) \<longleftrightarrow>
      v6_num ip = 0 \<or> v6_num ip = 1 \<or> a AND 0xfe00 = 0xfc00 \<or> a AND 0xffc0 = 0xfe80"
    unfolding fc fe by (auto simp: in_nets_def internal_nets_v6_def)
  moreover have "unat h = 1 \<longleftrightarrow> h = 1" and "unat h = 0 \<longleftrightarrow> h = 0" by (simp_all add: u16_eq [of h 1] unat_eq_0)
  ultimately show ?thesis using small [of 0] small [of 1]
    by (simp add: Ipv6 v6_is_unspecified_def v6_is_loopback_def)
qed

lemma v4_num_mapped: "v4_num (mapped_v4 g h) = unat g * 65536 + unat h"
proof -
  have hi: "unat (ucast (drop_bit 8 x) :: u8) = unat x div 256" for x :: u16
    using unat_u16_less [of x] by (simp add: unsigned_ucast_eq drop_bit_eq_div take_bit_eq_mod unat_div)
  have lo: "unat (ucast x :: u8) = unat x mod 256" for x :: u16
    by (simp add: unsigned_ucast_eq take_bit_eq_mod)
  show ?thesis unfolding mapped_v4_def v4_num.simps hi unfolding lo
    by (simp only: div_mult_mod_eq distrib_right add.assoc)
qed

lemma mapped_iff:
  "mapped_base \<le> v6_num ip \<and> v6_num ip < mapped_base + 2 ^ 32 \<longleftrightarrow> to_ipv4_mapped ip \<noteq> None"
  "to_ipv4_mapped ip = Some v4 \<Longrightarrow> v6_num ip - mapped_base = v4_num v4"
proof -
  obtain a b c d e f g h where ip: "ip = Ipv6 a b c d e f g h" by (cases ip)
  let ?hi = "seg_num [a, b, c, d, e, f]" and ?lo = "unat g * 65536 + unat h"
  have n: "v6_num ip = ?hi * 2 ^ 32 + ?lo"
    using seg_num_append [of "[a, b, c, d, e, f]" "[g, h]"] seg_num_snoc [of "[g]" h] seg_num_snoc [of "[]" g]
    by (simp add: v6_num_def ip)
  have "?lo < 2 ^ 32" using unat_u16_less [of g] unat_u16_less [of h] by simp
  from block_iff [OF this, where x = ?hi, folded n, of "0xffff" "0x10000"]
  have "mapped_base \<le> v6_num ip \<and> v6_num ip < mapped_base + 2 ^ 32 \<longleftrightarrow> ?hi = 0xffff" by (auto simp: mapped_base_def)
  also have "\<dots> \<longleftrightarrow> to_ipv4_mapped ip \<noteq> None"
    using seg_num_eq_small [of "0xffff" "[a, b, c, d, e]" f] by (auto simp: ip u16_eq)
  finally show iff: "mapped_base \<le> v6_num ip \<and> v6_num ip < mapped_base + 2 ^ 32 \<longleftrightarrow> to_ipv4_mapped ip \<noteq> None" .
  assume "to_ipv4_mapped ip = Some v4"
  then have "?hi = 0xffff" "v4 = mapped_v4 g h"
    using seg_num_eq_small [of "0xffff" "[a, b, c, d, e]" f] by (auto simp: ip u16_eq split: if_splits)
  then show "v6_num ip - mapped_base = v4_num v4" by (simp add: n mapped_base_def v4_num_mapped)
qed


text \<open>So the reference is the classification of the standard library, on the address or on the mapped one.\<close>

lemma direct_internal_iff:
  "direct_internal (V4 a) \<longleftrightarrow> v4_is_unspecified a \<or> v4_is_private a \<or> v4_is_loopback a \<or> v4_is_link_local a"
  "direct_internal (V6 b) \<longleftrightarrow> v6_is_unspecified b \<or> v6_is_loopback b \<or> v6_is_unique_local b \<or> v6_is_unicast_link_local b"
  by (simp_all add: direct_internal_def internal_v4_iff internal_v6_iff)

lemma internal_iff:
  "internal (V4 a) \<longleftrightarrow> direct_internal (V4 a)"
  "internal (V6 b) \<longleftrightarrow> direct_internal (V6 b) \<or> (case to_ipv4_mapped b of Some a \<Rightarrow> direct_internal (V4 a) | None \<Rightarrow> False)"
proof -
  show "internal (V4 a) \<longleftrightarrow> direct_internal (V4 a)" by (simp add: internal_def)
  show "internal (V6 b) \<longleftrightarrow> direct_internal (V6 b) \<or> (case to_ipv4_mapped b of Some a \<Rightarrow> direct_internal (V4 a) | None \<Rightarrow> False)"
    using mapped_iff [of b] by (auto simp: internal_def direct_internal_def [of "V4 _"] split: option.split)
qed

text \<open>Tests that look at the mapped address cover the reference.\<close>

lemma v6_segments_0 [simp]:
  "v6_segments b ! 0 AND 0xfe00 = 0xfc00 \<longleftrightarrow> v6_is_unique_local b"
  "v6_segments b ! 0 AND 0xffc0 = 0xfe80 \<longleftrightarrow> v6_is_unicast_link_local b"
  by (cases b; simp)+

lemma mapped_not_direct: "to_ipv4_mapped b = Some a \<Longrightarrow> \<not> direct_internal (V6 b)"
  by (cases b) (auto simp: direct_internal_iff v6_is_unspecified_def v6_is_loopback_def split: if_splits)

lemma ipv6_mapped_ipv4_eq: "ipv6_mapped_ipv4 b = to_ipv4_mapped b"
  by (cases b) (simp add: mapped_v4_def)

lemma is_forbidden_ip_covers: "internal ip \<Longrightarrow> is_forbidden_ip ip"
  using mapped_not_direct
  by (cases ip) (auto simp: internal_iff direct_internal_iff is_forbidden_ipv4_def ipv6_mapped_ipv4_eq split: option.splits)

lemma is_dangerous_ip_covers: "internal ip \<Longrightarrow> is_dangerous_ip ip"
  by (cases ip) (auto simp: internal_iff direct_internal_iff is_dangerous_ipv4_def split: option.splits)

lemma fetch_ip_covers: "internal ip \<Longrightarrow> fetch_ip_refused (normalize_ip ip)"
  using mapped_not_direct
  by (cases ip) (auto simp: internal_iff direct_internal_iff fetch_ip_refused_def split: option.splits)

text \<open>The other two look at the address itself only.\<close>

lemma is_disallowed_ip_covers: "direct_internal ip \<Longrightarrow> is_disallowed_ip ip"
  by (cases ip) (auto simp: direct_internal_iff)

lemma wasm_is_private_ip_covers: "direct_internal ip \<Longrightarrow> wasm_is_private_ip ip"
  by (cases ip) (auto simp: direct_internal_iff)


subsection \<open>What the guards let through\<close>

text \<open>A test on addresses and a class of addresses it must refuse.\<close>

locale address_guard =
  fixes refused :: "IpAddr \<Rightarrow> bool" and bad :: "IpAddr \<Rightarrow> bool"
  assumes covers: "bad ip \<Longrightarrow> refused ip"
begin

lemma scan: "find refused addrs = None \<Longrightarrow> \<forall>ip \<in> set addrs. \<not> bad ip"
  by (auto simp: find_None_iff dest: covers)

lemma checked: "\<not> refused ip \<Longrightarrow> \<not> bad ip"
  by (auto dest: covers)

end

interpretation webhook: address_guard is_forbidden_ip internal
  by unfold_locales (rule is_forbidden_ip_covers)

interpretation mcp: address_guard is_dangerous_ip internal
  by unfold_locales (rule is_dangerous_ip_covers)

interpretation fetch: address_guard "\<lambda>ip. fetch_ip_refused (normalize_ip ip)" internal
  by unfold_locales (rule fetch_ip_covers)

interpretation http: address_guard is_disallowed_ip direct_internal
  by unfold_locales (rule is_disallowed_ip_covers)

interpretation wasm: address_guard wasm_is_private_ip direct_internal
  by unfold_locales (rule wasm_is_private_ip_covers)

lemma validate_addrs_scan: "validate_addrs host addrs = Inr () \<Longrightarrow> find (\<lambda>ip. fetch_ip_refused (normalize_ip ip)) addrs = None"
  by (induction addrs) (auto simp: validate_fetch_ip_def split: if_splits sum.splits)

lemma normalize_ip_idem [simp]: "normalize_ip (normalize_ip ip) = normalize_ip ip"
  by (cases ip) (auto split: option.split)

text \<open>The addresses a client connects to for a URL: the pinned ones, or the one written in the URL.\<close>

definition client_targets :: "IpAddr option \<Rightarrow> Client \<Rightarrow> IpAddr list" where
  "client_targets literal client =
     (case client of PinnedClient _ addrs \<Rightarrow> addrs | BaseClient \<Rightarrow> (case literal of Some ip \<Rightarrow> [ip] | None \<Rightarrow> []))"

definition written_ip :: "NetEnv \<Rightarrow> string \<Rightarrow> IpAddr option" where
  "written_ip env url =
     (case ne_parse_url env url of
        Inl _ \<Rightarrow> None
      | Inr parsed \<Rightarrow> (case u_host_str parsed of Some host \<Rightarrow> ne_parse_ip env (normalize_host host) | None \<Rightarrow> None))"

text \<open>
  Property C18. A webhook never reaches an internal address: when the dispatcher hands out a client for the
  target, the client connects to at least one address, and none of them is in the networks internal to
  the host or site, written as IPv4, as IPv6 or as an IPv4-mapped IPv6 address.
\<close>

theorem webhook_targets_public:
  assumes "dispatch_client_for_target env url = Inr client"
  shows "client_targets (written_ip env url) client \<noteq> [] \<and> (\<forall>ip \<in> set (client_targets (written_ip env url) client). \<not> internal ip)"
  using assms webhook.scan webhook.checked
  by (auto simp: dispatch_client_for_target_def client_targets_def written_ip_def Let_def
      split: sum.splits option.splits if_splits)

definition demo_url :: "string \<Rightarrow> Host \<Rightarrow> Url" where
  "demo_url s h = \<lparr>u_scheme = ''https'', u_username = [], u_password = None, u_host = Some h, u_host_str = Some s,
     u_port_or_known_default = Some 443, u_path = ''/''\<rparr>"

text \<open>An environment in which every URL names \<open>example.com\<close>, with the given addresses.\<close>

definition demo_net :: "IpAddr list \<Rightarrow> NetEnv" where
  "demo_net addrs =
     \<lparr>ne_parse_url = (\<lambda>_. Inr (demo_url ''example.com'' (Domain ''example.com''))), ne_parse_ip = (\<lambda>_. None),
      ne_lookup = (\<lambda>_ _. Inr addrs), ne_show_ip = (\<lambda>_. ''ip''), ne_show_host = (\<lambda>_. ''example.com'')\<rparr>"

lemmas demo_net_defs = demo_net_def demo_url_def

definition public_addrs :: "IpAddr list" where
  "public_addrs = [V4 (Ipv4 93 184 216 34), V6 (Ipv6 0x2606 0x2800 0 0 0 0 0 1)]"

lemma public_addrs_accepted:
  "find is_forbidden_ip public_addrs = None" "find is_disallowed_ip public_addrs = None"
  "find is_dangerous_ip public_addrs = None" "find wasm_is_private_ip public_addrs = None"
  and public_addrs_nonempty: "public_addrs \<noteq> []"
  by code_simp+

theorem webhook_targets_public_witness:
  "client_targets None (PinnedClient ''example.com'' public_addrs) \<noteq> [] \<and>
   \<not> internal (V4 (Ipv4 93 184 216 34)) \<and> \<not> internal (V6 (Ipv6 0x2606 0x2800 0 0 0 0 0 1))"
proof -
  have "dispatch_client_for_target (demo_net public_addrs) ''u'' = Inr (PinnedClient ''example.com'' public_addrs)"
    by (simp add: dispatch_client_for_target_def demo_net_defs normalize_host_def public_addrs_accepted public_addrs_nonempty)
  from webhook_targets_public [OF this] show ?thesis by (simp add: public_addrs_def client_targets_def)
qed

text \<open>
  Also: A skill is never downloaded from an internal address: a URL that passes \<open>validate_fetch_url\<close> and
  for which \<open>build_safe_fetch_client\<close> gives a client is fetched from addresses that are not internal.
\<close>

theorem fetch_targets_public:
  assumes "validate_fetch_url env url = Inr parsed" and "build_safe_fetch_client env parsed = Inr client"
    and "u_host parsed = Some host"
  shows "client_targets (host_ip_addr host) client \<noteq> [] \<and> (\<forall>ip \<in> set (client_targets (host_ip_addr host) client). \<not> internal ip)"
proof (cases host)
  case (Domain d)
  then show ?thesis using assms fetch.scan [OF validate_addrs_scan]
    by (auto simp: build_safe_fetch_client_def client_targets_def validate_resolved_addrs_def split: sum.splits option.splits if_splits)
next
  case (HostV4 ip)
  then show ?thesis using assms fetch.checked [of "V4 ip"]
    by (auto simp: build_safe_fetch_client_def validate_fetch_url_def validate_fetch_ip_def client_targets_def Let_def
        split: sum.splits option.splits if_splits)
next
  case (HostV6 ip)
  then show ?thesis using assms fetch.checked [of "normalize_ip (V6 ip)"]
    by (auto simp: build_safe_fetch_client_def validate_fetch_url_def validate_fetch_ip_def client_targets_def Let_def
        split: sum.splits option.splits if_splits)
qed


theorem fetch_targets_public_witness:
  "client_targets None (PinnedClient ''example.com'' public_addrs) \<noteq> [] \<and> \<not> internal (V4 (Ipv4 93 184 216 34))"
proof -
  have "validate_addrs ''example.com'' public_addrs = Inr ()" by code_simp
  then have "build_safe_fetch_client (demo_net public_addrs) (demo_url ''example.com'' (Domain ''example.com''))
      = Inr (PinnedClient ''example.com'' public_addrs)"
    by (simp add: build_safe_fetch_client_def demo_net_defs validate_resolved_addrs_def public_addrs_nonempty)
  moreover have "validate_fetch_url (demo_net public_addrs) ''u'' = Inr (demo_url ''example.com'' (Domain ''example.com''))"
    by code_simp
  ultimately show ?thesis
    using fetch_targets_public [of "demo_net public_addrs" "''u''" "demo_url ''example.com'' (Domain ''example.com'')"
        "PinnedClient ''example.com'' public_addrs" "Domain ''example.com''"]
    by (simp add: public_addrs_def client_targets_def demo_url_def)
qed

text \<open>
  Also: MCP authorization sends no request to an internal address over https: if the URL is accepted then
  neither the address written in it nor any address its name resolves to is internal; and over plain
  http only the local host is accepted.
\<close>

theorem mcp_url_public:
  assumes "validate_url_safe env url = Inr ()" and "ne_parse_url env url = Inr parsed"
  shows "if u_scheme parsed = ''https''
    then \<exists>host addrs. u_host_str parsed = Some host \<and> (\<forall>ip \<in> set addrs. \<not> internal ip) \<and>
      (case ne_parse_ip env host of
         Some ip \<Rightarrow> addrs = [ip]
       | None \<Rightarrow> ne_lookup env host (case u_port_or_known_default parsed of Some p \<Rightarrow> p | None \<Rightarrow> 443) = Inr addrs)
    else u_scheme parsed = ''http'' \<and> (\<exists>host \<in> {''localhost'', ''127.0.0.1'', ''::1'', ''[::1]''}. u_host_str parsed = Some host)"
  using assms mcp.scan mcp.checked
  by (auto simp: validate_url_safe_def Let_def split: if_splits option.splits sum.splits)

theorem mcp_url_public_witness:
  "\<exists>addrs. (\<not> internal (V4 (Ipv4 93 184 216 34))) \<and> addrs = public_addrs"
proof -
  have "validate_url_safe (demo_net public_addrs) ''u'' = Inr ()"
    by (simp add: validate_url_safe_def demo_net_defs public_addrs_accepted)
  from mcp_url_public [OF this] show ?thesis by (simp add: demo_net_defs public_addrs_def)
qed

text \<open>
  Also: The HTTP tool accepts no URL whose name resolves, at the time of the check, to an address that is
  itself in an internal network.
\<close>

theorem http_url_not_direct:
  assumes "http_validate_url env url = Inr parsed" and "u_host_str parsed = Some host"
    and "ne_lookup env host (case u_port_or_known_default parsed of Some p \<Rightarrow> p | None \<Rightarrow> 443) = Inr addrs"
    and "ip \<in> set addrs"
  shows "\<not> direct_internal ip"
  using assms http.scan [of addrs]
  by (auto simp: http_validate_url_def Let_def split: if_splits option.splits sum.splits)

theorem http_url_not_direct_witness: "\<not> direct_internal (V4 (Ipv4 93 184 216 34))"
proof -
  have "http_validate_url (demo_net public_addrs) ''u'' = Inr (demo_url ''example.com'' (Domain ''example.com''))"
    by (simp add: http_validate_url_def demo_net_defs public_addrs_accepted Let_def) code_simp
  then show ?thesis
    by (rule http_url_not_direct [where host = "''example.com''" and addrs = public_addrs])
      (simp_all add: demo_net_defs public_addrs_def)
qed

text \<open>
  Property C22. The IPv4-mapped form of an internal address passes the tests of the HTTP tool and of WASM tools,
  whatever the mapped address is, although a connection to it reaches the mapped address; the three
  other guards refuse it exactly when they refuse the mapped address itself.
\<close>

theorem mapped_addresses:
  assumes "to_ipv4_mapped v6 = Some v4"
  shows "\<not> is_disallowed_ip (V6 v6) \<and> \<not> wasm_is_private_ip (V6 v6) \<and>
    is_forbidden_ip (V6 v6) = is_forbidden_ip (V4 v4) \<and> is_dangerous_ip (V6 v6) = is_dangerous_ip (V4 v4) \<and>
    fetch_ip_refused (normalize_ip (V6 v6)) = fetch_ip_refused (V4 v4)"
  using assms
  by (cases v6) (auto simp: v6_is_unspecified_def v6_is_loopback_def ipv6_mapped_ipv4_eq mapped_v4_def split: if_splits)

theorem mapped_addresses_witness:
  "\<not> is_disallowed_ip (V6 (Ipv6 0 0 0 0 0 0xffff 0xa9fe 0xa9fe)) \<and> is_disallowed_ip (V4 (Ipv4 169 254 169 254)) \<and>
   to_ipv4_mapped (Ipv6 0 0 0 0 0 0xffff 0xa9fe 0xa9fe) = Some (Ipv4 169 254 169 254)"
proof -
  have m: "to_ipv4_mapped (Ipv6 0 0 0 0 0 0xffff 0xa9fe 0xa9fe) = Some (Ipv4 169 254 169 254)" by code_simp
  then show ?thesis using mapped_addresses [OF m] by simp
qed

end
