(* ===== verification/Hooks.thy ===== *)
theory Hooks
  imports Net_Guard
begin

text \<open>
  Lifecycle hooks: the types of \<^verbatim>\<open>src/hooks/hook.rs\<close>, the registry of \<^verbatim>\<open>src/hooks/registry.rs\<close>, the
  declarative hooks of \<^verbatim>\<open>src/hooks/bundled.rs\<close>, and the places of the agent where hooks see inbound
  messages, responses and outbound messages. The lemmas say in which order hooks run, when an event is
  let through, what a hook that fails can do, and what bundles can register.

  A hook is what the registry knows of a trait object; its answer is a function of the event (all
  hooks that ship with the program are). \<open>Elapsed\<close> is an execution that the time limit cut off. The
  JSON printer and parser, the regular expressions and the checks of header names and values are arguments.
\<close>

subsection \<open>Events and outcomes\<close>

datatype HookPoint = BeforeInbound | BeforeToolCall | BeforeOutbound | OnSessionStart | OnSessionEnd | TransformResponse

fun hook_point_as_str :: "HookPoint \<Rightarrow> string" where
  "hook_point_as_str BeforeInbound = ''beforeInbound''"
| "hook_point_as_str BeforeToolCall = ''beforeToolCall''"
| "hook_point_as_str BeforeOutbound = ''beforeOutbound''"
| "hook_point_as_str OnSessionStart = ''onSessionStart''"
| "hook_point_as_str OnSessionEnd = ''onSessionEnd''"
| "hook_point_as_str TransformResponse = ''transformResponse''"

text \<open>Arguments in the order of the fields: user, channel, content, thread; tool, parameters, user, context; etc.\<close>

datatype HookEvent =
    Inbound string string string "string option"
  | ToolCallEvent string json string string
  | Outbound string string string "string option"
  | SessionStart string string
  | SessionEnd string string
  | ResponseTransform string string string

fun hook_point :: "HookEvent \<Rightarrow> HookPoint" where
  "hook_point (Inbound _ _ _ _) = BeforeInbound"
| "hook_point (ToolCallEvent _ _ _ _) = BeforeToolCall"
| "hook_point (Outbound _ _ _ _) = BeforeOutbound"
| "hook_point (SessionStart _ _) = OnSessionStart"
| "hook_point (SessionEnd _ _) = OnSessionEnd"
| "hook_point (ResponseTransform _ _ _) = TransformResponse"

record Serde =
  sd_to_string :: "json \<Rightarrow> string"
  sd_from_str :: "string \<Rightarrow> json option"

fun apply_modification :: "Serde \<Rightarrow> string \<Rightarrow> HookEvent \<Rightarrow> HookEvent" where
  "apply_modification sd modified (Inbound u c content t) = Inbound u c modified t"
| "apply_modification sd modified (Outbound u c content t) = Outbound u c modified t"
| "apply_modification sd modified (ToolCallEvent n params u c) =
     (case sd_from_str sd modified of Some parsed \<Rightarrow> ToolCallEvent n parsed u c | None \<Rightarrow> ToolCallEvent n params u c)"
| "apply_modification sd modified (ResponseTransform u t response) = ResponseTransform u t modified"
| "apply_modification sd modified (SessionStart u s) = SessionStart u s"
| "apply_modification sd modified (SessionEnd u s) = SessionEnd u s"

fun extract_content :: "Serde \<Rightarrow> HookEvent \<Rightarrow> string" where
  "extract_content sd (Inbound _ _ content _) = content"
| "extract_content sd (Outbound _ _ content _) = content"
| "extract_content sd (ToolCallEvent _ params _ _) = sd_to_string sd params"
| "extract_content sd (ResponseTransform _ _ response) = response"
| "extract_content sd (SessionStart _ s) = s"
| "extract_content sd (SessionEnd _ s) = s"

datatype HookOutcome = HookContinue "string option" | HookReject string

datatype HookFailureMode = FailOpen | FailClosed

datatype HookError = HookExecutionFailed string | HookTimeout duration | HookRejected string

fun show_hook_error :: "(duration \<Rightarrow> string) \<Rightarrow> HookError \<Rightarrow> string" where
  "show_hook_error st (HookExecutionFailed reason) = ''Hook execution failed: '' @ reason"
| "show_hook_error st (HookTimeout t) = ''Hook timed out after '' @ st t"
| "show_hook_error st (HookRejected reason) = ''Hook rejected: '' @ reason"

datatype HookRun = Finished "HookError + HookOutcome" | Elapsed

record Hook =
  hk_name :: string
  hk_points :: "HookPoint list"
  hk_failure_mode :: HookFailureMode
  hk_timeout :: duration
  hk_execute :: "HookEvent \<Rightarrow> HookRun"

subsection \<open>The registry\<close>

record HookEntry =
  he_hook :: Hook
  he_priority :: u32

type_synonym registry = "HookEntry list"

abbreviation he_name :: "HookEntry \<Rightarrow> string" where
  "he_name e \<equiv> hk_name (he_hook e)"

fun replace_hook :: "Hook \<Rightarrow> u32 \<Rightarrow> registry \<Rightarrow> registry option" where
  "replace_hook hook p [] = None"
| "replace_hook hook p (e # es) =
     (if he_name e = hk_name hook then Some (e\<lparr>he_hook := hook, he_priority := p\<rparr> # es)
      else map_option (\<lambda>es. e # es) (replace_hook hook p es))"

definition register_with_priority :: "Hook \<Rightarrow> u32 \<Rightarrow> registry \<Rightarrow> registry" where
  "register_with_priority hook p hooks =
     sort_key he_priority
       (case replace_hook hook p hooks of
          Some hooks' \<Rightarrow> hooks'
        | None \<Rightarrow> hooks @ [\<lparr>he_hook = hook, he_priority = p\<rparr>])"

definition register :: "Hook \<Rightarrow> registry \<Rightarrow> registry" where
  "register hook hooks = register_with_priority hook 100 hooks"

definition unregister :: "string \<Rightarrow> registry \<Rightarrow> bool \<times> registry" where
  "unregister name hooks =
     (let hooks' = filter (\<lambda>e. he_name e \<noteq> name) hooks in (length hooks' < length hooks, hooks'))"

definition hook_list :: "registry \<Rightarrow> string list" where
  "hook_list hooks = map he_name hooks"

definition quoted :: "string \<Rightarrow> string" where
  "quoted s = [CHR 0x27] @ s @ [CHR 0x27]"

text \<open>The loop over the matching hooks: the event they leave, or the error that stops the chain.\<close>

fun run_hooks :: "Serde \<Rightarrow> (duration \<Rightarrow> string) \<Rightarrow> Hook list \<Rightarrow> HookEvent \<Rightarrow> HookError + HookEvent" where
  "run_hooks sd st [] ev = Inr ev"
| "run_hooks sd st (hook # hooks) ev =
     (case hk_execute hook ev of
        Finished (Inr (HookReject reason)) \<Rightarrow> Inl (HookRejected reason)
      | Finished (Inr (HookContinue (Some value))) \<Rightarrow> run_hooks sd st hooks (apply_modification sd value ev)
      | Finished (Inr (HookContinue None)) \<Rightarrow> run_hooks sd st hooks ev
      | Finished (Inl err) \<Rightarrow>
          (case hk_failure_mode hook of
             FailOpen \<Rightarrow> run_hooks sd st hooks ev
           | FailClosed \<Rightarrow>
               Inl (HookExecutionFailed (''Hook '' @ quoted (hk_name hook) @ '' failed: '' @ show_hook_error st err)))
      | Elapsed \<Rightarrow>
          (case hk_failure_mode hook of
             FailOpen \<Rightarrow> run_hooks sd st hooks ev
           | FailClosed \<Rightarrow> Inl (HookTimeout (hk_timeout hook))))"

definition matching :: "HookEvent \<Rightarrow> registry \<Rightarrow> Hook list" where
  "matching ev hooks = map he_hook (filter (\<lambda>e. hook_point ev \<in> set (hk_points (he_hook e))) hooks)"

definition run :: "Serde \<Rightarrow> (duration \<Rightarrow> string) \<Rightarrow> registry \<Rightarrow> HookEvent \<Rightarrow> HookError + HookOutcome" where
  "run sd st hooks ev =
     (if matching ev hooks = [] then Inr (HookContinue None)
      else case run_hooks sd st (matching ev hooks) ev of
          Inl e \<Rightarrow> Inl e
        | Inr current \<Rightarrow>
            let modified = extract_content sd current
            in if modified \<noteq> extract_content sd ev then Inr (HookContinue (Some modified)) else Inr (HookContinue None))"

subsection \<open>Where the agent runs hooks\<close>

text \<open>The message to answer with instead of handling the input, or the content to handle.\<close>

definition hook_inbound ::
    "Serde \<Rightarrow> (duration \<Rightarrow> string) \<Rightarrow> registry \<Rightarrow> string \<Rightarrow> string \<Rightarrow> string option \<Rightarrow> string \<Rightarrow> string + string" where
  "hook_inbound sd st hooks user channel thread content =
     (case run sd st hooks (Inbound user channel content thread) of
        Inl (HookRejected reason) \<Rightarrow> Inl (''[Message rejected: '' @ reason @ '']'')
      | Inl err \<Rightarrow> Inl (''[Message blocked by hook policy: '' @ show_hook_error st err @ '']'')
      | Inr (HookContinue (Some new_content)) \<Rightarrow> Inr new_content
      | Inr _ \<Rightarrow> Inr content)"

definition hook_response ::
    "Serde \<Rightarrow> (duration \<Rightarrow> string) \<Rightarrow> registry \<Rightarrow> string \<Rightarrow> string \<Rightarrow> string \<Rightarrow> string" where
  "hook_response sd st hooks user thread response =
     (case run sd st hooks (ResponseTransform user thread response) of
        Inl (HookRejected reason) \<Rightarrow> ''[Response filtered: '' @ reason @ '']''
      | Inl err \<Rightarrow> ''[Response blocked by hook policy: '' @ show_hook_error st err @ '']''
      | Inr (HookContinue (Some new_response)) \<Rightarrow> new_response
      | Inr _ \<Rightarrow> response)"

text \<open>What is sent to the channel for a nonempty response, if anything.\<close>

definition hook_outbound ::
    "Serde \<Rightarrow> (duration \<Rightarrow> string) \<Rightarrow> registry \<Rightarrow> string \<Rightarrow> string \<Rightarrow> string option \<Rightarrow> string \<Rightarrow> string option" where
  "hook_outbound sd st hooks user channel thread response =
     (case run sd st hooks (Outbound user channel response thread) of
        Inl err \<Rightarrow> None
      | Inr (HookContinue (Some new_content)) \<Rightarrow> Some new_content
      | Inr _ \<Rightarrow> Some response)"

subsection \<open>Bundles\<close>

record Regex =
  rx_is_match :: "string \<Rightarrow> bool"
  rx_replace_all :: "string \<Rightarrow> string \<Rightarrow> string"

record RegexReplacementConfig =
  rr_pattern :: string
  rr_replacement :: string

record HookRuleConfig =
  rc_name :: string
  rc_points :: "HookPoint list"
  rc_priority :: "u32 option"
  rc_failure_mode :: "HookFailureMode option"
  rc_timeout_ms :: "u64 option"
  rc_when_regex :: "string option"
  rc_reject_reason :: "string option"
  rc_replacements :: "RegexReplacementConfig list"
  rc_prepend :: "string option"
  rc_append :: "string option"

record OutboundWebhookConfig =
  wc_name :: string
  wc_points :: "HookPoint list"
  wc_url :: string
  wc_headers :: "(string \<times> string) list"
  wc_timeout_ms :: "u64 option"
  wc_priority :: "u32 option"
  wc_max_in_flight :: "nat option"

record HookBundleConfig =
  hb_rules :: "HookRuleConfig list"
  hb_outbound_webhooks :: "OutboundWebhookConfig list"

record HookRegistrationSummary =
  hs_hooks :: nat
  hs_outbound_webhooks :: nat
  hs_errors :: nat

definition total_registered :: "HookRegistrationSummary \<Rightarrow> nat" where
  "total_registered s = hs_hooks s + hs_outbound_webhooks s"

definition summary_merge :: "HookRegistrationSummary \<Rightarrow> HookRegistrationSummary \<Rightarrow> HookRegistrationSummary" where
  "summary_merge s t =
     \<lparr>hs_hooks = hs_hooks s + hs_hooks t, hs_outbound_webhooks = hs_outbound_webhooks s + hs_outbound_webhooks t,
      hs_errors = hs_errors s + hs_errors t\<rparr>"

text \<open>The libraries behind a bundle.\<close>

record BundleEnv =
  be_serde :: Serde
  be_net :: NetEnv
  be_regex :: "string \<Rightarrow> string + Regex"
  be_header_name :: "string \<Rightarrow> string + string"
  be_header_value :: "string \<Rightarrow> string + string"
  be_client :: "string + unit"

definition audit_log_hook :: Hook where
  "audit_log_hook =
     \<lparr>hk_name = ''builtin.audit_log'',
      hk_points = [BeforeInbound, BeforeToolCall, BeforeOutbound, OnSessionStart, OnSessionEnd, TransformResponse],
      hk_failure_mode = FailOpen, hk_timeout = secs 5, hk_execute = (\<lambda>_. Finished (Inr (HookContinue None)))\<rparr>"

definition register_bundled_hooks :: "registry \<Rightarrow> HookRegistrationSummary \<times> registry" where
  "register_bundled_hooks hooks =
     (\<lparr>hs_hooks = 1, hs_outbound_webhooks = 0, hs_errors = 0\<rparr>, register_with_priority audit_log_hook 25 hooks)"

definition timeout_from_ms :: "u64 option \<Rightarrow> string \<Rightarrow> HookBundleError + duration" where
  "timeout_from_ms timeout_ms hook =
     (case timeout_ms of
        Some ms \<Rightarrow> if ms = 0 \<or> ms > 30000 then Inl (InvalidTimeout hook 30000) else Inr (unat ms * 1000000)
      | None \<Rightarrow> Inr (secs 5))"

fun compile_replacements ::
    "BundleEnv \<Rightarrow> string \<Rightarrow> RegexReplacementConfig list \<Rightarrow> HookBundleError + (Regex \<times> string) list" where
  "compile_replacements be hook [] = Inr []"
| "compile_replacements be hook (r # rs) =
     (case be_regex be (rr_pattern r) of
        Inl e \<Rightarrow> Inl (InvalidRegex hook (rr_pattern r) e)
      | Inr rx \<Rightarrow> map_sum id (\<lambda>rest. (rx, rr_replacement r) # rest) (compile_replacements be hook rs))"

text \<open>The rule a hook was compiled from, applied to the content of an event.\<close>

definition rule_execute ::
    "Serde \<Rightarrow> Regex option \<Rightarrow> string option \<Rightarrow> (Regex \<times> string) list \<Rightarrow> string option \<Rightarrow> string option \<Rightarrow> HookEvent \<Rightarrow> HookOutcome" where
  "rule_execute sd guard reason replacements pre post ev =
     (let content = extract_content sd ev
      in if (case guard of Some rx \<Rightarrow> \<not> rx_is_match rx content | None \<Rightarrow> False) then HookContinue None
         else (case reason of
            Some r \<Rightarrow> HookReject r
          | None \<Rightarrow>
              let modified = fold (\<lambda>(rx, replacement) s. rx_replace_all rx s replacement) replacements content;
                  modified = (case pre of Some p \<Rightarrow> p @ modified | None \<Rightarrow> modified);
                  modified = (case post of Some s \<Rightarrow> modified @ s | None \<Rightarrow> modified)
              in if modified \<noteq> content then HookContinue (Some modified) else HookContinue None))"

definition scoped_name :: "string \<Rightarrow> string \<Rightarrow> string" where
  "scoped_name source name = source @ ''::'' @ name"

definition rule_from_config :: "BundleEnv \<Rightarrow> string \<Rightarrow> HookRuleConfig \<Rightarrow> HookBundleError + (Hook \<times> u32)" where
  "rule_from_config be source config =
     (let name = scoped_name source (rc_name config)
      in if rc_points config = [] then Inl (MissingHookPoints name)
         else (case timeout_from_ms (rc_timeout_ms config) name of
            Inl e \<Rightarrow> Inl e
          | Inr timeout \<Rightarrow>
              (case (case rc_when_regex config of
                       Some pattern \<Rightarrow> map_sum (\<lambda>e. InvalidRegex name pattern e) Some (be_regex be pattern)
                     | None \<Rightarrow> Inr None) of
                 Inl e \<Rightarrow> Inl e
               | Inr guard \<Rightarrow>
                   (case compile_replacements be name (rc_replacements config) of
                      Inl e \<Rightarrow> Inl e
                    | Inr replacements \<Rightarrow>
                        Inr (\<lparr>hk_name = name, hk_points = rc_points config,
                              hk_failure_mode = (case rc_failure_mode config of Some m \<Rightarrow> m | None \<Rightarrow> FailOpen),
                              hk_timeout = timeout,
                              hk_execute = (\<lambda>ev. Finished (Inr (rule_execute (be_serde be) guard (rc_reject_reason config)
                                replacements (rc_prepend config) (rc_append config) ev)))\<rparr>,
                             case rc_priority config of Some p \<Rightarrow> p | None \<Rightarrow> 100)))))"

fun validate_headers ::
    "BundleEnv \<Rightarrow> string \<Rightarrow> (string \<times> string) list \<Rightarrow> (string \<times> string) list \<Rightarrow> HookBundleError + (string \<times> string) list" where
  "validate_headers be hook [] validated = Inr validated"
| "validate_headers be hook ((name, value) # rest) validated =
     (case be_header_name be name of
        Inl e \<Rightarrow> Inl (InvalidWebhookHeader hook name e)
      | Inr header \<Rightarrow>
          if is_forbidden_header header then Inl (ForbiddenWebhookHeader hook name)
          else (case be_header_value be value of
             Inl e \<Rightarrow> Inl (InvalidWebhookHeader hook name e)
           | Inr v \<Rightarrow> validate_headers be hook rest (AList.update header v validated)))"

definition validate_webhook_headers ::
    "BundleEnv \<Rightarrow> string \<Rightarrow> (string \<times> string) list \<Rightarrow> HookBundleError + (string \<times> string) list" where
  "validate_webhook_headers be hook headers = validate_headers be hook headers []"

text \<open>A webhook answers at once; the delivery is described below.\<close>

definition webhook_from_config :: "BundleEnv \<Rightarrow> string \<Rightarrow> OutboundWebhookConfig \<Rightarrow> HookBundleError + (Hook \<times> u32)" where
  "webhook_from_config be source config =
     (let name = scoped_name source (wc_name config)
      in if wc_points config = [] then Inl (MissingHookPoints name)
         else (case validate_webhook_url (be_net be) name (wc_url config) of
            Inl e \<Rightarrow> Inl e
          | Inr url \<Rightarrow>
              (case validate_webhook_headers be name (wc_headers config) of
                 Inl e \<Rightarrow> Inl e
               | Inr headers \<Rightarrow>
                   (case timeout_from_ms (case wc_timeout_ms config of Some ms \<Rightarrow> Some ms | None \<Rightarrow> Some 2000) name of
                      Inl e \<Rightarrow> Inl e
                    | Inr timeout \<Rightarrow>
                        if (case wc_max_in_flight config of Some n \<Rightarrow> n | None \<Rightarrow> 32) = 0
                        then Inl (InvalidWebhookMaxInFlight name)
                        else (case be_client be of
                           Inl e \<Rightarrow> Inl (InvalidFormat e)
                         | Inr _ \<Rightarrow>
                             Inr (\<lparr>hk_name = name, hk_points = wc_points config, hk_failure_mode = FailOpen,
                                   hk_timeout = timeout, hk_execute = (\<lambda>_. Finished (Inr (HookContinue None)))\<rparr>,
                                  case wc_priority config of Some p \<Rightarrow> p | None \<Rightarrow> 300))))))"

text \<open>The summary of an event that is sent to a webhook.\<close>

datatype OutboundWebhookEventSummary =
    SumInbound string bool nat | SumToolCall string string nat | SumOutbound string bool nat
  | SumSessionStart | SumSessionEnd | SumResponseTransform nat

fun summarize_webhook_event :: "HookEvent \<Rightarrow> OutboundWebhookEventSummary" where
  "summarize_webhook_event (Inbound _ channel content thread) = SumInbound channel (thread \<noteq> None) (length content)"
| "summarize_webhook_event (ToolCallEvent tool params _ context) =
     SumToolCall tool context (case params of JObject kvs \<Rightarrow> length kvs | JNull \<Rightarrow> 0 | _ \<Rightarrow> 1)"
| "summarize_webhook_event (Outbound _ channel content thread) = SumOutbound channel (thread \<noteq> None) (length content)"
| "summarize_webhook_event (SessionStart _ _) = SumSessionStart"
| "summarize_webhook_event (SessionEnd _ _) = SumSessionEnd"
| "summarize_webhook_event (ResponseTransform _ _ response) = SumResponseTransform (length response)"

definition register_rule ::
    "BundleEnv \<Rightarrow> string \<Rightarrow> HookRuleConfig \<Rightarrow> HookRegistrationSummary \<times> registry \<Rightarrow> HookRegistrationSummary \<times> registry" where
  "register_rule be source rule s =
     (case s of (summary, hooks) \<Rightarrow>
        (case rule_from_config be source rule of
           Inr (hook, p) \<Rightarrow> (summary\<lparr>hs_hooks := hs_hooks summary + 1\<rparr>, register_with_priority hook p hooks)
         | Inl _ \<Rightarrow> (summary\<lparr>hs_errors := hs_errors summary + 1\<rparr>, hooks)))"

definition register_webhook ::
    "BundleEnv \<Rightarrow> string \<Rightarrow> OutboundWebhookConfig \<Rightarrow> HookRegistrationSummary \<times> registry \<Rightarrow> HookRegistrationSummary \<times> registry" where
  "register_webhook be source webhook s =
     (case s of (summary, hooks) \<Rightarrow>
        (case webhook_from_config be source webhook of
           Inr (hook, p) \<Rightarrow>
             (summary\<lparr>hs_outbound_webhooks := hs_outbound_webhooks summary + 1\<rparr>, register_with_priority hook p hooks)
         | Inl _ \<Rightarrow> (summary\<lparr>hs_errors := hs_errors summary + 1\<rparr>, hooks)))"

definition register_bundle ::
    "BundleEnv \<Rightarrow> string \<Rightarrow> HookBundleConfig \<Rightarrow> registry \<Rightarrow> HookRegistrationSummary \<times> registry" where
  "register_bundle be source bundle hooks =
     fold (register_webhook be source) (hb_outbound_webhooks bundle)
       (fold (register_rule be source) (hb_rules bundle) (\<lparr>hs_hooks = 0, hs_outbound_webhooks = 0, hs_errors = 0\<rparr>, hooks))"


subsection \<open>The registry keeps names distinct and priorities in order\<close>

definition wf_registry :: "registry \<Rightarrow> bool" where
  "wf_registry hooks = (distinct (map he_name hooks) \<and> sorted (map he_priority hooks))"

lemma replace_hook_None: "replace_hook hook p hooks = None \<longleftrightarrow> hk_name hook \<notin> set (map he_name hooks)"
  by (induction hooks) auto

lemma replace_hook_Some:
  "replace_hook hook p hooks = Some hooks' \<Longrightarrow> distinct (map he_name hooks) \<Longrightarrow>
     map he_name hooks' = map he_name hooks \<and>
     set hooks' = insert \<lparr>he_hook = hook, he_priority = p\<rparr> {e \<in> set hooks. he_name e \<noteq> hk_name hook}"
proof (induction hooks arbitrary: hooks')
  case (Cons e es)
  show ?case
  proof (cases "he_name e = hk_name hook")
    case True
    then show ?thesis using Cons.prems by (force intro: HookEntry.equality)
  next
    case False
    then obtain es' where "replace_hook hook p es = Some es'" "hooks' = e # es'" using Cons.prems by auto
    then show ?thesis using Cons.IH Cons.prems False by auto
  qed
qed simp

lemma distinct_names_sort [simp]: "distinct (map f (sort_key k xs)) = distinct (map f xs)"
  by (simp add: distinct_map)

lemma wf_register [inv_intros]: "wf_registry hooks \<Longrightarrow> wf_registry (register_with_priority hook p hooks)"
  using replace_hook_Some [of hook p hooks] replace_hook_None [of hook p hooks]
  by (auto simp: wf_registry_def register_with_priority_def split: option.split)

lemma set_register:
  assumes "wf_registry hooks"
  shows "set (register_with_priority hook p hooks) =
    insert \<lparr>he_hook = hook, he_priority = p\<rparr> {e \<in> set hooks. he_name e \<noteq> hk_name hook}"
  using assms replace_hook_Some [of hook p hooks] replace_hook_None [of hook p hooks]
  by (force simp: wf_registry_def register_with_priority_def split: option.split)

lemma wf_unregister [inv_intros]: "wf_registry hooks \<Longrightarrow> wf_registry (snd (unregister name hooks))"
  by (simp add: wf_registry_def unregister_def Let_def distinct_map_filter sorted_filter)

datatype registry_op = Register Hook u32 | Unregister string

fun registry_step :: "registry_op \<Rightarrow> registry \<Rightarrow> registry" where
  "registry_step (Register hook p) hooks = register_with_priority hook p hooks"
| "registry_step (Unregister name) hooks = snd (unregister name hooks)"

text \<open>
  Also: However hooks are registered and unregistered, no two registered hooks have the same name and the
  hooks stand in the order of their priorities.
\<close>

theorem registry_wf: "wf_registry (fold registry_step ops [])"
proof -
  have "wf_registry hooks \<Longrightarrow> wf_registry (fold registry_step ops hooks)" for hooks
  proof (induction ops arbitrary: hooks)
    case (Cons x xs)
    then show ?case by (cases x) (simp_all add: inv_intros)
  qed simp
  then show ?thesis by (simp add: wf_registry_def)
qed

text \<open>
  Also: Registering a hook makes it the only one of its name, with the given priority, and touches no
  other; unregistering removes exactly the hook of that name and reports whether there was one.
\<close>

theorem registry_update_spec:
  assumes "wf_registry hooks"
  shows "set (register_with_priority hook p hooks) =
      insert \<lparr>he_hook = hook, he_priority = p\<rparr> {e \<in> set hooks. he_name e \<noteq> hk_name hook} \<and>
    set (snd (unregister name hooks)) = {e \<in> set hooks. he_name e \<noteq> name} \<and>
    (fst (unregister name hooks) \<longleftrightarrow> name \<in> set (hook_list hooks))"
proof -
  have "length (filter (\<lambda>e. he_name e \<noteq> name) hooks) < length hooks \<longleftrightarrow> name \<in> set (map he_name hooks)"
    by (induction hooks) (auto simp: less_Suc_eq_le)
  with set_register [OF assms, of hook p] show ?thesis by (auto simp: unregister_def hook_list_def Let_def)
qed

theorem registry_update_spec_witness:
  "set (register_with_priority audit_log_hook 25 []) = {\<lparr>he_hook = audit_log_hook, he_priority = 25\<rparr>} \<and>
   \<not> fst (unregister ''x'' [])"
  using registry_update_spec [of "[]" audit_log_hook 25 "''x''"] by (simp add: wf_registry_def hook_list_def)

subsection \<open>When an event is let through\<close>

text \<open>The error with which a hook stops an event, and the event it leaves otherwise.\<close>

definition hook_blocks :: "(duration \<Rightarrow> string) \<Rightarrow> Hook \<Rightarrow> HookEvent \<Rightarrow> HookError option" where
  "hook_blocks st hook ev =
     (case hk_execute hook ev of
        Finished (Inr (HookReject reason)) \<Rightarrow> Some (HookRejected reason)
      | Finished (Inr (HookContinue _)) \<Rightarrow> None
      | Finished (Inl err) \<Rightarrow>
          if hk_failure_mode hook = FailClosed
          then Some (HookExecutionFailed (''Hook '' @ quoted (hk_name hook) @ '' failed: '' @ show_hook_error st err)) else None
      | Elapsed \<Rightarrow> if hk_failure_mode hook = FailClosed then Some (HookTimeout (hk_timeout hook)) else None)"

definition hook_after :: "Serde \<Rightarrow> Hook \<Rightarrow> HookEvent \<Rightarrow> HookEvent" where
  "hook_after sd hook ev =
     (case hk_execute hook ev of
        Finished (Inr (HookContinue (Some value))) \<Rightarrow> apply_modification sd value ev
      | _ \<Rightarrow> ev)"

lemma run_hooks_Cons:
  "run_hooks sd st (h # hs) ev =
     (case hook_blocks st h ev of Some e \<Rightarrow> Inl e | None \<Rightarrow> run_hooks sd st hs (hook_after sd h ev))"
  by (auto simp: hook_blocks_def hook_after_def split: HookRun.split sum.split HookOutcome.split option.split HookFailureMode.split)

declare run_hooks.simps(2) [simp del]

definition event_at :: "Serde \<Rightarrow> Hook list \<Rightarrow> HookEvent \<Rightarrow> nat \<Rightarrow> HookEvent" where
  "event_at sd hs ev i = fold (hook_after sd) (take i hs) ev"

lemma event_at_simps [simp]:
  "event_at sd hs ev 0 = ev" "event_at sd (h # hs) ev (Suc i) = event_at sd hs (hook_after sd h ev) i"
  by (simp_all add: event_at_def)

lemma run_hooks_Inr:
  "run_hooks sd st hs ev = Inr ev' \<longleftrightarrow>
     (\<forall>i < length hs. hook_blocks st (hs ! i) (event_at sd hs ev i) = None) \<and> ev' = event_at sd hs ev (length hs)"
proof (induction hs arbitrary: ev)
  case (Cons h hs)
  then show ?case by (auto simp: run_hooks_Cons less_Suc_eq_0_disj split: option.split)
qed (auto simp: event_at_def)

lemma run_hooks_Inl:
  "run_hooks sd st hs ev = Inl e \<longleftrightarrow>
     (\<exists>i < length hs. hook_blocks st (hs ! i) (event_at sd hs ev i) = Some e \<and>
        (\<forall>j < i. hook_blocks st (hs ! j) (event_at sd hs ev j) = None))"
proof (induction hs arbitrary: ev)
  case (Cons h hs)
  show ?case
  proof (cases "hook_blocks st h ev")
    case None
    then show ?thesis using Cons by (simp add: run_hooks_Cons Ex_less_Suc2 All_less_Suc2)
  next
    case (Some e')
    then show ?thesis by (auto simp: run_hooks_Cons Ex_less_Suc2 All_less_Suc2)
  qed
qed simp


lemma run_ok_not_blocked:
  "run sd st hooks ev = Inr out \<Longrightarrow> i < length (matching ev hooks) \<Longrightarrow>
     hook_blocks st (matching ev hooks ! i) (event_at sd (matching ev hooks) ev i) = None"
  using run_hooks_Inr [of sd st "matching ev hooks" ev] by (auto simp: run_def split: if_splits sum.splits)

text \<open>
  Also: The registry lets an event through exactly if every hook of its point, in the order of priority
  and given the event as the hooks before it left it, neither rejects it nor fails while failing closed; the outcome is
  then the content the last hook left, if it differs from the original. Otherwise the error is that of
  the first hook that stops the event.
\<close>

theorem run_spec:
  "(run sd st hooks ev = Inr out \<longleftrightarrow>
     (\<forall>i < length (matching ev hooks). hook_blocks st (matching ev hooks ! i) (event_at sd (matching ev hooks) ev i) = None) \<and>
     out = HookContinue (let c = extract_content sd (event_at sd (matching ev hooks) ev (length (matching ev hooks)))
                         in if c \<noteq> extract_content sd ev then Some c else None)) \<and>
   (run sd st hooks ev = Inl e \<longleftrightarrow>
     (\<exists>i < length (matching ev hooks). hook_blocks st (matching ev hooks ! i) (event_at sd (matching ev hooks) ev i) = Some e \<and>
        (\<forall>j < i. hook_blocks st (matching ev hooks ! j) (event_at sd (matching ev hooks) ev j) = None)))"
proof (intro conjI)
  let ?hs = "matching ev hooks"
  show "run sd st hooks ev = Inr out \<longleftrightarrow>
     (\<forall>i < length ?hs. hook_blocks st (?hs ! i) (event_at sd ?hs ev i) = None) \<and>
     out = HookContinue (let c = extract_content sd (event_at sd ?hs ev (length ?hs)) in if c \<noteq> extract_content sd ev then Some c else None)"
  proof (cases "run_hooks sd st ?hs ev")
    case (Inl e)
    then have "\<not> (\<forall>i < length ?hs. hook_blocks st (?hs ! i) (event_at sd ?hs ev i) = None)"
      using run_hooks_Inr [of sd st ?hs ev "event_at sd ?hs ev (length ?hs)"] by simp
    moreover have "?hs \<noteq> []" using Inl by auto
    ultimately show ?thesis using Inl by (simp add: run_def)
  next
    case (Inr ev')
    then show ?thesis using run_hooks_Inr [of sd st ?hs ev ev'] by (cases "?hs = []") (auto simp: run_def Let_def)
  qed
  show "run sd st hooks ev = Inl e \<longleftrightarrow>
     (\<exists>i < length ?hs. hook_blocks st (?hs ! i) (event_at sd ?hs ev i) = Some e \<and>
        (\<forall>j < i. hook_blocks st (?hs ! j) (event_at sd ?hs ev j) = None))"
    unfolding run_hooks_Inl [symmetric] by (auto simp: run_def Let_def split: sum.split)
qed

definition demo_serde :: Serde where
  "demo_serde = \<lparr>sd_to_string = (\<lambda>j. case j of JString s \<Rightarrow> s | _ \<Rightarrow> []), sd_from_str = (\<lambda>s. Some (JString s))\<rparr>"

definition demo_inbound :: HookEvent where
  "demo_inbound = Inbound ''u'' ''cli'' ''hi'' None"

definition shout_hook :: Hook where
  "shout_hook = \<lparr>hk_name = ''shout'', hk_points = [BeforeInbound], hk_failure_mode = FailClosed, hk_timeout = secs 5,
     hk_execute = (\<lambda>ev. Finished (Inr (HookContinue (Some ''HI''))))\<rparr>"

theorem run_spec_witness:
  "run demo_serde (\<lambda>_. ''5s'') [\<lparr>he_hook = shout_hook, he_priority = 1\<rparr>] demo_inbound = Inr (HookContinue (Some ''HI''))"
  using run_spec [of demo_serde "\<lambda>_. ''5s''" "[\<lparr>he_hook = shout_hook, he_priority = 1\<rparr>]" demo_inbound "HookContinue (Some ''HI'')"]
  by (simp add: matching_def demo_inbound_def shout_hook_def hook_blocks_def event_at_def hook_after_def)

text \<open>Content is only ever modified in the field the event has for it.\<close>

lemma hook_point_after [simp]: "hook_point (hook_after sd h ev) = hook_point ev"
  by (cases ev) (auto simp: hook_after_def split: HookRun.split sum.split HookOutcome.split option.split)

text \<open>
  Also: A hook that fails open and never answers, because it errs or runs out of time on every event,
  might as well not be registered.
\<close>

theorem fail_open_transparent:
  assumes "\<forall>e \<in> set hooks. \<not> keep e \<longrightarrow> hk_failure_mode (he_hook e) = FailOpen \<and>
      (\<forall>ev. hk_execute (he_hook e) ev = Elapsed \<or> (\<exists>err. hk_execute (he_hook e) ev = Finished (Inl err)))"
  shows "run sd st hooks ev = run sd st (filter keep hooks) ev"
proof -
  have same: "run_hooks sd st (map he_hook (filter P hooks)) ev = run_hooks sd st (map he_hook (filter P (filter keep hooks))) ev" for P ev
    using assms
  proof (induction hooks arbitrary: ev)
    case (Cons e es)
    show ?case
    proof (cases "keep e")
      case True
      then show ?thesis using Cons by (auto simp: run_hooks_Cons split: option.split)
    next
      case False
      with Cons.prems have fm: "hk_failure_mode (he_hook e) = FailOpen"
        and ex: "hk_execute (he_hook e) ev = Elapsed \<or> (\<exists>err. hk_execute (he_hook e) ev = Finished (Inl err))" by auto
      then have "hook_blocks st (he_hook e) ev = None" "hook_after sd (he_hook e) ev = ev"
        by (auto simp: hook_blocks_def hook_after_def)
      then show ?thesis using Cons False by (auto simp: run_hooks_Cons)
    qed
  qed simp
  let ?P = "\<lambda>e. hook_point ev \<in> set (hk_points (he_hook e))"
  have empty: "run sd st [] ev = Inr (HookContinue None)" by (simp add: run_def matching_def)
  have norm: "run sd st hs ev = (case run_hooks sd st (map he_hook (filter ?P hs)) ev of
      Inl e \<Rightarrow> Inl e | Inr current \<Rightarrow> if extract_content sd current \<noteq> extract_content sd ev
        then Inr (HookContinue (Some (extract_content sd current))) else Inr (HookContinue None))" for hs
    by (auto simp: run_def matching_def Let_def split: sum.split)
  show ?thesis unfolding norm same [of ?P] ..
qed

definition broken_hook :: Hook where
  "broken_hook = \<lparr>hk_name = ''broken'', hk_points = [BeforeInbound], hk_failure_mode = FailOpen, hk_timeout = secs 5,
     hk_execute = (\<lambda>_. Elapsed)\<rparr>"

theorem fail_open_transparent_witness:
  "run demo_serde (\<lambda>_. ''5s'') [\<lparr>he_hook = broken_hook, he_priority = 1\<rparr>, \<lparr>he_hook = audit_log_hook, he_priority = 25\<rparr>] demo_inbound =
   run demo_serde (\<lambda>_. ''5s'') [\<lparr>he_hook = audit_log_hook, he_priority = 25\<rparr>] demo_inbound"
  using fail_open_transparent [of "[\<lparr>he_hook = broken_hook, he_priority = 1\<rparr>, \<lparr>he_hook = audit_log_hook, he_priority = 25\<rparr>]"
      "\<lambda>e. he_name e \<noteq> ''broken''" demo_serde "\<lambda>_. ''5s''" demo_inbound]
  by (simp add: broken_hook_def audit_log_hook_def)


subsection \<open>What bundles can register\<close>

definition bundle_hook :: "string \<Rightarrow> Hook \<Rightarrow> bool" where
  "bundle_hook source hook =
     (starts_with (hk_name hook) (source @ ''::'') \<and> hk_points hook \<noteq> [] \<and> 0 < hk_timeout hook \<and> hk_timeout hook \<le> secs 30)"

lemma timeout_from_ms_bound: "timeout_from_ms ms name = Inr t \<Longrightarrow> 0 < t \<and> t \<le> secs 30"
  by (auto simp: timeout_from_ms_def word_less_nat_alt not_less unat_gt_0 split: option.splits if_splits)

lemma rule_from_config_hook: "rule_from_config be source config = Inr (hook, p) \<Longrightarrow> bundle_hook source hook"
  by (auto simp: rule_from_config_def scoped_name_def bundle_hook_def Let_def dest: timeout_from_ms_bound
      split: if_splits sum.splits)

lemma webhook_from_config_hook: "webhook_from_config be source config = Inr (hook, p) \<Longrightarrow> bundle_hook source hook"
  by (auto simp: webhook_from_config_def scoped_name_def bundle_hook_def Let_def dest: timeout_from_ms_bound
      split: if_splits sum.splits)

lemma bundle_hook_name: "bundle_hook source hook \<Longrightarrow> contains (hk_name hook) ''::''"
  by (auto simp: bundle_hook_def prefix_def) (metis append_assoc sublist_appendI append.simps(1,2))

text \<open>What holds of the registry after any part of a bundle has been registered.\<close>

definition extends_by :: "string \<Rightarrow> registry \<Rightarrow> registry \<Rightarrow> bool" where
  "extends_by source hooks hooks' =
     (wf_registry hooks' \<and> (\<forall>e \<in> set hooks'. e \<in> set hooks \<or> bundle_hook source (he_hook e)) \<and>
      (\<forall>e \<in> set hooks. \<not> contains (he_name e) ''::'' \<longrightarrow> e \<in> set hooks'))"

lemma extends_register:
  assumes "extends_by source hooks hooks'" and "bundle_hook source hook"
  shows "extends_by source hooks (register_with_priority hook p hooks')"
proof -
  have wf: "wf_registry hooks'" using assms(1) by (simp add: extends_by_def)
  show ?thesis using assms bundle_hook_name [OF assms(2)] wf_register [OF wf, of hook p]
    by (auto simp: extends_by_def set_register [OF wf])
qed

lemma extends_rule: "extends_by source hooks (snd s) \<Longrightarrow> extends_by source hooks (snd (register_rule be source rule s))"
  by (auto simp: register_rule_def intro!: extends_register split: prod.splits sum.splits dest!: rule_from_config_hook)

lemma extends_webhook: "extends_by source hooks (snd s) \<Longrightarrow> extends_by source hooks (snd (register_webhook be source w s))"
  by (auto simp: register_webhook_def intro!: extends_register split: prod.splits sum.splits dest!: webhook_from_config_hook)

lemma fold_invariant: "P s \<Longrightarrow> (\<And>x s. P s \<Longrightarrow> P (f x s)) \<Longrightarrow> P (fold f xs s)"
  by (induction xs arbitrary: s) auto

text \<open>
  Also: A bundle cannot take over the hooks the program ships with: whatever rules and webhooks it declares,
  every hook that was registered under a name without a source stays registered as it was, and every
  hook the bundle adds carries the name of its source, applies to at least one point and is limited to
  at most 30 seconds.
\<close>

theorem bundle_scoped:
  assumes "wf_registry hooks" and "register_bundle be source bundle hooks = (summary, hooks')"
  shows "wf_registry hooks' \<and> (\<forall>e \<in> set hooks'. e \<in> set hooks \<or> bundle_hook source (he_hook e)) \<and>
    (\<forall>e \<in> set hooks. \<not> contains (he_name e) ''::'' \<longrightarrow> e \<in> set hooks')"
proof -
  have "extends_by source hooks hooks" using assms(1) by (simp add: extends_by_def)
  then have "extends_by source hooks (snd (register_bundle be source bundle hooks))"
    unfolding register_bundle_def
    by (intro fold_invariant [where P = "\<lambda>s. extends_by source hooks (snd s)"] extends_rule extends_webhook) simp_all
  then show ?thesis by (simp add: assms(2) extends_by_def)
qed

lemma register_rule_count:
  "(case register_rule be source r s of (t, _) \<Rightarrow> hs_hooks t + hs_outbound_webhooks t + hs_errors t) =
   Suc (case s of (t, _) \<Rightarrow> hs_hooks t + hs_outbound_webhooks t + hs_errors t)"
  by (auto simp: register_rule_def split: prod.split sum.split)

lemma register_webhook_count:
  "(case register_webhook be source r s of (t, _) \<Rightarrow> hs_hooks t + hs_outbound_webhooks t + hs_errors t) =
   Suc (case s of (t, _) \<Rightarrow> hs_hooks t + hs_outbound_webhooks t + hs_errors t)"
  by (auto simp: register_webhook_def split: prod.split sum.split)

lemma fold_count: "(\<And>x s. c (f x s) = Suc (c s)) \<Longrightarrow> c (fold f xs s) = length xs + c s"
  by (induction xs arbitrary: s) auto

text \<open>
  Also: Every rule and webhook of a bundle is accounted for: it is either registered or counted as an error.
\<close>

theorem bundle_summary:
  "case register_bundle be source bundle hooks of (t, _) \<Rightarrow>
     total_registered t + hs_errors t = length (hb_rules bundle) + length (hb_outbound_webhooks bundle)"
  using fold_count [where c = "\<lambda>(t, _). hs_hooks t + hs_outbound_webhooks t + hs_errors t" and f = "register_webhook be source",
      OF register_webhook_count, of "hb_outbound_webhooks bundle"]
    fold_count [where c = "\<lambda>(t, _). hs_hooks t + hs_outbound_webhooks t + hs_errors t" and f = "register_rule be source",
      OF register_rule_count, of "hb_rules bundle"]
  by (simp add: register_bundle_def total_registered_def case_prod_beta)

definition demo_bundle_env :: BundleEnv where
  "demo_bundle_env =
     \<lparr>be_serde = demo_serde, be_net = demo_net public_addrs,
      be_regex = (\<lambda>p. Inr \<lparr>rx_is_match = (\<lambda>s. contains s p), rx_replace_all = (\<lambda>s r. if s = p then r else s)\<rparr>),
      be_header_name = Inr, be_header_value = Inr, be_client = Inr ()\<rparr>"

definition demo_rule :: HookRuleConfig where
  "demo_rule =
     \<lparr>rc_name = ''no-secrets'', rc_points = [BeforeInbound], rc_priority = Some 10, rc_failure_mode = None,
      rc_timeout_ms = None, rc_when_regex = Some ''secret'', rc_reject_reason = Some ''contains a secret'',
      rc_replacements = [], rc_prepend = None, rc_append = None\<rparr>"

definition builtin_registry :: registry where
  "builtin_registry = [\<lparr>he_hook = audit_log_hook, he_priority = 25\<rparr>]"

theorem bundle_scoped_witness:
  "\<lparr>he_hook = audit_log_hook, he_priority = 25\<rparr> \<in>
     set (snd (register_bundle demo_bundle_env ''ws'' \<lparr>hb_rules = [demo_rule], hb_outbound_webhooks = []\<rparr> builtin_registry))"
proof -
  obtain t hooks' where r: "register_bundle demo_bundle_env ''ws'' \<lparr>hb_rules = [demo_rule], hb_outbound_webhooks = []\<rparr> builtin_registry = (t, hooks')"
    by fastforce
  have "\<not> contains ''builtin.audit_log'' ''::''" by code_simp
  then have "\<not> contains (hk_name audit_log_hook) ''::''" by (simp add: audit_log_hook_def)
  moreover have "wf_registry builtin_registry" by (simp add: wf_registry_def builtin_registry_def)
  ultimately show ?thesis using bundle_scoped [OF _ r] unfolding r by (simp add: builtin_registry_def)
qed

text \<open>
  Also: What a webhook is told of an event does not depend on the text of a message, the parameters of a
  tool call, the user or the session: only on lengths and counts.
\<close>

fun blank_event :: "HookEvent \<Rightarrow> HookEvent" where
  "blank_event (Inbound u c content t) = Inbound [] c (replicate (length content) CHR ''x'') (map_option (\<lambda>_. []) t)"
| "blank_event (Outbound u c content t) = Outbound [] c (replicate (length content) CHR ''x'') (map_option (\<lambda>_. []) t)"
| "blank_event (ToolCallEvent n params u c) =
     ToolCallEvent n (case params of JObject kvs \<Rightarrow> JObject (replicate (length kvs) ([], JNull)) | JNull \<Rightarrow> JNull | _ \<Rightarrow> JBool True) [] c"
| "blank_event (SessionStart u s) = SessionStart [] []"
| "blank_event (SessionEnd u s) = SessionEnd [] []"
| "blank_event (ResponseTransform u t r) = ResponseTransform [] [] (replicate (length r) CHR ''x'')"

theorem webhook_summary_private: "summarize_webhook_event (blank_event ev) = summarize_webhook_event ev"
  by (cases ev) (auto split: json.split)

end
