(* ===== verification/Dispatcher.thy ===== *)
theory Dispatcher
  imports Agentic_Loop Thread_Ops Cost_Guard Hooks
begin

text \<open>
  The chat delegate of the agentic loop: \<^verbatim>\<open>src/agent/dispatcher.rs\<close>, with \<open>redact_params\<close> of
  \<^verbatim>\<open>src/tools/tool.rs\<close>. Tool calls pass three phases: a sequential preflight with hooks and approval,
  the execution (in parallel when there are several), and a sequential post-flight in the original
  order. The lemmas show which calls are executed, that every call handled is answered in order, that
  every request to the model satisfies the tool-call protocol, and that the loop always ends with an
  answer.

  Arguments of the model, collected in \<open>ChatEnv\<close>: the registered tools, the hooks, the JSON parser, the
  safety layer, and the execution of tools on the state \<open>'w\<close> of the outside world; \<open>ev_join\<close> gives
  the finished tasks of a parallel execution in the order in which they finish, a task that panicked
  being absent. Other tasks may change the session between iterations (\<open>ev_interfere\<close>). Status
  updates to the channel are left out.
\<close>

subsection \<open>Messages\<close>

definition last_user_idx :: "ChatMessage list \<Rightarrow> nat option" where
  "last_user_idx ms =
     (case filter (\<lambda>i. cm_role (ms ! i) = User) [0..<length ms] of [] \<Rightarrow> None | i # is \<Rightarrow> Some (last (i # is)))"

definition compaction_note :: string where
  "compaction_note =
     ''[Note: Earlier conversation history was automatically compacted '' @
     ''to fit within the context window. The most recent exchange is preserved below.]''"

definition compact_messages_for_retry :: "ChatMessage list \<Rightarrow> ChatMessage list" where
  "compact_messages_for_retry ms =
     (case last_user_idx ms of
        Some idx \<Rightarrow>
          filter (\<lambda>m. cm_role m = System) (take idx ms) @
          (if idx > 0 then [cm_system compaction_note] else []) @ drop idx ms
      | None \<Rightarrow>
          filter (\<lambda>m. cm_role m = System) ms @ filter (\<lambda>m. cm_role m \<noteq> System) ms)"

definition internal_marker :: "string \<Rightarrow> bool" where
  "internal_marker line =
     (let trimmed = trim line
      in starts_with trimmed ''[Called tool '' \<and> ends_with trimmed '']'' \<or>
         starts_with trimmed ''[Tool '' \<and> contains trimmed '' returned:'' \<and> ends_with trimmed '']'')"

definition strip_internal_tool_call_text :: "string \<Rightarrow> string" where
  "strip_internal_tool_call_text s =
     (let result = fold (\<lambda>line acc. (if acc = [] then acc else acc @ [CHR 0x0A]) @ line)
                     (filter (\<lambda>line. \<not> internal_marker line) (lines s)) [];
          result = trim result
      in if result = []
         then ''I wasn'' @ [CHR 0x27] @ ''t able to complete that request. Could you try rephrasing or providing more details?''
         else result)"

subsection \<open>Tools, hooks and approval\<close>

record ToolInfo =
  ti_sensitive_params :: "string list"
  ti_description :: string
  ti_requires_approval :: "json \<Rightarrow> ApprovalRequirement"

text \<open>A hook sees redacted parameters; what it returns gets the original sensitive values back.\<close>

definition restore_sensitive :: "json \<Rightarrow> string list \<Rightarrow> json \<Rightarrow> json" where
  "restore_sensitive original sensitive parsed =
     (case parsed of
        JObject kvs \<Rightarrow>
          JObject (fold (\<lambda>key kvs. case json_get key original of Some v \<Rightarrow> AList.update key v kvs | None \<Rightarrow> kvs)
            sensitive kvs)
      | _ \<Rightarrow> parsed)"

record 'w ChatEnv =
  ev_tools :: "string \<Rightarrow> ToolInfo option"
  ev_tool_definitions :: "'w \<Rightarrow> ToolDefinition list"
  ev_hook :: "string \<Rightarrow> json \<Rightarrow> HookError + HookOutcome"
  ev_from_str :: "string \<Rightarrow> json option"
  ev_show_timeout :: "duration \<Rightarrow> string"
  ev_auto_approve_tools :: bool
  ev_run_tool :: "ToolCall \<Rightarrow> 'w \<Rightarrow> (string + string) \<times> 'w"
  ev_join :: "(nat \<times> ToolCall) list \<Rightarrow> 'w \<Rightarrow> (nat \<times> (string + string)) list \<times> 'w"
  ev_sanitize :: "string \<Rightarrow> string \<Rightarrow> string \<times> bool"
  ev_wrap :: "string \<Rightarrow> string \<Rightarrow> bool \<Rightarrow> string"
  ev_interfere :: "Session \<Rightarrow> 'w \<Rightarrow> Session \<times> 'w"

definition tool_sensitive :: "'w ChatEnv \<Rightarrow> string \<Rightarrow> string list" where
  "tool_sensitive env name = (case ev_tools env name of Some t \<Rightarrow> ti_sensitive_params t | None \<Rightarrow> [])"

text \<open>The outcome of the \<open>BeforeToolCall\<close> hook: the text of a rejection, or the call to make.\<close>

definition run_hook :: "'w ChatEnv \<Rightarrow> ToolCall \<Rightarrow> string + ToolCall" where
  "run_hook env tc =
     (case ev_hook env (tc_name tc) (redact_params (tc_arguments tc) (tool_sensitive env (tc_name tc))) of
        Inl (HookRejected reason) \<Rightarrow> Inl (''Tool call rejected by hook: '' @ reason)
      | Inl err \<Rightarrow> Inl (''Tool call blocked by hook policy: '' @ show_hook_error (ev_show_timeout env) err)
      | Inr (HookContinue (Some new_params)) \<Rightarrow>
          (case ev_from_str env new_params of
             Some parsed \<Rightarrow>
               Inr (tc\<lparr>tc_arguments := restore_sensitive (tc_arguments tc) (tool_sensitive env (tc_name tc)) parsed\<rparr>)
           | None \<Rightarrow> Inr tc)
      | Inr _ \<Rightarrow> Inr tc)"

definition needs_approval :: "'w ChatEnv \<Rightarrow> Session \<Rightarrow> ToolCall \<Rightarrow> bool" where
  "needs_approval env sess tc =
     (if ev_auto_approve_tools env then False
      else case ev_tools env (tc_name tc) of
          None \<Rightarrow> False
        | Some tool \<Rightarrow>
            (case ti_requires_approval tool (tc_arguments tc) of
               Never \<Rightarrow> False
             | UnlessAutoApproved \<Rightarrow> \<not> is_tool_auto_approved sess (tc_name tc)
             | Always \<Rightarrow> True))"

datatype PreflightOutcome = Rejected string | Runnable

text \<open>
  Phase 1, from the call with index \<open>idx\<close> on: the calls classified, up to the first one that needs
  approval, which is returned with its index.
\<close>

fun preflight ::
    "'w ChatEnv \<Rightarrow> Session \<Rightarrow> nat \<Rightarrow> ToolCall list \<Rightarrow> (ToolCall \<times> PreflightOutcome) list \<times> (nat \<times> ToolCall) option" where
  "preflight env sess idx [] = ([], None)"
| "preflight env sess idx (original_tc # rest) =
     (case run_hook env original_tc of
        Inl msg \<Rightarrow> apfst (\<lambda>pf. (original_tc, Rejected msg) # pf) (preflight env sess (idx + 1) rest)
      | Inr tc \<Rightarrow>
          if needs_approval env sess tc then ([], Some (idx, tc))
          else apfst (\<lambda>pf. (tc, Runnable) # pf) (preflight env sess (idx + 1) rest))"

definition runnable :: "(ToolCall \<times> PreflightOutcome) list \<Rightarrow> (nat \<times> ToolCall) list" where
  "runnable pf = map (\<lambda>(i, tc, _). (i, tc)) (filter (\<lambda>(i, tc, out). out = Runnable) (enumerate 0 pf))"

definition tool_failed :: "string \<Rightarrow> string \<Rightarrow> string" where
  "tool_failed name reason = ''Tool '' @ name @ '' execution failed: '' @ reason"

text \<open>Phase 2: the slots of the results, one per call of the preflight.\<close>

definition execute_phase ::
    "'w ChatEnv \<Rightarrow> (ToolCall \<times> PreflightOutcome) list \<Rightarrow> 'w \<Rightarrow> (string + string) option list \<times> 'w" where
  "execute_phase env pf w =
     (let slots = replicate (length pf) None
      in case runnable pf of
           [] \<Rightarrow> (slots, w)
         | [(i, tc)] \<Rightarrow> (case ev_run_tool env tc w of (r, w) \<Rightarrow> (slots[i := Some r], w))
         | several \<Rightarrow>
             (case ev_join env several w of (finished, w) \<Rightarrow>
               (let slots = fold (\<lambda>(i, r) sl. sl[i := Some r]) finished slots;
                    slots = fold (\<lambda>(i, tc) sl.
                              if sl ! i = None
                              then sl[i := Some (Inl (tool_failed (tc_name tc) ''Task failed during execution''))]
                              else sl) several slots
                in (slots, w))))"

definition check_auth_required :: "'w ChatEnv \<Rightarrow> string \<Rightarrow> string + string \<Rightarrow> (string \<times> string) option" where
  "check_auth_required env tool_name result =
     (if tool_name \<noteq> ''tool_auth'' \<and> tool_name \<noteq> ''tool_activate'' then None
      else case result of
          Inl _ \<Rightarrow> None
        | Inr output \<Rightarrow>
            (case ev_from_str env output of
               None \<Rightarrow> None
             | Some parsed \<Rightarrow>
                 if json_get ''awaiting_token'' parsed \<noteq> Some (JBool True) then None
                 else (case Option.bind (json_get ''name'' parsed) as_str of
                         None \<Rightarrow> None
                       | Some name \<Rightarrow>
                           Some (name, (case Option.bind (json_get ''instructions'' parsed) as_str of
                                          Some i \<Rightarrow> i | None \<Rightarrow> ''Please provide your API token/key.'')))))"

record ('d, 'w) ChatState =
  cs_session :: Session
  cs_stash :: "(string \<times> string) list"
  cs_guard :: "'d CostGuard"
  cs_world :: 'w

definition on_turn :: "uuid \<Rightarrow> (Turn \<Rightarrow> Turn) \<Rightarrow> ('d, 'w) ChatState \<Rightarrow> ('d, 'w) ChatState" where
  "on_turn tid f cs = cs\<lparr>cs_session := update_thread tid (update_last_turn f) (cs_session cs)\<rparr>"

text \<open>The message for the model.\<close>

definition result_text :: "'w ChatEnv \<Rightarrow> ToolCall \<Rightarrow> string + string \<Rightarrow> string" where
  "result_text env tc result =
     (case result of
        Inr output \<Rightarrow>
          (case ev_sanitize env (tc_name tc) output of (content, was_modified) \<Rightarrow>
             ev_wrap env (tc_name tc) content was_modified)
      | Inl e \<Rightarrow> ''Tool '' @ [CHR 0x27] @ tc_name tc @ [CHR 0x27] @ '' failed: '' @ e)"

text \<open>Phase 3 for one call; the first component is the deferred instruction for authentication.\<close>

definition post_call ::
    "'w ChatEnv \<Rightarrow> datetime \<Rightarrow> uuid \<Rightarrow> (string + string) option list \<Rightarrow> nat \<times> ToolCall \<times> PreflightOutcome \<Rightarrow>
     string option \<times> ReasoningContext \<times> ('d, 'w) ChatState \<Rightarrow> string option \<times> ReasoningContext \<times> ('d, 'w) ChatState" where
  "post_call env now tid slots item st =
     (case item of (pf_idx, tc, outcome) \<Rightarrow> case st of (auth, rc, cs) \<Rightarrow>
       (case outcome of
          Rejected error_msg \<Rightarrow>
            (auth, push_message (cm_tool_result (tc_id tc) (tc_name tc) error_msg)
               (rc, on_turn tid (record_tool_error error_msg) cs))
        | Runnable \<Rightarrow>
            (let tool_result = (case slots ! pf_idx of Some r \<Rightarrow> r
                                | None \<Rightarrow> Inl (tool_failed (tc_name tc) ''No result available''));
                 (auth, cs) =
                   (case auth of
                      Some a \<Rightarrow> (Some a, cs)
                    | None \<Rightarrow>
                        (case check_auth_required env (tc_name tc) tool_result of
                           None \<Rightarrow> (None, cs)
                         | Some (ext_name, instructions) \<Rightarrow>
                             (Some instructions,
                              cs\<lparr>cs_session := update_thread tid (enter_auth_mode now ext_name) (cs_session cs)\<rparr>)));
                 cs = (case tool_result of
                         Inr output \<Rightarrow> cs\<lparr>cs_stash := AList.update (tc_id tc) output (cs_stash cs)\<rparr>
                       | Inl _ \<Rightarrow> cs);
                 content = result_text env tc tool_result;
                 cs = on_turn tid (case tool_result of
                                     Inl _ \<Rightarrow> record_tool_error content
                                   | Inr _ \<Rightarrow> record_tool_result (JString content)) cs
             in (auth, push_message (cm_tool_result (tc_id tc) (tc_name tc) content) (rc, cs)))))"

definition record_calls :: "'w ChatEnv \<Rightarrow> ToolCall list \<Rightarrow> Turn \<Rightarrow> Turn" where
  "record_calls env calls t =
     fold (\<lambda>tc. record_tool_call (tc_name tc)
        (case ev_tools env (tc_name tc) of
           Some tool \<Rightarrow> redact_params (tc_arguments tc) (ti_sensitive_params tool)
         | None \<Rightarrow> tc_arguments tc)) calls t"

definition approval_request ::
    "'w ChatEnv \<Rightarrow> uuid \<Rightarrow> string \<Rightarrow> ToolCall list \<Rightarrow> ChatMessage list \<Rightarrow> nat \<times> ToolCall \<Rightarrow> PendingApproval" where
  "approval_request env new_id tz tool_calls context a =
     (case a of (approval_idx, tc) \<Rightarrow>
        \<lparr>pa_request_id = new_id, pa_tool_name = tc_name tc, pa_parameters = tc_arguments tc,
         pa_display_parameters = redact_params (tc_arguments tc) (tool_sensitive env (tc_name tc)),
         pa_description = (case ev_tools env (tc_name tc) of Some t \<Rightarrow> ti_description t | None \<Rightarrow> []),
         pa_tool_call_id = tc_id tc, pa_context_messages = context,
         pa_deferred_tool_calls = drop (approval_idx + 1) tool_calls, pa_user_timezone = Some tz\<rparr>)"

text \<open>The three phases. \<open>now\<close>, \<open>new_id\<close> and \<open>tz\<close> are the clock, the fresh request id and the user's time zone.\<close>

definition chat_execute_tool_calls ::
    "'w ChatEnv \<Rightarrow> datetime \<Rightarrow> uuid \<Rightarrow> string \<Rightarrow> uuid \<Rightarrow> ToolCall list \<Rightarrow> string option \<Rightarrow>
     ReasoningContext \<times> ('d, 'w) ChatState \<Rightarrow> ('e + LoopOutcome option) \<times> ReasoningContext \<times> ('d, 'w) ChatState" where
  "chat_execute_tool_calls env now new_id tz tid tool_calls content st =
     (let (rc, cs) = push_message (cm_assistant_with_tool_calls content tool_calls) st;
          cs = on_turn tid (record_calls env tool_calls) cs;
          (pf, approval) = preflight env (cs_session cs) 0 tool_calls;
          (slots, w) = execute_phase env pf (cs_world cs);
          (auth, rc, cs) = fold (post_call env now tid slots) (enumerate 0 pf) (None, rc, cs\<lparr>cs_world := w\<rparr>)
      in case auth of
           Some instructions \<Rightarrow> (Inr (Some (OutResponse instructions)), rc, cs)
         | None \<Rightarrow>
             (case approval of
                None \<Rightarrow> (Inr None, rc, cs)
              | Some a \<Rightarrow> (Inr (Some (OutNeedApproval (approval_request env new_id tz tool_calls (rx_messages rc) a))), rc, cs)))"

subsection \<open>The delegate\<close>

definition chat_check_signals :: "'w ChatEnv \<Rightarrow> uuid \<Rightarrow> ('d, 'w) ChatState \<Rightarrow> LoopSignal \<times> ('d, 'w) ChatState" where
  "chat_check_signals env tid cs =
     (let (sess, w) = ev_interfere env (cs_session cs) (cs_world cs); cs = cs\<lparr>cs_session := sess, cs_world := w\<rparr>
      in case map_of (se_threads sess) tid of
           Some thread \<Rightarrow> (if th_state thread = ThreadInterrupted then SignalStop else SignalContinue, cs)
         | None \<Rightarrow> (SignalContinue, cs))"

definition limit_note :: string where
  "limit_note = ''You are approaching the tool call limit. Provide your best final answer on the next response '' @
     ''using the information you have gathered so far. Do not call any more tools.''"

text \<open>\<open>attenuate\<close> restricts the tools to what the active skills are trusted with.\<close>

definition chat_before_llm_call ::
    "'w ChatEnv \<Rightarrow> (ToolDefinition list \<Rightarrow> ToolDefinition list) \<Rightarrow> string \<Rightarrow> string \<Rightarrow> nat \<Rightarrow> nat \<Rightarrow>
     ReasoningContext \<times> ('d, 'w) ChatState \<Rightarrow> LoopOutcome option \<times> ReasoningContext \<times> ('d, 'w) ChatState" where
  "chat_before_llm_call env attenuate prompt prompt_no_tools max_tool_iterations iteration st =
     (let (rc, cs) = (if iteration = max_tool_iterations - 1 then push_message (cm_system limit_note) st else st);
          force = (iteration \<ge> max_tool_iterations)
      in (None, rc\<lparr>rx_available_tools := attenuate (ev_tool_definitions env (cs_world cs)),
                   rx_system_prompt := Some (if force then prompt_no_tools else prompt),
                   rx_force_text := force\<rparr>, cs))"

text \<open>The model is asked again once, with compacted messages, when the context was too long.\<close>

definition respond_or_compact ::
    "'w Reasoner \<Rightarrow> ReasoningContext \<Rightarrow> 'w \<Rightarrow> (LlmError + RespondOutput) \<times> ReasoningContext \<times> 'w" where
  "respond_or_compact re rc w =
     (case respond_with_tools re rc w of
        (Inl (ContextLengthExceeded used limit), w) \<Rightarrow>
          (let rc = rc\<lparr>rx_messages := compact_messages_for_retry (rx_messages rc)\<rparr>;
               rc = (if rx_force_text rc then rc\<lparr>rx_available_tools := []\<rparr> else rc)
           in case respond_with_tools re rc w of (r, w) \<Rightarrow> (r, rc, w))
      | (r, w) \<Rightarrow> (r, rc, w))"

datatype AgentError = AgentLlm LlmError | AgentJob JobError

text \<open>What the guard needs to know of prices and of the clock.\<close>

record ('d, 'w) Pricing =
  pr_dec :: "nat \<Rightarrow> 'd"
  pr_tr :: "'d \<Rightarrow> int"
  pr_table :: "string \<Rightarrow> 'd \<times> 'd"
  pr_read_discount :: 'd
  pr_write_multiplier :: 'd
  pr_cost_per_token :: "'d \<times> 'd"
  pr_show_limit :: "CostLimitExceeded \<Rightarrow> string"
  pr_model :: string
  pr_now :: "'w \<Rightarrow> instant"
  pr_today :: "'w \<Rightarrow> int"

definition chat_call_llm ::
    "('d::{zero,one,plus,times,divide}, 'w) Pricing \<Rightarrow> 'w Reasoner \<Rightarrow>
     ReasoningContext \<times> ('d, 'w) ChatState \<Rightarrow> (AgentError + RespondOutput) \<times> ReasoningContext \<times> ('d, 'w) ChatState" where
  "chat_call_llm pr re st =
     (case st of (rc, cs) \<Rightarrow>
       (case check_allowed (pr_dec pr) (pr_tr pr) (pr_now pr (cs_world cs)) (cs_guard cs) of
          (Inl limit, cg) \<Rightarrow>
            (Inl (AgentLlm (InvalidResponse ''agent'' (pr_show_limit pr limit))), rc, cs\<lparr>cs_guard := cg\<rparr>)
        | (Inr _, cg) \<Rightarrow>
            (case respond_or_compact re rc (cs_world cs) of
               (Inl e, rc, w) \<Rightarrow> (Inl (AgentLlm e), rc, cs\<lparr>cs_guard := cg, cs_world := w\<rparr>)
             | (Inr out, rc, w) \<Rightarrow>
                 (Inr out, rc, cs\<lparr>cs_world := w,
                    cs_guard := snd (record_llm_call (pr_dec pr) (pr_tr pr) (pr_table pr) (pr_today pr w) (pr_now pr w)
                      (pr_model pr) (us_input_tokens (ro_usage out)) (us_output_tokens (ro_usage out))
                      (us_cache_read_input_tokens (ro_usage out)) (us_cache_creation_input_tokens (ro_usage out))
                      (pr_read_discount pr) (pr_write_multiplier pr) (Some (pr_cost_per_token pr)) cg)\<rparr>))))"

text \<open>The parts of the delegate that stay fixed during a turn.\<close>

record ChatTurn =
  ct_thread_id :: uuid
  ct_now :: datetime
  ct_new_id :: uuid
  ct_tz :: string
  ct_attenuate :: "ToolDefinition list \<Rightarrow> ToolDefinition list"
  ct_prompt :: string
  ct_prompt_no_tools :: string
  ct_max_tool_iterations :: nat

definition chat_delegate ::
    "'w ChatEnv \<Rightarrow> ('d::{zero,one,plus,times,divide}, 'w) Pricing \<Rightarrow> ChatTurn \<Rightarrow> 'w Reasoner \<Rightarrow>
     (('d, 'w) ChatState, AgentError) LoopDelegate" where
  "chat_delegate env pr ct re =
     \<lparr>ld_check_signals = chat_check_signals env (ct_thread_id ct),
      ld_before_llm_call = chat_before_llm_call env (ct_attenuate ct) (ct_prompt ct) (ct_prompt_no_tools ct)
        (ct_max_tool_iterations ct),
      ld_call_llm = (\<lambda>_. chat_call_llm pr re),
      ld_handle_text_response = (\<lambda>t st. (TextReturn (OutResponse (strip_internal_tool_call_text t)), st)),
      ld_execute_tool_calls = chat_execute_tool_calls env (ct_now ct) (ct_new_id ct) (ct_tz ct) (ct_thread_id ct),
      ld_on_tool_intent_nudge = (\<lambda>_ st. st),
      ld_after_iteration = (\<lambda>_ cs. cs)\<rparr>"

definition chat_loop_config :: "nat \<Rightarrow> AgenticLoopConfig" where
  "chat_loop_config max_tool_iterations =
     \<lparr>lc_max_iterations = max_tool_iterations + 1, lc_enable_tool_intent_nudge = True, lc_max_tool_intent_nudges = 2\<rparr>"

text \<open>\<open>Agent::run_agentic_loop\<close>, from the context of the turn.\<close>

definition run_chat_loop ::
    "'w ChatEnv \<Rightarrow> ('d::{zero,one,plus,times,divide}, 'w) Pricing \<Rightarrow> ChatTurn \<Rightarrow> 'w Reasoner \<Rightarrow> ReasoningContext \<Rightarrow>
     ('d, 'w) ChatState \<Rightarrow> (AgentError + AgenticLoopResult) \<times> ReasoningContext \<times> ('d, 'w) ChatState" where
  "run_chat_loop env pr ct re rc cs =
     (case run_agentic_loop (chat_delegate env pr ct re) (chat_loop_config (ct_max_tool_iterations ct)) (rc, cs) of
        (r, st) \<Rightarrow>
          ((case r of
              Inl e \<Rightarrow> Inl e
            | Inr (OutResponse t) \<Rightarrow> Inr (LoopResponse t)
            | Inr OutStopped \<Rightarrow> Inl (AgentJob (ContextError (ct_thread_id ct) ''Interrupted''))
            | Inr OutMaxIterations \<Rightarrow>
                Inl (AgentLlm (InvalidResponse ''agent''
                  (''Exceeded maximum tool iterations ('' @ show_nat (ct_max_tool_iterations ct) @ '')'')))
            | Inr (OutNeedApproval p) \<Rightarrow> Inr (LoopNeedApproval p)), st))"

subsection \<open>The tool-call protocol\<close>

text \<open>
  Every tool result stands in the block of results right after the assistant message that made the
  call; \<open>pending\<close> are the calls of the latest assistant message.
\<close>

definition message_calls :: "ChatMessage \<Rightarrow> string list" where
  "message_calls m = (case cm_tool_calls m of Some calls \<Rightarrow> map tc_id calls | None \<Rightarrow> [])"

fun tool_blocks :: "string list \<Rightarrow> ChatMessage list \<Rightarrow> bool" where
  "tool_blocks pending [] = True"
| "tool_blocks pending (m # ms) =
     (case cm_role m of
        Tool \<Rightarrow> (case cm_tool_call_id m of Some i \<Rightarrow> i \<in> set pending | None \<Rightarrow> False) \<and> tool_blocks pending ms
      | Assistant \<Rightarrow> tool_blocks (message_calls m) ms
      | _ \<Rightarrow> tool_blocks [] ms)"

fun pending_after :: "string list \<Rightarrow> ChatMessage list \<Rightarrow> string list" where
  "pending_after pending [] = pending"
| "pending_after pending (m # ms) =
     pending_after (case cm_role m of Tool \<Rightarrow> pending | Assistant \<Rightarrow> message_calls m | _ \<Rightarrow> []) ms"

abbreviation protocol_ok :: "ChatMessage list \<Rightarrow> bool" where
  "protocol_ok ms \<equiv> tool_blocks [] ms"

lemma tool_blocks_append:
  "tool_blocks p (xs @ ys) \<longleftrightarrow> tool_blocks p xs \<and> tool_blocks (pending_after p xs) ys"
  by (induction xs arbitrary: p) (auto split: Role.split)

lemma tool_blocks_mono: "tool_blocks p ms \<Longrightarrow> set p \<subseteq> set q \<Longrightarrow> tool_blocks q ms"
  by (induction ms arbitrary: p q) (auto split: Role.splits option.splits)

lemma tool_blocks_results:
  "\<forall>m \<in> set ms. cm_role m = Tool \<and> (\<exists>i \<in> set p. cm_tool_call_id m = Some i) \<Longrightarrow>
     tool_blocks p ms \<and> pending_after p ms = p"
  by (induction ms) auto

lemma tool_blocks_systems: "\<forall>m \<in> set ms. cm_role m = System \<Longrightarrow> tool_blocks p ms"
  by (induction ms arbitrary: p) auto

lemma pending_after_systems: "\<forall>m \<in> set ms. cm_role m = System \<Longrightarrow> pending_after [] ms = []"
  by (induction ms) auto

lemma tool_blocks_no_systems:
  "tool_blocks p ms \<Longrightarrow> set p \<subseteq> set q \<Longrightarrow> tool_blocks q (filter (\<lambda>m. cm_role m \<noteq> System) ms)"
proof (induction ms arbitrary: p q)
  case (Cons m ms)
  show ?case
  proof (cases "cm_role m")
    case System
    then show ?thesis using Cons.prems Cons.IH [of "[]" q] by simp
  next
    case User
    then show ?thesis using Cons.prems Cons.IH [of "[]" "[]"] by simp
  next
    case Assistant
    then show ?thesis using Cons.prems Cons.IH [of "message_calls m" "message_calls m"] by simp
  next
    case Tool
    then show ?thesis using Cons.prems Cons.IH [of p q] by (auto split: option.splits)
  qed
qed simp

lemma protocol_ok_push:
  "protocol_ok ms \<Longrightarrow> cm_role m \<noteq> Tool \<Longrightarrow> protocol_ok (ms @ [m])"
  by (auto simp: tool_blocks_append split: Role.split)

lemma last_user_idx_Some:
  "last_user_idx ms = Some i \<Longrightarrow> i < length ms \<and> cm_role (ms ! i) = User"
proof -
  assume s: "last_user_idx ms = Some i"
  let ?f = "filter (\<lambda>i. cm_role (ms ! i) = User) [0..<length ms]"
  have "?f \<noteq> []" "i = last ?f" using s by (auto simp: last_user_idx_def split: list.splits)
  then have "i \<in> set ?f" using last_in_set by blast
  then show ?thesis by simp
qed

lemma protocol_ok_compact: "protocol_ok ms \<Longrightarrow> protocol_ok (compact_messages_for_retry ms)"
proof (cases "last_user_idx ms")
  case None
  assume ok: "protocol_ok ms"
  let ?s = "filter (\<lambda>m. cm_role m = System) ms"
  have sys: "\<forall>m \<in> set ?s. cm_role m = System" by simp
  show ?thesis using tool_blocks_no_systems [OF ok, of "[]"] tool_blocks_systems [OF sys] pending_after_systems [OF sys]
    by (simp add: compact_messages_for_retry_def None tool_blocks_append)
next
  case (Some i)
  assume ok: "protocol_ok ms"
  let ?s = "filter (\<lambda>m. cm_role m = System) (take i ms) @ (if i > 0 then [cm_system compaction_note] else [])"
  have sys: "\<forall>m \<in> set ?s. cm_role m = System" by auto
  obtain u rest where d: "drop i ms = u # rest" "cm_role u = User"
    using last_user_idx_Some [OF Some] by (metis Cons_nth_drop_Suc)
  have "tool_blocks (pending_after [] (take i ms)) (drop i ms)"
    using ok tool_blocks_append [of "[]" "take i ms" "drop i ms"] by simp
  then have "protocol_ok (drop i ms)" using d by simp
  moreover have "compact_messages_for_retry ms = ?s @ drop i ms"
    by (simp add: compact_messages_for_retry_def Some)
  ultimately show ?thesis
    using tool_blocks_systems [OF sys, of "[]"] pending_after_systems [OF sys] by (simp only: tool_blocks_append)
qed

lemma protocol_ok_request: "protocol_ok (rx_messages rc) \<Longrightarrow> protocol_ok (request_messages re rc)"
  using tool_blocks_no_systems [of "[]" "rx_messages rc" "[]"] by (simp add: request_messages_def Let_def)

lemma tool_blocks_known:
  "tool_blocks p ms \<Longrightarrow> m \<in> set ms \<Longrightarrow> cm_role m = Tool \<Longrightarrow>
     \<exists>i. cm_tool_call_id m = Some i \<and> i \<in> set p \<union> set (known_ids ms)"
proof (induction ms arbitrary: p)
  case (Cons x xs)
  show ?case
  proof (cases "m = x")
    case True
    then show ?thesis using Cons.prems by (auto split: option.splits)
  next
    case False
    then have m: "m \<in> set xs" using Cons.prems(2) by simp
    show ?thesis
    proof (cases "cm_role x")
      case Assistant
      then show ?thesis using Cons.IH [OF _ m Cons.prems(3), of "message_calls x"] Cons.prems(1)
        by (auto simp: message_calls_def split: option.splits)
    next
      case Tool
      then show ?thesis using Cons.IH [OF _ m Cons.prems(3), of p] Cons.prems(1) by auto
    qed (use Cons.IH [OF _ m Cons.prems(3), of "[]"] Cons.prems(1) in auto)
  qed
qed simp

lemma protocol_ok_sanitized: "protocol_ok ms \<Longrightarrow> sanitize_tool_messages ms = ms"
  by (rule sanitize_id_if_no_orphan) (auto simp: is_orphaned_def dest!: tool_blocks_known)

subsection \<open>Which calls are executed\<close>

definition classified :: "'w ChatEnv \<Rightarrow> Session \<Rightarrow> ToolCall \<Rightarrow> ToolCall \<times> PreflightOutcome \<Rightarrow> bool" where
  "classified env sess c p =
     (case run_hook env c of
        Inl msg \<Rightarrow> p = (c, Rejected msg)
      | Inr tc \<Rightarrow> p = (tc, Runnable) \<and> \<not> needs_approval env sess tc)"

lemma preflight_classified:
  assumes "preflight env sess idx calls = (pf, ap)"
  shows "list_all2 (classified env sess) (take (length pf) calls) pf \<and>
    (case ap of
       None \<Rightarrow> length pf = length calls
     | Some (k, tc) \<Rightarrow> k = idx + length pf \<and> length pf < length calls \<and>
         run_hook env (calls ! length pf) = Inr tc \<and> needs_approval env sess tc)"
  using assms
proof (induction calls arbitrary: idx pf ap)
  case (Cons c calls)
  obtain pf1 ap1 where rec: "preflight env sess (idx + 1) calls = (pf1, ap1)" by fastforce
  note IH = Cons.IH [OF rec]
  show ?case
  proof (cases "run_hook env c")
    case (Inl msg)
    then have "pf = (c, Rejected msg) # pf1" "ap = ap1" using Cons.prems rec by auto
    then show ?thesis using IH Inl by (auto simp: classified_def split: option.splits)
  next
    case (Inr tc)
    show ?thesis
    proof (cases "needs_approval env sess tc")
      case True
      then show ?thesis using Cons.prems Inr by auto
    next
      case False
      then have "pf = (tc, Runnable) # pf1" "ap = ap1" using Cons.prems rec Inr by auto
      then show ?thesis using IH Inr False by (auto simp: classified_def split: option.splits)
    qed
  qed
qed simp

lemma run_hook_keeps_id: "run_hook env c = Inr tc \<Longrightarrow> tc_id tc = tc_id c \<and> tc_name tc = tc_name c"
  by (auto simp: run_hook_def split: sum.splits HookError.splits HookOutcome.splits option.splits)

lemma classified_keeps_id: "classified env sess c (tc, out) \<Longrightarrow> tc_id tc = tc_id c"
  by (auto simp: classified_def run_hook_keeps_id split: sum.splits)

lemma preflight_ids:
  assumes "preflight env sess idx calls = (pf, ap)"
  shows "map (tc_id \<circ> fst) pf = map tc_id (take (length pf) calls)"
proof -
  have "list_all2 (classified env sess) (take (length pf) calls) pf"
    using preflight_classified [OF assms] by blast
  then show ?thesis
    by (induction rule: list_all2_induct) (auto dest: classified_keeps_id)
qed

lemma runnable_in: "(i, tc) \<in> set (runnable pf) \<Longrightarrow> i < length pf \<and> pf ! i = (tc, Runnable)"
  by (auto simp: runnable_def in_set_enumerate_eq)

text \<open>A call as a hook left it that may be executed without asking.\<close>

definition may_run :: "'w ChatEnv \<Rightarrow> Session \<Rightarrow> ToolCall list \<Rightarrow> ToolCall \<Rightarrow> bool" where
  "may_run env sess calls tc = (\<exists>c \<in> set calls. run_hook env c = Inr tc \<and> \<not> needs_approval env sess tc)"

lemma runnable_may_run:
  assumes "preflight env sess idx calls = (pf, ap)" and "(i, tc) \<in> set (runnable pf)"
  shows "may_run env sess calls tc"
proof -
  have i: "i < length pf" "pf ! i = (tc, Runnable)" using runnable_in [OF assms(2)] by auto
  have "list_all2 (classified env sess) (take (length pf) calls) pf" and len: "length pf \<le> length calls"
    using preflight_classified [OF assms(1)] by (auto split: option.splits)
  then have "classified env sess (calls ! i) (tc, Runnable)" using i list_all2_nthD2 by fastforce
  moreover have "calls ! i \<in> set calls" using i len by simp
  ultimately show ?thesis by (auto simp: may_run_def classified_def split: sum.splits)
qed

lemma execute_phase_cong:
  assumes one: "\<And>tc w. P tc \<Longrightarrow> run' tc w = ev_run_tool env tc w"
    and many: "\<And>b w. (\<And>i tc. (i, tc) \<in> set b \<Longrightarrow> P tc) \<Longrightarrow> join' b w = ev_join env b w"
    and pf: "\<And>i tc. (i, tc) \<in> set (runnable pf) \<Longrightarrow> P tc"
  shows "execute_phase (env\<lparr>ev_run_tool := run', ev_join := join'\<rparr>) pf w = execute_phase env pf w"
proof (cases "runnable pf")
  case Nil
  then show ?thesis by (simp add: execute_phase_def)
next
  case (Cons p ps)
  obtain i tc where p: "p = (i, tc)" by (cases p)
  have "P tc" using pf [of i tc] Cons p by simp
  moreover have "join' (runnable pf) w = ev_join env (runnable pf) w" by (rule many) (rule pf)
  ultimately show ?thesis using Cons p one by (cases ps) (simp_all add: execute_phase_def)
qed

lemma run_hook_cong [simp]: "run_hook (env\<lparr>ev_run_tool := r, ev_join := j\<rparr>) = run_hook env"
  by (intro ext) (simp add: run_hook_def tool_sensitive_def
      split: sum.split HookError.split HookOutcome.split option.split)

lemma needs_approval_cong [simp]: "needs_approval (env\<lparr>ev_run_tool := r, ev_join := j\<rparr>) = needs_approval env"
  by (intro ext) (simp add: needs_approval_def)

lemma preflight_cong [simp]: "preflight (env\<lparr>ev_run_tool := r, ev_join := j\<rparr>) sess idx calls = preflight env sess idx calls"
  by (induction calls arbitrary: idx) (simp_all split: sum.split)

lemma needs_approval_on_turn [simp]: "needs_approval env (cs_session (on_turn tid f cs)) = needs_approval env (cs_session cs)"
  by (intro ext) (simp add: needs_approval_def on_turn_def update_thread_def is_tool_auto_approved_def
      split: option.split ApprovalRequirement.split)

lemma may_run_on_turn [simp]: "may_run env (cs_session (on_turn tid f cs)) = may_run env (cs_session cs)"
  by (intro ext) (simp add: may_run_def)

lemma check_auth_cong [simp]: "check_auth_required (env\<lparr>ev_run_tool := r, ev_join := j\<rparr>) = check_auth_required env"
  by (intro ext) (simp add: check_auth_required_def split: sum.split)

lemma result_text_cong [simp]: "result_text (env\<lparr>ev_run_tool := r, ev_join := j\<rparr>) = result_text env"
  by (intro ext) (simp add: result_text_def split: sum.split)

lemma post_call_cong: "post_call (env\<lparr>ev_run_tool := r, ev_join := j\<rparr>) = post_call env"
  by (intro ext) (unfold post_call_def check_auth_cong result_text_cong, rule refl)

lemma record_calls_cong: "record_calls (env\<lparr>ev_run_tool := r, ev_join := j\<rparr>) = record_calls env"
  by (intro ext) (simp add: record_calls_def)

lemma approval_request_cong: "approval_request (env\<lparr>ev_run_tool := r, ev_join := j\<rparr>) = approval_request env"
  by (intro ext) (simp add: approval_request_def tool_sensitive_def split: prod.split)

subsection \<open>What a round of tool calls leaves behind\<close>

lemma post_call_message:
  assumes "post_call env now tid slots (i, tc, out) (auth, rc, cs) = (auth', rc', cs')"
  shows "\<exists>t. rx_messages rc' = rx_messages rc @ [cm_tool_result (tc_id tc) (tc_name tc) t]"
  using assms by (cases out) (auto simp: post_call_def Let_def split: prod.splits)

lemma cm_tool_result_id [simp]: "cm_tool_call_id (cm_tool_result i n t) = Some i"
  by (simp add: cm_tool_result_def)

lemma post_fold_messages:
  assumes "fold (post_call env now tid slots) items (auth, rc, cs) = (auth', rc', cs')"
  shows "\<exists>results. rx_messages rc' = rx_messages rc @ results \<and>
    map cm_tool_call_id results = map (\<lambda>(_, tc, _). Some (tc_id tc)) items \<and> (\<forall>m \<in> set results. cm_role m = Tool)"
  using assms
proof (induction items arbitrary: auth rc cs)
  case Nil
  then show ?case by simp
next
  case (Cons item items)
  obtain i tc out where item: "item = (i, tc, out)" by (cases item)
  obtain auth1 rc1 cs1 where p: "post_call env now tid slots item (auth, rc, cs) = (auth1, rc1, cs1)" using prod_cases3 by blast
  obtain t where t: "rx_messages rc1 = rx_messages rc @ [cm_tool_result (tc_id tc) (tc_name tc) t]"
    using post_call_message [OF p [unfolded item]] by blast
  have "fold (post_call env now tid slots) items (auth1, rc1, cs1) = (auth', rc', cs')" using Cons.prems p by simp
  from Cons.IH [OF this] obtain results where
    "rx_messages rc' = rx_messages rc1 @ results" "map cm_tool_call_id results = map (\<lambda>(_, tc, _). Some (tc_id tc)) items"
    "\<forall>m \<in> set results. cm_role m = Tool" by blast
  then show ?case using t item
    by (intro exI [of _ "cm_tool_result (tc_id tc) (tc_name tc) t # results"]) simp
qed

text \<open>The handler, with its intermediate results named.\<close>

lemma chat_execute_unfold:
  assumes "chat_execute_tool_calls env now new_id tz tid calls content (rc, cs) = (r, rc', cs')"
  obtains pf ap slots w auth where
    "preflight env (cs_session (on_turn tid (record_calls env calls) cs)) 0 calls = (pf, ap)"
    "execute_phase env pf (cs_world cs) = (slots, w)"
    "fold (post_call env now tid slots) (enumerate 0 pf)
       (None, rc\<lparr>rx_messages := rx_messages rc @ [cm_assistant_with_tool_calls content calls]\<rparr>,
        (on_turn tid (record_calls env calls) cs)\<lparr>cs_world := w\<rparr>) = (auth, rc', cs')"
    "r = Inr (case auth of Some i \<Rightarrow> Some (OutResponse i)
       | None \<Rightarrow> map_option (\<lambda>a. OutNeedApproval (approval_request env new_id tz calls (rx_messages rc') a)) ap)"
proof -
  let ?cs = "on_turn tid (record_calls env calls) cs"
  have world: "cs_world ?cs = cs_world cs" by (simp add: on_turn_def)
  obtain pf ap where pf: "preflight env (cs_session ?cs) 0 calls = (pf, ap)" by fastforce
  obtain slots w where ex: "execute_phase env pf (cs_world cs) = (slots, w)" by fastforce
  obtain auth rc2 cs2 where post: "fold (post_call env now tid slots) (enumerate 0 pf)
       (None, rc\<lparr>rx_messages := rx_messages rc @ [cm_assistant_with_tool_calls content calls]\<rparr>, ?cs\<lparr>cs_world := w\<rparr>) = (auth, rc2, cs2)"
    using prod_cases3 by blast
  note run = assms [unfolded chat_execute_tool_calls_def Let_def push_message_simps prod.case world pf ex post]
  have eq: "rc2 = rc'" "cs2 = cs'" using run by (auto split: option.splits)
  from run have "r = Inr (case auth of Some i \<Rightarrow> Some (OutResponse i)
       | None \<Rightarrow> map_option (\<lambda>a. OutNeedApproval (approval_request env new_id tz calls (rx_messages rc') a)) ap)"
    by (auto simp: eq split: option.splits)
  with that [OF pf ex post [unfolded eq]] show thesis .
qed

lemma enumerate_ids: "map (\<lambda>(_, tc, _). Some (tc_id tc)) (enumerate n pf) = map (Some \<circ> tc_id \<circ> fst) pf"
  by (induction pf arbitrary: n) auto

lemma chat_execute_answers:
  assumes "chat_execute_tool_calls env now new_id tz tid calls content (rc, cs) = (r, rc', cs')"
  shows "\<exists>results k. rx_messages rc' = rx_messages rc @ cm_assistant_with_tool_calls content calls # results \<and>
    (\<forall>m \<in> set results. cm_role m = Tool) \<and>
    map cm_tool_call_id results = map (Some \<circ> tc_id) (take k calls) \<and> k \<le> length calls \<and>
    (r = Inr None \<longrightarrow> k = length calls) \<and>
    (\<forall>p. r = Inr (Some (OutNeedApproval p)) \<longrightarrow> k < length calls \<and> pa_tool_call_id p = tc_id (calls ! k) \<and>
       pa_deferred_tool_calls p = drop (k + 1) calls \<and> pa_context_messages p = rx_messages rc') \<and>
    (r = Inr None \<or> (\<exists>p. r = Inr (Some (OutNeedApproval p))) \<or> (\<exists>t. r = Inr (Some (OutResponse t))))"
proof -
  obtain pf ap slots w auth where
    pf: "preflight env (cs_session (on_turn tid (record_calls env calls) cs)) 0 calls = (pf, ap)" and
    "execute_phase env pf (cs_world cs) = (slots, w)" and
    post: "fold (post_call env now tid slots) (enumerate 0 pf)
       (None, rc\<lparr>rx_messages := rx_messages rc @ [cm_assistant_with_tool_calls content calls]\<rparr>,
        (on_turn tid (record_calls env calls) cs)\<lparr>cs_world := w\<rparr>) = (auth, rc', cs')" and
    r: "r = Inr (case auth of Some i \<Rightarrow> Some (OutResponse i)
       | None \<Rightarrow> map_option (\<lambda>a. OutNeedApproval (approval_request env new_id tz calls (rx_messages rc') a)) ap)"
    by (rule chat_execute_unfold [OF assms])
  from post_fold_messages [OF post] obtain results where res:
    "rx_messages rc' = rx_messages rc @ cm_assistant_with_tool_calls content calls # results"
    "map cm_tool_call_id results = map (Some \<circ> tc_id \<circ> fst) pf" "\<forall>m \<in> set results. cm_role m = Tool"
    by (auto simp: enumerate_ids)
  have "map (Some \<circ> tc_id \<circ> fst) pf = map (Some \<circ> tc_id) (take (length pf) calls)"
    using arg_cong [OF preflight_ids [OF pf], of "map Some"] by (simp add: comp_assoc)
  with res have ids: "map cm_tool_call_id results = map (Some \<circ> tc_id) (take (length pf) calls)" by simp
  note cl = preflight_classified [OF pf]
  have le: "length pf \<le> length calls" using cl by (auto split: option.splits)
  show ?thesis
  proof (intro exI [of _ results] exI [of _ "length pf"] conjI)
    show "r = Inr None \<longrightarrow> length pf = length calls" using r cl by (auto split: option.splits)
    show "\<forall>p. r = Inr (Some (OutNeedApproval p)) \<longrightarrow> length pf < length calls \<and>
        pa_tool_call_id p = tc_id (calls ! length pf) \<and> pa_deferred_tool_calls p = drop (length pf + 1) calls \<and>
        pa_context_messages p = rx_messages rc'"
    proof (intro allI impI)
      fix p assume "r = Inr (Some (OutNeedApproval p))"
      then obtain tc where "ap = Some (length pf, tc)" "length pf < length calls" "run_hook env (calls ! length pf) = Inr tc"
        and "p = approval_request env new_id tz calls (rx_messages rc') (length pf, tc)"
        using r cl by (auto split: option.splits)
      then show "length pf < length calls \<and> pa_tool_call_id p = tc_id (calls ! length pf) \<and>
          pa_deferred_tool_calls p = drop (length pf + 1) calls \<and> pa_context_messages p = rx_messages rc'"
        using run_hook_keeps_id [of env "calls ! length pf" tc] by (simp add: approval_request_def)
    qed
    show "r = Inr None \<or> (\<exists>p. r = Inr (Some (OutNeedApproval p))) \<or> (\<exists>t. r = Inr (Some (OutResponse t)))"
      using r by (cases auth; cases ap) auto
  qed (use res ids le in auto)
qed

text \<open>
  Property C14. Every call of a round of tool calls is answered by exactly one tool result, in the
  order of the calls, unless the round stops for approval or authentication; then the calls before
  the stop are answered. When it stops for approval, the request names the first unanswered call,
  carries the context so far and defers exactly the calls after it: no call is lost.
\<close>

theorem tool_calls_answered:
  assumes "chat_execute_tool_calls env now new_id tz tid calls content (rc, cs) = (r, rc', cs')"
  shows "\<exists>results k. rx_messages rc' = rx_messages rc @ cm_assistant_with_tool_calls content calls # results \<and>
    (\<forall>m \<in> set results. cm_role m = Tool) \<and>
    map cm_tool_call_id results = map (Some \<circ> tc_id) (take k calls) \<and> k \<le> length calls \<and>
    (r = Inr None \<longrightarrow> k = length calls) \<and>
    (\<forall>p. r = Inr (Some (OutNeedApproval p)) \<longrightarrow> k < length calls \<and> pa_tool_call_id p = tc_id (calls ! k) \<and>
       pa_deferred_tool_calls p = drop (k + 1) calls \<and> pa_context_messages p = rx_messages rc')"
  using chat_execute_answers [OF assms] by blast

definition demo_env :: "nat ChatEnv" where
  "demo_env =
     \<lparr>ev_tools = (\<lambda>n. if n = ''shell'' then Some \<lparr>ti_sensitive_params = [''token''], ti_description = ''run'',
                                              ti_requires_approval = (\<lambda>_. Always)\<rparr> else None),
      ev_tool_definitions = (\<lambda>_. []), ev_hook = (\<lambda>_ _. Inr (HookContinue None)), ev_from_str = (\<lambda>_. None),
      ev_show_timeout = (\<lambda>_. []), ev_auto_approve_tools = False, ev_run_tool = (\<lambda>tc w. (Inr ''done'', w + 1)),
      ev_join = (\<lambda>b w. (map (\<lambda>(i, tc). (i, Inr ''done'')) b, w + length b)), ev_sanitize = (\<lambda>_ s. (s, False)),
      ev_wrap = (\<lambda>_ s _. s), ev_interfere = (\<lambda>s w. (s, w))\<rparr>"

definition demo_calls :: "ToolCall list" where
  "demo_calls = [\<lparr>tc_id = ''a'', tc_name = ''echo'', tc_arguments = JNull\<rparr>,
     \<lparr>tc_id = ''b'', tc_name = ''echo'', tc_arguments = JNull\<rparr>,
     \<lparr>tc_id = ''c'', tc_name = ''shell'', tc_arguments = JNull\<rparr>]"

definition demo_chat :: "(int, nat) ChatState" where
  "demo_chat =
     \<lparr>cs_session = (session_new 1 0 ''u'')\<lparr>se_threads := [(4, start_turn 0 ''go'' (thread_with_id 0 4 1))]\<rparr>,
      cs_stash = [], cs_guard = cost_guard_new 0 \<lparr>gc_max_cost_per_day_cents = None, gc_max_actions_per_hour = None\<rparr>,
      cs_world = 0\<rparr>"

abbreviation demo_round :: "(unit + LoopOutcome option) \<times> ReasoningContext \<times> (int, nat) ChatState" where
  "demo_round \<equiv> chat_execute_tool_calls demo_env 0 9 ''UTC'' 4 demo_calls None (reasoning_context_new, demo_chat)"

theorem tool_calls_answered_witness:
  "\<exists>results k. rx_messages (fst (snd demo_round)) = cm_assistant_with_tool_calls None demo_calls # results \<and>
     map cm_tool_call_id results = map (Some \<circ> tc_id) (take k demo_calls) \<and> k \<le> 3"
proof -
  obtain r rc' cs' where run: "demo_round = (r, rc', cs')" using prod_cases3 by blast
  have start: "rx_messages reasoning_context_new = []" "length demo_calls = 3"
    by (simp_all add: reasoning_context_new_def demo_calls_def)
  from tool_calls_answered [OF run] show ?thesis
    unfolding run start fst_conv snd_conv append_Nil by blast
qed

lemma execution_confined:
  assumes "\<And>tc w. may_run env (cs_session cs) calls tc \<Longrightarrow> run' tc w = ev_run_tool env tc w"
    and "\<And>batch w. (\<And>i tc. (i, tc) \<in> set batch \<Longrightarrow> may_run env (cs_session cs) calls tc) \<Longrightarrow>
      join' batch w = ev_join env batch w"
  shows "chat_execute_tool_calls (env\<lparr>ev_run_tool := run', ev_join := join'\<rparr>) now new_id tz tid calls content (rc, cs) =
    chat_execute_tool_calls env now new_id tz tid calls content (rc, cs)"
proof -
  let ?env = "env\<lparr>ev_run_tool := run', ev_join := join'\<rparr>"
  let ?cs = "on_turn tid (record_calls env calls) cs"
  obtain pf ap where pf: "preflight env (cs_session ?cs) 0 calls = (pf, ap)" by fastforce
  have "execute_phase ?env pf w = execute_phase env pf w" for w
    by (rule execute_phase_cong [where P = "may_run env (cs_session cs) calls", OF assms])
       (use runnable_may_run [OF pf] in simp_all)
  then show ?thesis
    unfolding chat_execute_tool_calls_def preflight_cong record_calls_cong post_call_cong approval_request_cong
    by (simp add: Let_def pf split: prod.split)
qed

text \<open>
  Property C2. A tool call that needs approval is never executed: what a round of tool calls does
  depends on the execution of tools only through calls that were made, that the hooks let through
  (with the arguments the hooks left) and that need no approval in this session.
\<close>

theorem unapproved_never_executed:
  assumes "\<And>tc w. may_run env (cs_session cs) calls tc \<Longrightarrow> run' tc w = ev_run_tool env tc w"
    and "\<And>batch w. (\<And>i tc. (i, tc) \<in> set batch \<Longrightarrow> may_run env (cs_session cs) calls tc) \<Longrightarrow>
      join' batch w = ev_join env batch w"
  shows "chat_execute_tool_calls (env\<lparr>ev_run_tool := run', ev_join := join'\<rparr>) now new_id tz tid calls content (rc, cs) =
    chat_execute_tool_calls env now new_id tz tid calls content (rc, cs)"
  using assms by (rule execution_confined)

theorem unapproved_never_executed_witness:
  "chat_execute_tool_calls
     (demo_env\<lparr>ev_run_tool := (\<lambda>tc w. if tc_name tc = ''shell'' then (Inr ''wiped'', 99) else ev_run_tool demo_env tc w),
       ev_join := ev_join demo_env\<rparr>) 0 9 ''UTC'' 4 demo_calls None (reasoning_context_new, demo_chat) = demo_round"
proof (rule unapproved_never_executed)
  fix tc w assume "may_run demo_env (cs_session demo_chat) demo_calls tc"
  then have "tc_name tc \<noteq> ''shell''"
    by (auto simp: may_run_def demo_calls_def run_hook_def demo_env_def needs_approval_def)
  then show "(if tc_name tc = ''shell'' then (Inr ''wiped'', 99) else ev_run_tool demo_env tc w) = ev_run_tool demo_env tc w"
    by simp
qed simp

subsection \<open>What the turn records\<close>

text \<open>The tool calls recorded in the last turn of a thread.\<close>

definition turn_calls :: "uuid \<Rightarrow> ('d, 'w) ChatState \<Rightarrow> TurnToolCall list option" where
  "turn_calls tid cs =
     Option.bind (map_of (se_threads (cs_session cs)) tid) (\<lambda>th. map_option tu_tool_calls (last_turn th))"

lemma turn_calls_world [simp]:
  "turn_calls tid (cs\<lparr>cs_world := w\<rparr>) = turn_calls tid cs" "turn_calls tid (cs\<lparr>cs_stash := s\<rparr>) = turn_calls tid cs"
  by (simp_all add: turn_calls_def)

lemma turn_calls_on_turn: "turn_calls tid (on_turn tid f cs) =
    Option.bind (map_of (se_threads (cs_session cs)) tid) (\<lambda>th. map_option (\<lambda>t. tu_tool_calls (f t)) (last_turn th))"
  by (auto simp: turn_calls_def on_turn_def update_thread_def update_last_turn_def last_turn_def map_last_def update_conv'
      split: option.split)

lemma turn_calls_auth [simp]:
  "turn_calls tid (cs\<lparr>cs_session := update_thread tid (enter_auth_mode now x) (cs_session cs)\<rparr>) = turn_calls tid cs"
  by (auto simp: turn_calls_def update_thread_def enter_auth_mode_def last_turn_def update_conv' split: option.split)

lemma turn_calls_record_last:
  assumes "turn_calls tid cs = Some xs"
  shows "\<exists>ys. turn_calls tid (on_turn tid (record_tool_error e) cs) = Some ys \<and> butlast ys = butlast xs"
    and "\<exists>ys. turn_calls tid (on_turn tid (record_tool_result v) cs) = Some ys \<and> butlast ys = butlast xs"
proof -
  obtain th t where "map_of (se_threads (cs_session cs)) tid = Some th" "last_turn th = Some t" "xs = tu_tool_calls t"
    using assms by (auto simp: turn_calls_def bind_eq_Some_conv)
  then show "\<exists>ys. turn_calls tid (on_turn tid (record_tool_error e) cs) = Some ys \<and> butlast ys = butlast xs"
    and "\<exists>ys. turn_calls tid (on_turn tid (record_tool_result v) cs) = Some ys \<and> butlast ys = butlast xs"
    by (auto simp: turn_calls_on_turn record_tool_error_def record_tool_result_def map_last_def)
qed

lemma post_call_turn:
  assumes "post_call env now tid slots (i, tc, out) (auth, rc, cs) = (auth', rc', cs')" and "turn_calls tid cs = Some xs"
  shows "\<exists>ys. turn_calls tid cs' = Some ys \<and> butlast ys = butlast xs"
proof (cases out)
  case (Rejected msg)
  then have "cs' = on_turn tid (record_tool_error msg) cs" using assms(1) by (simp add: post_call_def)
  then show ?thesis using turn_calls_record_last(1) [OF assms(2)] by simp
next
  case Runnable
  define res where "res = (case slots ! i of Some r \<Rightarrow> r | None \<Rightarrow> Inl (tool_failed (tc_name tc) ''No result available''))"
  obtain auth1 cs1 where mid: "(case auth of Some a \<Rightarrow> (Some a, cs)
      | None \<Rightarrow> (case check_auth_required env (tc_name tc) res of None \<Rightarrow> (None, cs)
          | Some (ext_name, instructions) \<Rightarrow> (Some instructions,
              cs\<lparr>cs_session := update_thread tid (enter_auth_mode now ext_name) (cs_session cs)\<rparr>))) = (auth1, cs1)"
    by fastforce
  have same: "turn_calls tid cs1 = Some xs" using mid assms(2) by (auto split: option.splits)
  from assms(1) have "cs' = on_turn tid (case res of Inl _ \<Rightarrow> record_tool_error (result_text env tc res)
        | Inr _ \<Rightarrow> record_tool_result (JString (result_text env tc res)))
      (case res of Inr output \<Rightarrow> cs1\<lparr>cs_stash := AList.update (tc_id tc) output (cs_stash cs1)\<rparr> | Inl _ \<Rightarrow> cs1)"
    unfolding post_call_def prod.case Runnable PreflightOutcome.case Let_def res_def [symmetric] mid by simp
  then show ?thesis
    using turn_calls_record_last(1) [OF same] turn_calls_record_last(2) [of tid "cs1\<lparr>cs_stash := _\<rparr>"] same by (cases res) simp_all
qed

lemma post_fold_turn:
  assumes "fold (post_call env now tid slots) items (auth, rc, cs) = (auth', rc', cs')" and "turn_calls tid cs = Some xs"
  shows "\<exists>ys. turn_calls tid cs' = Some ys \<and> butlast ys = butlast xs"
  using assms
proof (induction items arbitrary: auth rc cs xs)
  case (Cons item items)
  obtain i tc out where item: "item = (i, tc, out)" by (cases item)
  obtain auth1 rc1 cs1 where p: "post_call env now tid slots item (auth, rc, cs) = (auth1, rc1, cs1)" using prod_cases3 by blast
  obtain zs where "turn_calls tid cs1 = Some zs" "butlast zs = butlast xs"
    using post_call_turn [OF p [unfolded item] Cons.prems(2)] by blast
  then show ?case using Cons.IH [of auth1 rc1 cs1 zs] Cons.prems(1) p by auto
qed simp

lemma record_calls_calls:
  "tu_tool_calls (record_calls env calls t) = tu_tool_calls t @ map (\<lambda>tc.
     \<lparr>tt_name = tc_name tc, tt_parameters = (case ev_tools env (tc_name tc) of
        Some tool \<Rightarrow> redact_params (tc_arguments tc) (ti_sensitive_params tool) | None \<Rightarrow> tc_arguments tc),
      tt_result = None, tt_error = None\<rparr>) calls"
  by (induction calls arbitrary: t) (auto simp: record_calls_def record_tool_call_def)

text \<open>
  Also: When the model makes several tool calls at once, the turn of the thread records a
  result or an error only for the last of them: the others are answered in the context of this
  turn, but stand in the thread without any result.
\<close>

theorem results_recorded_on_last_call:
  assumes "chat_execute_tool_calls env now new_id tz tid calls content (rc, cs) = (r, rc', cs')"
    and "turn_calls tid cs = Some old" and "calls \<noteq> []"
  shows "\<exists>new. turn_calls tid cs' = Some (old @ new) \<and> map tt_name (butlast new) = map tc_name (butlast calls) \<and>
    (\<forall>k < length new - 1. tt_result (new ! k) = None \<and> tt_error (new ! k) = None)"
proof -
  obtain pf ap slots w auth where
    post: "fold (post_call env now tid slots) (enumerate 0 pf)
       (None, rc\<lparr>rx_messages := rx_messages rc @ [cm_assistant_with_tool_calls content calls]\<rparr>,
        (on_turn tid (record_calls env calls) cs)\<lparr>cs_world := w\<rparr>) = (auth, rc', cs')"
    by (rule chat_execute_unfold [OF assms(1)])
  define fresh where "fresh tc = \<lparr>tt_name = tc_name tc, tt_parameters = (case ev_tools env (tc_name tc) of
        Some tool \<Rightarrow> redact_params (tc_arguments tc) (ti_sensitive_params tool) | None \<Rightarrow> tc_arguments tc),
      tt_result = None, tt_error = None\<rparr>" for tc :: ToolCall
  have "turn_calls tid ((on_turn tid (record_calls env calls) cs)\<lparr>cs_world := w\<rparr>) = Some (old @ map fresh calls)"
    unfolding turn_calls_world turn_calls_on_turn
    using assms(2) by (auto simp: turn_calls_def bind_eq_Some_conv record_calls_calls fresh_def)
  from post_fold_turn [OF post this] assms(3) obtain ys where
    ys: "turn_calls tid cs' = Some ys" "butlast ys = old @ map fresh (butlast calls)"
    by (auto simp: butlast_append map_butlast)
  show ?thesis
  proof (cases "ys = []")
    case True
    then have "old = []" "butlast calls = []" using ys(2) by auto
    then show ?thesis using ys(1) True by auto
  next
    case False
    then have "ys = old @ (map fresh (butlast calls) @ [last ys])" using ys(2) append_butlast_last_id [OF False] by simp
    then show ?thesis using ys(1)
      by (intro exI [of _ "map fresh (butlast calls) @ [last ys]"]) (auto simp: fresh_def nth_append comp_def)
  qed
qed

theorem results_recorded_on_last_call_witness:
  "\<exists>new. turn_calls 4 (snd (snd demo_round)) = Some new \<and> map tt_name (butlast new) = [''echo'', ''echo''] \<and>
     tt_result (new ! 0) = None \<and> tt_error (new ! 0) = None"
proof -
  obtain r rc' cs' where run: "demo_round = (r, rc', cs')" using prod_cases3 by blast
  have start: "turn_calls 4 demo_chat = Some []" "demo_calls \<noteq> []" "map tc_name (butlast demo_calls) = [''echo'', ''echo'']"
    by (simp_all add: turn_calls_def demo_chat_def demo_calls_def session_new_def last_turn_def start_turn_def
        thread_with_id_def turn_new_def)
  from results_recorded_on_last_call [OF run start(1,2)] obtain new where
    new: "turn_calls 4 cs' = Some new" "map tt_name (butlast new) = [''echo'', ''echo'']"
    "\<And>k. k < length new - 1 \<Longrightarrow> tt_result (new ! k) = None \<and> tt_error (new ! k) = None"
    unfolding start(3) by auto
  have "length (butlast new) = 2" using arg_cong [OF new(2), of length] by simp
  then have "0 < length new - 1" by simp
  from new(3) [OF this] new(1,2) run show ?thesis by simp
qed

subsection \<open>The loop in a chat\<close>

definition chat_inv :: "ReasoningContext \<times> ('d, 'w) ChatState \<Rightarrow> bool" where
  "chat_inv st = protocol_ok (rx_messages (fst st))"

definition chat_outcome_ok :: "LoopOutcome \<Rightarrow> bool" where
  "chat_outcome_ok out =
     (case out of OutMaxIterations \<Rightarrow> False | OutNeedApproval p \<Rightarrow> protocol_ok (pa_context_messages p) | _ \<Rightarrow> True)"

lemma chat_execute_protocol:
  assumes "protocol_ok (rx_messages rc)"
    and run: "chat_execute_tool_calls env now new_id tz tid calls content (rc, cs) = (r, rc', cs')"
  shows "protocol_ok (rx_messages rc')"
proof -
  from chat_execute_answers [OF run] obtain results k where
    m: "rx_messages rc' = rx_messages rc @ cm_assistant_with_tool_calls content calls # results"
    "\<forall>m \<in> set results. cm_role m = Tool" "map cm_tool_call_id results = map (Some \<circ> tc_id) (take k calls)" by blast
  let ?a = "cm_assistant_with_tool_calls content calls"
  have mc: "message_calls ?a = map tc_id calls" by (simp add: message_calls_def cm_assistant_with_tool_calls_def)
  have "\<exists>i \<in> set (message_calls ?a). cm_tool_call_id m = Some i" if "m \<in> set results" for m
  proof -
    have "cm_tool_call_id m \<in> set (map (Some \<circ> tc_id) (take k calls))" using m(3) that by (metis image_eqI list.set_map)
    then show ?thesis using mc by (auto dest: in_set_takeD)
  qed
  then have "tool_blocks (message_calls ?a) results" using m(2) tool_blocks_results by blast
  then show ?thesis using assms(1) m(1) by (simp add: tool_blocks_append)
qed

lemma respond_or_compact_protocol:
  "protocol_ok (rx_messages rc) \<Longrightarrow> respond_or_compact re rc w = (r, rc', w') \<Longrightarrow> protocol_ok (rx_messages rc')"
  by (auto simp: respond_or_compact_def Let_def protocol_ok_compact split: prod.splits sum.splits LlmError.splits if_splits)

lemma chat_call_protocol:
  assumes "chat_inv st" and "chat_call_llm pr re st = (r, st')"
  shows "chat_inv st'"
proof -
  obtain rc cs where st: "st = (rc, cs)" by (cases st)
  obtain a cg where c: "check_allowed (pr_dec pr) (pr_tr pr) (pr_now pr (cs_world cs)) (cs_guard cs) = (a, cg)" by fastforce
  obtain x rc1 w1 where x: "respond_or_compact re rc (cs_world cs) = (x, rc1, w1)" using prod_cases3 by blast
  have "protocol_ok (rx_messages rc1)" using respond_or_compact_protocol [OF _ x] assms(1) st by (simp add: chat_inv_def)
  then show ?thesis using assms st c x
    by (cases a; cases x) (auto simp: chat_call_llm_def chat_inv_def)
qed

lemma chat_tools_protocol:
  assumes inv: "chat_inv st" and run: "chat_execute_tool_calls env now new_id tz tid calls content st = (r, st')"
  shows "chat_inv st'" and "r = Inr (Some out) \<Longrightarrow> chat_outcome_ok out"
proof -
  obtain rc s rc' s' where st: "st = (rc, s)" "st' = (rc', s')" by (cases st; cases st')
  note run' = run [unfolded st]
  have ok: "protocol_ok (rx_messages rc')" using chat_execute_protocol [OF _ run'] inv st by (simp add: chat_inv_def)
  then show "chat_inv st'" by (simp add: chat_inv_def st)
  show "chat_outcome_ok out" if "r = Inr (Some out)"
    using chat_execute_answers [OF run'] that ok by (auto simp: chat_outcome_ok_def split: LoopOutcome.split)
qed

lemma chat_before_protocol:
  assumes "chat_inv st" and "chat_before_llm_call env att p1 p2 m i st = (r, st')"
  shows "chat_inv st' \<and> r = None \<and> (m \<le> i \<longrightarrow> rx_force_text (fst st'))"
  using assms by (cases st) (auto simp: chat_before_llm_call_def chat_inv_def Let_def protocol_ok_push split: if_splits)

lemma chat_signals_cases:
  "chat_check_signals env tid cs = (sig, cs') \<Longrightarrow> sig = SignalContinue \<or> sig = SignalStop"
  by (auto simp: chat_check_signals_def Let_def split: prod.splits option.splits if_splits)

lemma chat_inv_push: "chat_inv st \<Longrightarrow> cm_role m \<noteq> Tool \<Longrightarrow> chat_inv (push_message m st)"
  by (cases st) (simp add: chat_inv_def protocol_ok_push)

lemma chat_inv_state: "chat_inv (rc, s) \<Longrightarrow> chat_inv (rc, s')"
  by (simp add: chat_inv_def)

lemma chat_outcome_ok_simps [simp]:
  "chat_outcome_ok (OutResponse t)" "chat_outcome_ok OutStopped" "\<not> chat_outcome_ok OutMaxIterations"
  by (simp_all add: chat_outcome_ok_def)

interpretation chat: loop_delegate "chat_delegate env pr ct re" chat_inv chat_outcome_ok
  by (unfold_locales, unfold chat_delegate_def LoopDelegate.simps)
     (auto dest: chat_before_protocol chat_signals_cases intro: chat_inv_push chat_call_protocol chat_tools_protocol
        elim: chat_inv_state simp: chat_inv_push simp del: push_message_simps)

text \<open>For the end of the loop no invariant is needed.\<close>

lemma chat_execute_not_exhausted:
  "chat_execute_tool_calls env now new_id tz tid calls content st = (Inr (Some out), st') \<Longrightarrow> out \<noteq> OutMaxIterations"
  by (cases st; cases st') (auto dest: chat_execute_answers)

lemma chat_before_forces:
  assumes "chat_before_llm_call env att p1 p2 m i st = (r, st')"
  shows "r = None \<and> (m \<le> i \<longrightarrow> rx_force_text (fst st'))"
  using assms by (cases st) (auto simp: chat_before_llm_call_def Let_def split: if_splits)

interpretation chat_any: loop_delegate "chat_delegate env pr ct re" "\<lambda>_. True" "\<lambda>out. out \<noteq> OutMaxIterations"
  by (unfold_locales, unfold chat_delegate_def LoopDelegate.simps)
     (auto dest: chat_before_forces chat_execute_not_exhausted)

lemma respond_or_compact_forced:
  assumes "rx_force_text rc" and "respond_or_compact re rc w = (r, rc', w')"
  shows "rx_force_text rc' \<and> (\<forall>out. r = Inr out \<longrightarrow> (\<exists>t. ro_result out = TextResult t))"
proof (cases "\<exists>u l w1. respond_with_tools re rc w = (Inl (ContextLengthExceeded u l), w1)")
  case True
  then obtain u l w1 where first: "respond_with_tools re rc w = (Inl (ContextLengthExceeded u l), w1)" by blast
  let ?rc = "rc\<lparr>rx_messages := compact_messages_for_retry (rx_messages rc), rx_available_tools := []\<rparr>"
  have "respond_with_tools re ?rc w1 = (r, w')" "rc' = ?rc"
    using assms first by (auto simp: respond_or_compact_def Let_def split: prod.splits)
  then show ?thesis using respond_forced_text [of ?rc re w1 _ w'] assms(1) by auto
next
  case False
  then have "respond_with_tools re rc w = (r, w')" "rc' = rc"
    using assms(2) by (auto simp: respond_or_compact_def split: prod.splits sum.splits LlmError.splits)
  then show ?thesis using respond_forced_text [of rc re w _ w'] assms(1) by auto
qed

lemma chat_call_forced_text:
  assumes "rx_force_text (fst st)" and "chat_call_llm pr re st = (Inr out, st')"
  shows "(\<exists>t. ro_result out = TextResult t) \<and> rx_force_text (fst st')"
proof -
  obtain rc cs where st: "st = (rc, cs)" by (cases st)
  obtain x rc1 w1 where x: "respond_or_compact re rc (cs_world cs) = (x, rc1, w1)" using prod_cases3 by blast
  have "x = Inr out" "fst st' = rc1" using assms(2) x by (auto simp: st chat_call_llm_def split: prod.splits sum.splits)
  then show ?thesis using respond_or_compact_forced [OF _ x] assms(1) st by auto
qed

lemma chat_forced_iteration_ends:
  assumes "ct_max_tool_iterations ct \<le> i"
  shows "\<exists>r st'. loop_iteration (chat_delegate env pr ct re) config i n st = (Finish r, st')"
proof -
  let ?d = "chat_delegate env pr ct re"
  obtain r1 st1 where t: "take_signal ?d st = (r1, st1)" by (cases "take_signal ?d st") blast
  obtain r2 st2 where b: "ld_before_llm_call ?d i st1 = (r2, st2)" by (cases "ld_before_llm_call ?d i st1") blast
  have b2: "r2 = None" "rx_force_text (fst st2)"
    using chat_before_forces [of env "ct_attenuate ct" "ct_prompt ct" "ct_prompt_no_tools ct" "ct_max_tool_iterations ct" i st1 r2 st2]
      b assms by (simp_all add: chat_delegate_def)
  obtain r3 st3 where c: "ld_call_llm ?d i st2 = (r3, st3)" by (cases "ld_call_llm ?d i st2") blast
  show ?thesis
  proof (cases r3)
    case (Inl e)
    then show ?thesis using t b b2(1) c by (cases r1) (simp_all add: loop_iteration_def)
  next
    case (Inr out)
    have "chat_call_llm pr re st2 = (Inr out, st3)" using c Inr by (simp add: chat_delegate_def)
    then obtain reply where reply: "ro_result out = TextResult reply" and "rx_force_text (fst st3)"
      using chat_call_forced_text [OF b2(2)] by blast
    then have "\<not> nudge_due config (fst st3) n reply" by (simp add: nudge_due_def)
    then show ?thesis using t b b2(1) c Inr reply
      by (cases r1) (simp_all add: loop_iteration_def process_result_def chat_delegate_def Let_def)
  qed
qed


text \<open>The transcript of a thread satisfies the protocol, whatever its turns record.\<close>

lemma turn_messages_protocol:
  "tool_blocks p (turn_messages ts t)"
proof -
  let ?calls = "map (\<lambda>(i, tc). \<lparr>tc_id = call_id (tu_turn_number t) i, tc_name = tt_name tc,
      tc_arguments = tt_parameters tc\<rparr>) (enumerate 0 (tu_tool_calls t))"
  let ?res = "map (\<lambda>(i, tc). cm_tool_result (call_id (tu_turn_number t) i) (tt_name tc) (result_content ts tc))
      (enumerate 0 (tu_tool_calls t))"
  have mc: "message_calls (cm_assistant_with_tool_calls None ?calls) = map tc_id ?calls"
    by (simp add: message_calls_def cm_assistant_with_tool_calls_def)
  have "\<forall>m \<in> set ?res. cm_role m = Tool \<and> (\<exists>i \<in> set (map tc_id ?calls). cm_tool_call_id m = Some i)" by force
  from tool_blocks_results [OF this] mc
  have "tool_blocks [] (cm_assistant_with_tool_calls None ?calls # ?res)" by simp
  then show ?thesis by (auto simp: turn_messages_def tool_blocks_append split: option.split)
qed

lemma messages_protocol: "protocol_ok (messages ts th)"
proof -
  have "tool_blocks p (concat (map (turn_messages ts) tus))" for p tus
    by (induction tus arbitrary: p) (simp_all add: tool_blocks_append turn_messages_protocol)
  then show ?thesis by (simp add: messages_def)
qed

definition answering ::
    "(CompletionRequest \<Rightarrow> ('w, CompletionResponse) operation) \<Rightarrow>
     (ToolCompletionRequest \<Rightarrow> ('w, ToolCompletionResponse) operation) \<Rightarrow> 'w Reasoner \<Rightarrow> 'w Reasoner" where
  "answering c t re = re\<lparr>re_complete := c, re_complete_with_tools := t\<rparr>"

lemma respond_answering:
  assumes one: "\<And>q w. protocol_ok (cr_messages q) \<Longrightarrow> c q w = re_complete re q w"
    and two: "\<And>q w. protocol_ok (tr_messages q) \<Longrightarrow> t q w = re_complete_with_tools re q w"
    and ok: "protocol_ok (rx_messages rc)"
  shows "respond_with_tools (answering c t re) rc w = respond_with_tools re rc w"
proof -
  let ?re = "answering c t re"
  have m: "request_messages ?re rc = request_messages re rc" "tool_answer ?re = tool_answer re" "final_text ?re = final_text re"
    by (simp_all add: fun_eq_iff request_messages_def tool_answer_def final_text_def answering_def Let_def split: option.split)
  have req: "protocol_ok (request_messages re rc)" using protocol_ok_request [OF ok] .
  have "re_complete ?re (completion_request_new (request_messages re rc)\<lparr>cr_max_tokens := a, cr_temperature := b, cr_metadata := d\<rparr>) w =
      re_complete re (completion_request_new (request_messages re rc)\<lparr>cr_max_tokens := a, cr_temperature := b, cr_metadata := d\<rparr>) w" for a b d
    using one req by (simp add: answering_def completion_request_new_def)
  moreover have "re_complete_with_tools ?re (tool_completion_request_new (request_messages re rc) ts
        \<lparr>tr_max_tokens := a, tr_temperature := b, tr_tool_choice := e, tr_metadata := d\<rparr>) w =
      re_complete_with_tools re (tool_completion_request_new (request_messages re rc) ts
        \<lparr>tr_max_tokens := a, tr_temperature := b, tr_tool_choice := e, tr_metadata := d\<rparr>) w" for ts a b d e
    using two req by (simp add: answering_def tool_completion_request_new_def)
  ultimately show ?thesis unfolding respond_with_tools_def m Let_def by simp
qed

lemma chat_call_answering:
  assumes "\<And>q w. protocol_ok (cr_messages q) \<Longrightarrow> c q w = re_complete re q w"
    and "\<And>q w. protocol_ok (tr_messages q) \<Longrightarrow> t q w = re_complete_with_tools re q w"
    and "chat_inv st"
  shows "chat_call_llm pr (answering c t re) st = chat_call_llm pr re st"
proof -
  obtain rc cs where st: "st = (rc, cs)" by (cases st)
  have ok: "protocol_ok (rx_messages rc)" using assms(3) by (simp add: chat_inv_def st)
  have same: "protocol_ok (rx_messages x) \<Longrightarrow> respond_with_tools (answering c t re) x w = respond_with_tools re x w" for x w
    by (rule respond_answering) (use assms(1,2) in auto)
  have eq: "respond_or_compact (answering c t re) rc w = respond_or_compact re rc w" for w
    unfolding respond_or_compact_def same [OF ok]
    by (simp add: Let_def same protocol_ok_compact ok split: prod.split sum.split LlmError.split)
  show ?thesis unfolding chat_call_llm_def st prod.case eq ..
qed

text \<open>
  Property C8. In a chat turn every request sent to the model satisfies the tool-call protocol:
  each tool result directly follows the assistant message whose call it answers. Two models that
  agree on such requests lead to the same turn, from the transcript of any thread, through tool
  rounds, hooks, nudges, interference by other tasks and the compaction after a context overflow.
\<close>

theorem chat_requests_well_formed:
  assumes "\<And>q w. protocol_ok (cr_messages q) \<Longrightarrow> complete' q w = re_complete re q w"
    and "\<And>q w. protocol_ok (tr_messages q) \<Longrightarrow> complete_with_tools' q w = re_complete_with_tools re q w"
    and "rx_messages rc = messages ts th"
  shows "run_chat_loop env pr ct (re\<lparr>re_complete := complete', re_complete_with_tools := complete_with_tools'\<rparr>) rc cs =
    run_chat_loop env pr ct re rc cs"
proof -
  let ?re = "answering complete' complete_with_tools' re"
  have inv: "chat_inv (rc, cs)" using messages_protocol assms(3) by (simp add: chat_inv_def)
  have d: "chat_delegate env pr ct ?re = (chat_delegate env pr ct re)\<lparr>ld_call_llm := \<lambda>_. chat_call_llm pr ?re\<rparr>"
    by (simp add: chat_delegate_def)
  have "run_agentic_loop (chat_delegate env pr ct ?re) config (rc, cs) =
      run_agentic_loop (chat_delegate env pr ct re) config (rc, cs)" for config
    unfolding run_agentic_loop_def d
    by (rule chat.loop_from_cong [OF inv]) (use chat_call_answering [of complete' re complete_with_tools'] assms(1,2) in \<open>simp add: chat_delegate_def\<close>)
  then show ?thesis by (simp add: run_chat_loop_def answering_def)
qed

definition demo_reasoner :: "nat Reasoner" where
  "demo_reasoner =
     \<lparr>re_complete = (\<lambda>q w. (Inr \<lparr>rs_content = ''hi'', rs_input_tokens = 1, rs_output_tokens = 1, rs_finish_reason = Stop,
        rs_cache_read_input_tokens = 0, rs_cache_creation_input_tokens = 0\<rparr>, w + 1)),
      re_complete_with_tools = (\<lambda>q w. (Inr \<lparr>tp_content = None, tp_tool_calls = demo_calls, tp_input_tokens = 1,
        tp_output_tokens = 1, tp_finish_reason = ToolUse, tp_cache_read_input_tokens = 0,
        tp_cache_creation_input_tokens = 0\<rparr>, w + 1)),
      re_build_prompt = (\<lambda>_. []), re_truncate = (\<lambda>s. s), re_clean = (\<lambda>s. s), re_recover = (\<lambda>_ _. [])\<rparr>"

definition demo_pricing :: "(int, nat) Pricing" where
  "demo_pricing = \<lparr>pr_dec = int, pr_tr = (\<lambda>x. x), pr_table = (\<lambda>_. (1, 1)), pr_read_discount = 1,
     pr_write_multiplier = 1, pr_cost_per_token = (1, 1), pr_show_limit = (\<lambda>_. []), pr_model = ''m'',
     pr_now = (\<lambda>_. 0), pr_today = (\<lambda>_. 0)\<rparr>"

definition demo_turn :: ChatTurn where
  "demo_turn = \<lparr>ct_thread_id = 4, ct_now = 0, ct_new_id = 9, ct_tz = ''UTC'', ct_attenuate = (\<lambda>ts. ts),
     ct_prompt = [], ct_prompt_no_tools = [], ct_max_tool_iterations = 3\<rparr>"

theorem chat_requests_well_formed_witness:
  "run_chat_loop demo_env demo_pricing demo_turn
     (demo_reasoner\<lparr>re_complete := (\<lambda>q w. if protocol_ok (cr_messages q) then re_complete demo_reasoner q w
          else (Inl (Http ''bad request''), w)),
        re_complete_with_tools := (\<lambda>q w. if protocol_ok (tr_messages q) then re_complete_with_tools demo_reasoner q w
          else (Inl (Http ''bad request''), w))\<rparr>) reasoning_context_new demo_chat =
   run_chat_loop demo_env demo_pricing demo_turn demo_reasoner reasoning_context_new demo_chat"
  by (rule chat_requests_well_formed [where ts = "\<lambda>_. []" and th = "thread_with_id 0 4 1"])
     (simp_all add: reasoning_context_new_def messages_def thread_with_id_def)

end
