(* ===== verification/Circuit_Breaker.thy ===== *)
theory Circuit_Breaker
  imports Retry
begin

text \<open>
  The circuit breaker around a provider: \<^verbatim>\<open>src/llm/circuit_breaker.rs\<close>. The check before a call and the
  record after it are separate critical sections, so that calls of several tasks interleave; the
  invariant is proved for every interleaving of the sections, and the behaviour of the whole call
  for one caller. The rounding in the message of the refusal is the parameter \<open>show_secs\<close>.
\<close>

record CircuitBreakerConfig =
  bc_failure_threshold :: u32
  bc_recovery_timeout :: duration
  bc_half_open_successes_needed :: u32

definition breaker_config_default :: CircuitBreakerConfig where
  "breaker_config_default =
     \<lparr>bc_failure_threshold = 5, bc_recovery_timeout = secs 30, bc_half_open_successes_needed = 2\<rparr>"

datatype CircuitState = Closed | Open | HalfOpen

record BreakerState =
  bs_state :: CircuitState
  bs_consecutive_failures :: u32
  bs_opened_at :: "instant option"
  bs_half_open_successes :: u32

definition breaker_new :: BreakerState where
  "breaker_new =
     \<lparr>bs_state = Closed, bs_consecutive_failures = 0, bs_opened_at = None, bs_half_open_successes = 0\<rparr>"

definition breaker_check_allowed ::
    "CircuitBreakerConfig \<Rightarrow> (duration \<Rightarrow> string) \<Rightarrow> string \<Rightarrow> instant \<Rightarrow> BreakerState \<Rightarrow>
       (LlmError + unit) \<times> BreakerState" where
  "breaker_check_allowed cfg show_secs model now bs =
     (case bs_state bs of
        Closed \<Rightarrow> (Inr (), bs)
      | HalfOpen \<Rightarrow> (Inr (), bs)
      | Open \<Rightarrow>
          (case bs_opened_at bs of
             Some opened_at \<Rightarrow>
               if now - opened_at \<ge> bc_recovery_timeout cfg
               then (Inr (), bs\<lparr>bs_state := HalfOpen, bs_half_open_successes := 0\<rparr>)
               else (Inl (RequestFailed model
                       (''Circuit breaker open ('' @ show_nat (unat (bs_consecutive_failures bs)) @
                        '' consecutive failures, recovery in '' @
                        show_secs (bc_recovery_timeout cfg - (now - opened_at)) @ ''s)'')), bs)
           | None \<Rightarrow> (Inr (), bs\<lparr>bs_state := Closed\<rparr>)))"

definition breaker_record_success :: "CircuitBreakerConfig \<Rightarrow> BreakerState \<Rightarrow> BreakerState" where
  "breaker_record_success cfg bs =
     (case bs_state bs of
        Closed \<Rightarrow> bs\<lparr>bs_consecutive_failures := 0\<rparr>
      | HalfOpen \<Rightarrow>
          (let bs = bs\<lparr>bs_half_open_successes := bs_half_open_successes bs + 1\<rparr>
           in if bs_half_open_successes bs \<ge> bc_half_open_successes_needed cfg
              then bs\<lparr>bs_state := Closed, bs_consecutive_failures := 0, bs_opened_at := None\<rparr>
              else bs)
      | Open \<Rightarrow> bs\<lparr>bs_state := Closed, bs_consecutive_failures := 0, bs_opened_at := None\<rparr>)"

fun is_transient :: "LlmError \<Rightarrow> bool" where
  "is_transient (RequestFailed _ _) = True"
| "is_transient (RateLimited _ _) = True"
| "is_transient (InvalidResponse _ _) = True"
| "is_transient (SessionExpired _) = True"
| "is_transient (SessionRenewalFailed _ _) = True"
| "is_transient (Http _) = True"
| "is_transient (Io _) = True"
| "is_transient (AuthFailed _) = False"
| "is_transient (ContextLengthExceeded _ _) = False"
| "is_transient (ModelNotAvailable _ _) = False"
| "is_transient (Json _) = False"

definition breaker_record_failure ::
    "CircuitBreakerConfig \<Rightarrow> instant \<Rightarrow> LlmError \<Rightarrow> BreakerState \<Rightarrow> BreakerState" where
  "breaker_record_failure cfg now err bs =
     (if \<not> is_transient err then bs
      else case bs_state bs of
          Closed \<Rightarrow>
            (let bs = bs\<lparr>bs_consecutive_failures := bs_consecutive_failures bs + 1\<rparr>
             in if bs_consecutive_failures bs \<ge> bc_failure_threshold cfg
                then bs\<lparr>bs_state := Open, bs_opened_at := Some now\<rparr> else bs)
        | HalfOpen \<Rightarrow> bs\<lparr>bs_state := Open, bs_opened_at := Some now, bs_half_open_successes := 0\<rparr>
        | Open \<Rightarrow> bs)"

text \<open>
  \<open>complete\<close> and \<open>complete_with_tools\<close>; the state is the breaker's and the wrapped provider's. The
  check reads the clock at \<open>t0\<close>, the record at \<open>t1\<close>.
\<close>

definition breaker_complete ::
    "CircuitBreakerConfig \<Rightarrow> (duration \<Rightarrow> string) \<Rightarrow> string \<Rightarrow> instant \<Rightarrow> instant \<Rightarrow>
     ('q \<Rightarrow> ('s, 'r) operation) \<Rightarrow> 'q \<Rightarrow> (BreakerState \<times> 's, 'r) operation" where
  "breaker_complete cfg show_secs model t0 t1 inner request st =
     (case st of (bs, s) \<Rightarrow>
       (case breaker_check_allowed cfg show_secs model t0 bs of
          (Inl e, bs) \<Rightarrow> (Inl e, bs, s)
        | (Inr _, bs) \<Rightarrow>
            (case inner request s of
               (Inr resp, s) \<Rightarrow> (Inr resp, breaker_record_success cfg bs, s)
             | (Inl err, s) \<Rightarrow> (Inl err, breaker_record_failure cfg t1 err bs, s))))"

subsection \<open>Runs of events\<close>

text \<open>
  The interface of a state changed by events one at a time, whoever causes them: an invariant every
  event keeps holds after every sequence of events.
\<close>

locale event_machine =
  fixes step :: "'e \<Rightarrow> 's \<Rightarrow> 's" and inv :: "'s \<Rightarrow> bool"
  assumes step_inv: "inv s \<Longrightarrow> inv (step e s)"
begin

lemma run_inv: "inv s \<Longrightarrow> inv (fold step es s)"
  by (induction es arbitrary: s) (simp_all add: step_inv)

end

datatype breaker_event = CheckAt instant | Succeeded | FailedAt instant LlmError

fun breaker_step :: "CircuitBreakerConfig \<Rightarrow> breaker_event \<Rightarrow> BreakerState \<Rightarrow> BreakerState" where
  "breaker_step cfg (CheckAt t) bs = snd (breaker_check_allowed cfg (\<lambda>_. []) [] t bs)"
| "breaker_step cfg Succeeded bs = breaker_record_success cfg bs"
| "breaker_step cfg (FailedAt t e) bs = breaker_record_failure cfg t e bs"

definition breaker_inv :: "CircuitBreakerConfig \<Rightarrow> BreakerState \<Rightarrow> bool" where
  "breaker_inv cfg bs =
     (0 < bc_failure_threshold cfg \<longrightarrow> 0 < bc_half_open_successes_needed cfg \<longrightarrow>
       (case bs_state bs of
          Closed \<Rightarrow> bs_consecutive_failures bs < bc_failure_threshold cfg
        | Open \<Rightarrow> bs_opened_at bs \<noteq> None
        | HalfOpen \<Rightarrow> bs_opened_at bs \<noteq> None \<and>
            bs_half_open_successes bs < bc_half_open_successes_needed cfg))"

lemma breaker_step_inv: "breaker_inv cfg bs \<Longrightarrow> breaker_inv cfg (breaker_step cfg e bs)"
  by (cases e; cases "bs_state bs")
     (auto simp: breaker_inv_def breaker_check_allowed_def breaker_record_success_def
       breaker_record_failure_def Let_def not_le split: option.splits)

interpretation breaker: event_machine "breaker_step cfg" "breaker_inv cfg"
  by unfold_locales (rule breaker_step_inv)

lemma breaker_new_inv: "breaker_inv cfg breaker_new"
  by (simp add: breaker_inv_def breaker_new_def)

text \<open>
  Also: However the checks and records of concurrent callers interleave: an open breaker
  knows when it opened, a closed one has seen fewer consecutive failures than the threshold, and a
  half-open one fewer successes than are needed to close it.
\<close>

theorem breaker_invariant:
  assumes "0 < bc_failure_threshold cfg" and "0 < bc_half_open_successes_needed cfg"
  shows "case bs_state (fold (breaker_step cfg) es breaker_new) of
      Closed \<Rightarrow> bs_consecutive_failures (fold (breaker_step cfg) es breaker_new) < bc_failure_threshold cfg
    | Open \<Rightarrow> bs_opened_at (fold (breaker_step cfg) es breaker_new) \<noteq> None
    | HalfOpen \<Rightarrow> bs_half_open_successes (fold (breaker_step cfg) es breaker_new) < bc_half_open_successes_needed cfg"
  using breaker.run_inv [OF breaker_new_inv, of cfg es] assms
  by (auto simp: breaker_inv_def split: CircuitState.splits)

definition demo_breaker_cfg :: CircuitBreakerConfig where
  "demo_breaker_cfg = \<lparr>bc_failure_threshold = 1, bc_recovery_timeout = 100, bc_half_open_successes_needed = 1\<rparr>"

theorem breaker_invariant_witness:
  "bs_opened_at (fold (breaker_step demo_breaker_cfg) [FailedAt 7 (Http ''503'')] breaker_new) \<noteq> None"
proof -
  have "bs_state (fold (breaker_step demo_breaker_cfg) [FailedAt 7 (Http ''503'')] breaker_new) = Open"
    by (simp add: breaker_record_failure_def breaker_new_def demo_breaker_cfg_def)
  moreover have "0 < bc_failure_threshold demo_breaker_cfg" and "0 < bc_half_open_successes_needed demo_breaker_cfg"
    by (simp_all add: demo_breaker_cfg_def)
  ultimately show ?thesis
    using breaker_invariant [of demo_breaker_cfg "[FailedAt 7 (Http ''503'')]"] by (simp del: fold_simps)
qed

subsection \<open>The breaker as seen by one caller\<close>

lemma check_honest: "breaker_complete cfg ss m t0 t1 inner q st = (Inr r, st') \<Longrightarrow>
    \<exists>p \<in> {q}. \<exists>s s'. inner p s = (Inr r, s')"
  by (auto simp: breaker_complete_def split: prod.splits sum.splits)

interpretation breaking: honest_decorator "breaker_complete cfg show_secs model t0 t1" "\<lambda>q. {q}"
  by unfold_locales (rule check_honest)

text \<open>A run of calls, each with its request and the instants of its check and record.\<close>

fun breaker_calls ::
    "CircuitBreakerConfig \<Rightarrow> (duration \<Rightarrow> string) \<Rightarrow> string \<Rightarrow> ('q \<Rightarrow> ('s, 'r) operation) \<Rightarrow>
     (instant \<times> instant \<times> 'q) list \<Rightarrow> BreakerState \<times> 's \<Rightarrow> BreakerState \<times> 's" where
  "breaker_calls cfg ss m inner [] st = st"
| "breaker_calls cfg ss m inner ((t0, t1, q) # cs) st =
     breaker_calls cfg ss m inner cs (snd (breaker_complete cfg ss m t0 t1 inner q st))"

definition failing :: "('s, 'r) operation \<Rightarrow> bool" where
  "failing op = (\<forall>s. \<exists>e s'. op s = (Inl e, s') \<and> is_transient e)"

definition succeeding :: "('s, 'r) operation \<Rightarrow> bool" where
  "succeeding op = (\<forall>s. \<exists>r s'. op s = (Inr r, s'))"

lemma unat_inc: "unat (w :: u32) < unat (b :: u32) \<Longrightarrow> unat (w + 1) = Suc (unat w)"
proof -
  assume "unat w < unat b"
  moreover have "unat b < 2 ^ LENGTH(32)" by (rule unsigned_less)
  ultimately have "Suc (unat w) < 2 ^ 32" by simp
  then show ?thesis by (simp add: unat_word_ariths)
qed

lemma closed_failing_call:
  assumes "bs_state bs = Closed" and "failing (inner q)"
    and "unat (bs_consecutive_failures bs) < unat (bc_failure_threshold cfg)"
  obtains s' where "snd (breaker_complete cfg ss m t0 t1 inner q (bs, s)) =
    (if Suc (unat (bs_consecutive_failures bs)) = unat (bc_failure_threshold cfg)
     then bs\<lparr>bs_consecutive_failures := bs_consecutive_failures bs + 1, bs_state := Open, bs_opened_at := Some t1\<rparr>
     else bs\<lparr>bs_consecutive_failures := bs_consecutive_failures bs + 1\<rparr>, s')"
proof -
  obtain e s' where e: "inner q s = (Inl e, s')" "is_transient e" using assms(2) unfolding failing_def by metis
  have "bs_consecutive_failures bs + 1 \<ge> bc_failure_threshold cfg \<longleftrightarrow>
      Suc (unat (bs_consecutive_failures bs)) = unat (bc_failure_threshold cfg)"
    using unat_inc [OF assms(3)] assms(3) by (auto simp: word_le_nat_alt)
  then show thesis using that [of s'] assms(1) e
    by (simp add: breaker_complete_def breaker_check_allowed_def breaker_record_failure_def Let_def)
qed

lemma failing_calls:
  assumes "bs_state bs = Closed" and "\<forall>(t0, t1, q) \<in> set cs. failing (inner q)"
    and "unat (bs_consecutive_failures bs) + length cs \<le> unat (bc_failure_threshold cfg)" and "cs \<noteq> []"
  shows "case breaker_calls cfg ss m inner cs (bs, s) of (bs', _) \<Rightarrow>
    if unat (bs_consecutive_failures bs) + length cs = unat (bc_failure_threshold cfg)
    then bs_state bs' = Open \<and> bs_opened_at bs' = Some (fst (snd (last cs)))
    else bs_state bs' = Closed \<and> unat (bs_consecutive_failures bs') = unat (bs_consecutive_failures bs) + length cs"
  using assms
proof (induction cs arbitrary: bs s)
  case (Cons c cs)
  obtain t0 t1 q where c: "c = (t0, t1, q)" by (cases c)
  have lt: "unat (bs_consecutive_failures bs) < unat (bc_failure_threshold cfg)" using Cons.prems(3) by simp
  have f: "failing (inner q)" using Cons.prems(2) c by simp
  obtain s' where one: "snd (breaker_complete cfg ss m t0 t1 inner q (bs, s)) =
    (if Suc (unat (bs_consecutive_failures bs)) = unat (bc_failure_threshold cfg)
     then bs\<lparr>bs_consecutive_failures := bs_consecutive_failures bs + 1, bs_state := Open, bs_opened_at := Some t1\<rparr>
     else bs\<lparr>bs_consecutive_failures := bs_consecutive_failures bs + 1\<rparr>, s')"
    by (rule closed_failing_call [of bs inner q cfg ss m t0 t1 s, OF Cons.prems(1) f lt])
  let ?bs = "bs\<lparr>bs_consecutive_failures := bs_consecutive_failures bs + 1\<rparr>"
  show ?case
  proof (cases "cs = []")
    case True
    then show ?thesis using one Cons.prems(1) unat_inc [OF lt] by (simp add: c)
  next
    case False
    then have "Suc (unat (bs_consecutive_failures bs)) \<noteq> unat (bc_failure_threshold cfg)"
      using Cons.prems(3) by (cases cs) auto
    then have run: "breaker_calls cfg ss m inner (c # cs) (bs, s) = breaker_calls cfg ss m inner cs (?bs, s')"
      using one by (simp add: c)
    have hyps: "bs_state ?bs = Closed" "\<forall>(t0, t1, q) \<in> set cs. failing (inner q)"
      "unat (bs_consecutive_failures ?bs) + length cs \<le> unat (bc_failure_threshold cfg)"
      using Cons.prems unat_inc [OF lt] by auto
    show ?thesis using Cons.IH [OF hyps False, of s'] unat_inc [OF lt] False unfolding run by (auto split: prod.splits if_splits)
  qed
qed simp

text \<open>
  Also: A new breaker opens exactly with the last of as many consecutive transient failures
  as its threshold says, and stays closed under fewer. While open, and until the recovery timeout has
  passed since it opened, every call is refused without reaching the provider and without any change;
  after the timeout a call reaches the provider again.
\<close>

theorem breaker_trips_and_blocks:
  assumes fail: "\<forall>(t0, t1, q) \<in> set cs. failing (inner q)" and ne: "cs \<noteq> []"
    and len: "length cs \<le> unat (bc_failure_threshold cfg)"
    and run: "breaker_calls cfg ss m inner cs (breaker_new, s0) = (bs, s)"
  shows "(length cs < unat (bc_failure_threshold cfg) \<longrightarrow> bs_state bs = Closed) \<and>
    (length cs = unat (bc_failure_threshold cfg) \<longrightarrow> bs_state bs = Open \<and>
      (now - fst (snd (last cs)) < bc_recovery_timeout cfg \<longrightarrow>
        (\<exists>e. breaker_complete cfg ss m now now' inner q (bs, s) = (Inl e, bs, s))) \<and>
      (now - fst (snd (last cs)) \<ge> bc_recovery_timeout cfg \<longrightarrow>
        fst (breaker_complete cfg ss m now now' inner q (bs, s)) = fst (inner q s)))"
proof -
  have new: "bs_state breaker_new = Closed" "unat (bs_consecutive_failures breaker_new) = 0"
    by (simp_all add: breaker_new_def)
  from failing_calls [OF new(1) fail _ ne, of cfg ss m s0] len run new(2)
  have st: "if length cs = unat (bc_failure_threshold cfg)
      then bs_state bs = Open \<and> bs_opened_at bs = Some (fst (snd (last cs))) else bs_state bs = Closed"
    by (simp split: if_splits)
  then show ?thesis
    by (auto simp: breaker_complete_def breaker_check_allowed_def split: prod.splits sum.splits if_splits)
qed

definition demo_down :: "unit \<Rightarrow> (nat, string) operation" where
  "demo_down q s = (Inl (Http ''503''), s)"

lemma demo_down_failing: "failing (demo_down q)"
  by (simp add: failing_def demo_down_def)

theorem breaker_trips_and_blocks_witness:
  "\<exists>e. fst (breaker_complete demo_breaker_cfg (\<lambda>_. []) ''m'' 50 60 demo_down ()
      (breaker_calls demo_breaker_cfg (\<lambda>_. []) ''m'' demo_down [(1, 2, ())] (breaker_new, 0))) = Inl e"
proof -
  obtain bs s where run: "breaker_calls demo_breaker_cfg (\<lambda>_. []) ''m'' demo_down [(1, 2, ())] (breaker_new, 0) = (bs, s)"
    by fastforce
  have f: "\<forall>(t0, t1, q) \<in> set [(1 :: instant, 2 :: instant, ())]. failing (demo_down q)"
    by (simp add: demo_down_failing)
  have len: "length [(1 :: instant, 2 :: instant, ())] \<le> unat (bc_failure_threshold demo_breaker_cfg)"
    by (simp add: demo_breaker_cfg_def)
  from breaker_trips_and_blocks [OF f _ len run, of 50 60 "()"] show ?thesis
    unfolding run by (auto simp: demo_breaker_cfg_def)
qed

lemma half_open_success:
  assumes "bs_state bs = HalfOpen" and "succeeding (inner q)"
    and "unat (bs_half_open_successes bs) < unat (bc_half_open_successes_needed cfg)"
  obtains s' where "snd (breaker_complete cfg ss m t0 t1 inner q (bs, s)) =
    (if Suc (unat (bs_half_open_successes bs)) = unat (bc_half_open_successes_needed cfg)
     then bs\<lparr>bs_half_open_successes := bs_half_open_successes bs + 1, bs_state := Closed,
             bs_consecutive_failures := 0, bs_opened_at := None\<rparr>
     else bs\<lparr>bs_half_open_successes := bs_half_open_successes bs + 1\<rparr>, s')"
proof -
  obtain r s' where e: "inner q s = (Inr r, s')" using assms(2) unfolding succeeding_def by metis
  have "bs_half_open_successes bs + 1 \<ge> bc_half_open_successes_needed cfg \<longleftrightarrow>
      Suc (unat (bs_half_open_successes bs)) = unat (bc_half_open_successes_needed cfg)"
    using unat_inc [OF assms(3)] assms(3) by (auto simp: word_le_nat_alt)
  then show thesis using that [of s'] assms(1) e
    by (simp add: breaker_complete_def breaker_check_allowed_def breaker_record_success_def Let_def)
qed

lemma half_open_calls:
  assumes "bs_state bs = HalfOpen" and "\<forall>(t0, t1, q) \<in> set cs. succeeding (inner q)"
    and "unat (bs_half_open_successes bs) + length cs \<le> unat (bc_half_open_successes_needed cfg)"
  shows "case breaker_calls cfg ss m inner cs (bs, s) of (bs', _) \<Rightarrow>
    if cs \<noteq> [] \<and> unat (bs_half_open_successes bs) + length cs = unat (bc_half_open_successes_needed cfg)
    then bs_state bs' = Closed \<and> bs_consecutive_failures bs' = 0 else bs_state bs' = HalfOpen"
  using assms
proof (induction cs arbitrary: bs s)
  case (Cons c cs)
  obtain t0 t1 q where c: "c = (t0, t1, q)" by (cases c)
  have lt: "unat (bs_half_open_successes bs) < unat (bc_half_open_successes_needed cfg)" using Cons.prems(3) by simp
  have f: "succeeding (inner q)" using Cons.prems(2) c by simp
  obtain s' where one: "snd (breaker_complete cfg ss m t0 t1 inner q (bs, s)) =
    (if Suc (unat (bs_half_open_successes bs)) = unat (bc_half_open_successes_needed cfg)
     then bs\<lparr>bs_half_open_successes := bs_half_open_successes bs + 1, bs_state := Closed,
             bs_consecutive_failures := 0, bs_opened_at := None\<rparr>
     else bs\<lparr>bs_half_open_successes := bs_half_open_successes bs + 1\<rparr>, s')"
    by (rule half_open_success [of bs inner q cfg ss m t0 t1 s, OF Cons.prems(1) f lt])
  let ?bs = "bs\<lparr>bs_half_open_successes := bs_half_open_successes bs + 1\<rparr>"
  show ?case
  proof (cases "cs = []")
    case True
    then show ?thesis using one Cons.prems(1) by (simp add: c)
  next
    case False
    then have "Suc (unat (bs_half_open_successes bs)) \<noteq> unat (bc_half_open_successes_needed cfg)"
      using Cons.prems(3) by (cases cs) auto
    then have run: "breaker_calls cfg ss m inner (c # cs) (bs, s) = breaker_calls cfg ss m inner cs (?bs, s')"
      using one by (simp add: c)
    have hyps: "bs_state ?bs = HalfOpen" "\<forall>(t0, t1, q) \<in> set cs. succeeding (inner q)"
      "unat (bs_half_open_successes ?bs) + length cs \<le> unat (bc_half_open_successes_needed cfg)"
      using Cons.prems unat_inc [OF lt] by auto
    show ?thesis using Cons.IH [OF hyps, of s'] unat_inc [OF lt] False
      unfolding run by (auto split: prod.splits if_splits)
  qed
qed simp

lemma open_first_call:
  assumes "bs_state bs = Open" and "bs_opened_at bs = Some t" and "t0 - t \<ge> bc_recovery_timeout cfg"
  shows "breaker_complete cfg ss m t0 t1 inner q (bs, s) =
    breaker_complete cfg ss m t0 t1 inner q (bs\<lparr>bs_state := HalfOpen, bs_half_open_successes := 0\<rparr>, s)"
  using assms by (simp add: breaker_complete_def breaker_check_allowed_def)

text \<open>
  Also: Recovery takes as many successful probes as configured: once the timeout of an open
  breaker has passed, consecutive successful calls leave it half-open until their number reaches
  the configured one, and close it then, with its failure count reset. One transient failure of a
  probe opens it again. (The type's comment says that one successful probe closes the circuit.)
\<close>

theorem breaker_recovery:
  assumes "bs_state bs = Open" and "bs_opened_at bs = Some t"
    and "cs \<noteq> []" and "fst (hd cs) - t \<ge> bc_recovery_timeout cfg"
    and "length cs \<le> unat (bc_half_open_successes_needed cfg)"
    and "\<forall>(t0, t1, q) \<in> set cs. succeeding (inner q)"
    and "breaker_calls cfg ss m inner cs (bs, s) = (bs', s')"
  shows "(if length cs = unat (bc_half_open_successes_needed cfg)
      then bs_state bs' = Closed \<and> bs_consecutive_failures bs' = 0 else bs_state bs' = HalfOpen) \<and>
    (bs_state bs' = HalfOpen \<longrightarrow> failing (inner' q') \<longrightarrow>
      (\<exists>s''. snd (breaker_complete cfg ss m u0 u1 inner' q' (bs', s')) =
         (bs'\<lparr>bs_state := Open, bs_opened_at := Some u1, bs_half_open_successes := 0\<rparr>, s'')))"
proof
  obtain t0 t1 q cs' where cs: "cs = (t0, t1, q) # cs'" using assms(3) by (cases cs) auto
  let ?h = "bs\<lparr>bs_state := HalfOpen, bs_half_open_successes := 0\<rparr>"
  have "t0 - t \<ge> bc_recovery_timeout cfg" using assms(4) by (simp add: cs)
  from open_first_call [OF assms(1,2) this, of ss m t1 inner q s]
  have "breaker_calls cfg ss m inner cs (?h, s) = (bs', s')" using assms(7) by (simp add: cs)
  with half_open_calls [of ?h cs inner cfg ss m s] assms(3,5,6)
  show "if length cs = unat (bc_half_open_successes_needed cfg)
      then bs_state bs' = Closed \<and> bs_consecutive_failures bs' = 0 else bs_state bs' = HalfOpen"
    by simp
  show "bs_state bs' = HalfOpen \<longrightarrow> failing (inner' q') \<longrightarrow>
      (\<exists>s''. snd (breaker_complete cfg ss m u0 u1 inner' q' (bs', s')) =
         (bs'\<lparr>bs_state := Open, bs_opened_at := Some u1, bs_half_open_successes := 0\<rparr>, s''))"
  proof (intro impI)
    assume h: "bs_state bs' = HalfOpen" and "failing (inner' q')"
    then obtain e s'' where "inner' q' s' = (Inl e, s'')" "is_transient e" unfolding failing_def by metis
    with h show "\<exists>s''. snd (breaker_complete cfg ss m u0 u1 inner' q' (bs', s')) =
         (bs'\<lparr>bs_state := Open, bs_opened_at := Some u1, bs_half_open_successes := 0\<rparr>, s'')"
      by (simp add: breaker_complete_def breaker_check_allowed_def breaker_record_failure_def)
  qed
qed

definition demo_open :: BreakerState where
  "demo_open = \<lparr>bs_state = Open, bs_consecutive_failures = 5, bs_opened_at = Some 10, bs_half_open_successes = 0\<rparr>"

definition demo_up :: "unit \<Rightarrow> (nat, string) operation" where
  "demo_up q s = (Inr ''ok'', s + 1)"

theorem breaker_recovery_witness:
  "bs_state (fst (breaker_calls demo_breaker_cfg (\<lambda>_. []) ''m'' demo_up [(200, 201, ())] (demo_open, 0))) = Closed"
proof -
  obtain bs s where run: "breaker_calls demo_breaker_cfg (\<lambda>_. []) ''m'' demo_up [(200, 201, ())] (demo_open, 0) = (bs, s)"
    by fastforce
  have o: "bs_state demo_open = Open" "bs_opened_at demo_open = Some 10" by (simp_all add: demo_open_def)
  have t: "fst (hd [(200 :: instant, 201 :: instant, ())]) - 10 \<ge> bc_recovery_timeout demo_breaker_cfg"
    and l: "length [(200 :: instant, 201 :: instant, ())] \<le> unat (bc_half_open_successes_needed demo_breaker_cfg)"
    by (simp_all add: demo_breaker_cfg_def)
  have up: "\<forall>(t0, t1, q) \<in> set [(200 :: instant, 201 :: instant, ())]. succeeding (demo_up q)"
    by (simp add: succeeding_def demo_up_def)
  from breaker_recovery [OF o _ t l up run, of demo_down "()" 0 0] show ?thesis
    unfolding run by (simp add: demo_breaker_cfg_def)
qed

end
