(* ===== verification/Failover.thy ===== *)
theory Failover
  imports Retry
begin

text \<open>
  Failover between providers: \<^verbatim>\<open>src/llm/failover.rs\<close>. The providers share one state that a call threads
  through; \<open>call i\<close> is the request sent to the provider with index \<open>i\<close>. Each provider is called at
  most once per request. The lemmas show which providers are tried and in which order, that one is
  always tried, and what the outcome is.

  \<open>nanos i\<close> is the clock read when a failure of provider \<open>i\<close> is recorded. The map from tasks to
  providers, used for cost reports, is left out.
\<close>

record CooldownConfig =
  cc_cooldown_duration :: duration
  cc_failure_threshold :: u32

definition cooldown_config_default :: CooldownConfig where
  "cooldown_config_default = \<lparr>cc_cooldown_duration = secs 300, cc_failure_threshold = 3\<rparr>"

record ProviderCooldown =
  pc_failure_count :: u32
  pc_cooldown_activated_nanos :: u64

definition cooldown_new :: ProviderCooldown where
  "cooldown_new = \<lparr>pc_failure_count = 0, pc_cooldown_activated_nanos = 0\<rparr>"

definition is_in_cooldown :: "u64 \<Rightarrow> u64 \<Rightarrow> ProviderCooldown \<Rightarrow> bool" where
  "is_in_cooldown now_nanos cooldown_nanos pc =
     (let activated = pc_cooldown_activated_nanos pc
      in activated \<noteq> 0 \<and> saturating_sub now_nanos activated < cooldown_nanos)"

definition cooldown_record_failure :: "u32 \<Rightarrow> ProviderCooldown \<Rightarrow> bool \<times> ProviderCooldown" where
  "cooldown_record_failure threshold pc =
     (let prev = pc_failure_count pc
      in (prev + 1 \<ge> threshold, pc\<lparr>pc_failure_count := prev + 1\<rparr>))"

definition activate_cooldown :: "u64 \<Rightarrow> ProviderCooldown \<Rightarrow> ProviderCooldown" where
  "activate_cooldown now_nanos pc = pc\<lparr>pc_cooldown_activated_nanos := max now_nanos 1\<rparr>"

definition cooldown_reset :: "ProviderCooldown \<Rightarrow> ProviderCooldown" where
  "cooldown_reset pc = pc\<lparr>pc_failure_count := 0, pc_cooldown_activated_nanos := 0\<rparr>"

record FailoverProvider =
  fo_last_used :: nat
  fo_cooldowns :: "ProviderCooldown list"
  fo_config :: CooldownConfig

definition failover_with_cooldown :: "nat \<Rightarrow> CooldownConfig \<Rightarrow> LlmError + FailoverProvider" where
  "failover_with_cooldown n cfg =
     (if n = 0
      then Inl (RequestFailed ''failover'' ''FailoverProvider requires at least one provider'')
      else Inr \<lparr>fo_last_used = 0, fo_cooldowns = replicate n cooldown_new, fo_config = cfg\<rparr>)"

text \<open>\<open>Iterator::min_by_key\<close>: the first index with the least key.\<close>

fun min_by_key :: "('a \<Rightarrow> 'k::linorder) \<Rightarrow> 'a list \<Rightarrow> 'a option" where
  "min_by_key key [] = None"
| "min_by_key key (x # xs) =
     (case min_by_key key xs of
        None \<Rightarrow> Some x
      | Some y \<Rightarrow> if key y < key x then Some y else Some x)"

text \<open>The providers to try, in order.\<close>

definition candidates :: "u64 \<Rightarrow> FailoverProvider \<Rightarrow> nat list" where
  "candidates now_nanos fo =
     (let cooldown_nanos = of_nat (cc_cooldown_duration (fo_config fo)) :: u64;
          n = length (fo_cooldowns fo);
          available = filter (\<lambda>i. \<not> is_in_cooldown now_nanos cooldown_nanos (fo_cooldowns fo ! i)) [0..<n]
      in if available = []
         then (case min_by_key (\<lambda>i. pc_cooldown_activated_nanos (fo_cooldowns fo ! i)) [0..<n] of
                 Some oldest \<Rightarrow> [oldest] | None \<Rightarrow> [])
         else available)"

definition record_provider_failure :: "u64 \<Rightarrow> nat \<Rightarrow> FailoverProvider \<Rightarrow> FailoverProvider" where
  "record_provider_failure nanos i fo =
     (case cooldown_record_failure (cc_failure_threshold (fo_config fo)) (fo_cooldowns fo ! i) of
        (reached, pc) \<Rightarrow>
          fo\<lparr>fo_cooldowns := (fo_cooldowns fo)[i := (if reached then activate_cooldown nanos pc else pc)]\<rparr>)"

definition record_provider_success :: "nat \<Rightarrow> FailoverProvider \<Rightarrow> FailoverProvider" where
  "record_provider_success i fo =
     fo\<lparr>fo_last_used := i, fo_cooldowns := (fo_cooldowns fo)[i := cooldown_reset (fo_cooldowns fo ! i)]\<rparr>"

definition exhausted_error :: LlmError where
  "exhausted_error = RequestFailed ''failover''
     ''Invariant violated in FailoverProvider: providers were exhausted but no last_error was recorded (this branch should be unreachable; possible causes: no provider attempts were made or `available` was unexpectedly empty).''"

fun try_loop ::
    "(nat \<Rightarrow> u64) \<Rightarrow> (nat \<Rightarrow> ('s, 'r) operation) \<Rightarrow> LlmError option \<Rightarrow> nat list \<Rightarrow> FailoverProvider \<times> 's \<Rightarrow>
       (LlmError + nat \<times> 'r) \<times> FailoverProvider \<times> 's" where
  "try_loop nanos call last_error [] st =
     (Inl (case last_error of Some e \<Rightarrow> e | None \<Rightarrow> exhausted_error), st)"
| "try_loop nanos call last_error (i # is) st =
     (case st of (fo, s) \<Rightarrow>
       (case call i s of
          (Inr response, s) \<Rightarrow> (Inr (i, response), record_provider_success i fo, s)
        | (Inl err, s) \<Rightarrow>
            if \<not> is_retryable err then (Inl err, fo, s)
            else try_loop nanos call (Some err) is (record_provider_failure (nanos i) i fo, s)))"

definition try_providers ::
    "u64 \<Rightarrow> (nat \<Rightarrow> u64) \<Rightarrow> (nat \<Rightarrow> ('s, 'r) operation) \<Rightarrow> FailoverProvider \<times> 's \<Rightarrow>
       (LlmError + nat \<times> 'r) \<times> FailoverProvider \<times> 's" where
  "try_providers now_nanos nanos call st =
     (case st of (fo, s) \<Rightarrow>
       (case candidates now_nanos fo of
          [] \<Rightarrow> (Inl (RequestFailed ''failover'' ''FailoverProvider requires at least one provider''), fo, s)
        | c # cs \<Rightarrow> try_loop nanos call None (c # cs) (fo, s)))"

text \<open>\<open>complete\<close> and \<open>complete_with_tools\<close>: the request goes to provider \<open>i\<close> as \<open>inner (i, q)\<close>.\<close>

definition failover_complete ::
    "u64 \<Rightarrow> (nat \<Rightarrow> u64) \<Rightarrow> (nat \<times> 'q \<Rightarrow> ('s, 'r) operation) \<Rightarrow> 'q \<Rightarrow> (FailoverProvider \<times> 's, 'r) operation" where
  "failover_complete now_nanos nanos inner request st =
     (case try_providers now_nanos nanos (\<lambda>i. inner (i, request)) st of
        (Inr (i, response), st) \<Rightarrow> (Inr response, st)
      | (Inl e, st) \<Rightarrow> (Inl e, st))"

subsection \<open>The order of attempts\<close>

lemma min_by_key_least:
  "xs \<noteq> [] \<Longrightarrow> \<exists>x \<in> set xs. min_by_key key xs = Some x \<and> (\<forall>y \<in> set xs. key x \<le> key y)"
proof (induction xs)
  case (Cons x xs)
  then show ?case by (cases "xs = []") (fastforce split: option.splits)+
qed simp

lemma candidates_nonempty: "fo_cooldowns fo \<noteq> [] \<Longrightarrow> candidates now fo \<noteq> []"
  using min_by_key_least [of "[0..<length (fo_cooldowns fo)]" "\<lambda>i. pc_cooldown_activated_nanos (fo_cooldowns fo ! i)"]
  by (auto simp: candidates_def Let_def)

text \<open>
  Also: With at least one provider there is always one to try. The providers tried are the
  ones not in cooldown, in the order of configuration; only when all are in cooldown a single one is
  tried, one whose cooldown started first.
\<close>

theorem candidates_spec:
  assumes "fo_cooldowns fo \<noteq> []"
  shows "candidates now fo \<noteq> [] \<and> sorted (candidates now fo) \<and> distinct (candidates now fo) \<and>
    (let cool = (\<lambda>i. is_in_cooldown now (of_nat (cc_cooldown_duration (fo_config fo))) (fo_cooldowns fo ! i));
         n = length (fo_cooldowns fo)
     in if \<exists>i < n. \<not> cool i
        then set (candidates now fo) = {i. i < n \<and> \<not> cool i}
        else \<exists>i < n. candidates now fo = [i] \<and>
          (\<forall>j < n. pc_cooldown_activated_nanos (fo_cooldowns fo ! i) \<le> pc_cooldown_activated_nanos (fo_cooldowns fo ! j)))"
proof -
  let ?n = "length (fo_cooldowns fo)"
  let ?cool = "\<lambda>i. is_in_cooldown now (of_nat (cc_cooldown_duration (fo_config fo))) (fo_cooldowns fo ! i)"
  let ?av = "filter (\<lambda>i. \<not> ?cool i) [0..<?n]"
  have empty: "?av = [] \<longleftrightarrow> \<not> (\<exists>i < ?n. \<not> ?cool i)" by (auto simp: filter_empty_conv)
  obtain x where x: "x < ?n" "min_by_key (\<lambda>i. pc_cooldown_activated_nanos (fo_cooldowns fo ! i)) [0..<?n] = Some x"
    "\<forall>y < ?n. pc_cooldown_activated_nanos (fo_cooldowns fo ! x) \<le> pc_cooldown_activated_nanos (fo_cooldowns fo ! y)"
    using min_by_key_least [of "[0..<?n]" "\<lambda>i. pc_cooldown_activated_nanos (fo_cooldowns fo ! i)"] assms by auto
  have c: "candidates now fo = (if ?av = [] then [x] else ?av)"
    by (simp add: candidates_def Let_def x(2))
  show ?thesis
  proof (cases "?av = []")
    case True
    then show ?thesis using c x empty by (auto simp: Let_def)
  next
    case False
    then have "set (candidates now fo) = {i. i < ?n \<and> \<not> ?cool i}" using c by auto
    with False c empty show ?thesis by (simp add: Let_def sorted_wrt_filter)
  qed
qed

definition demo_failover :: FailoverProvider where
  "demo_failover = \<lparr>fo_last_used = 0,
     fo_cooldowns = [\<lparr>pc_failure_count = 3, pc_cooldown_activated_nanos = 50\<rparr>, cooldown_new],
     fo_config = \<lparr>cc_cooldown_duration = 1000, cc_failure_threshold = 3\<rparr>\<rparr>"

lemma demo_failover_cool:
  "is_in_cooldown 100 (of_nat (cc_cooldown_duration (fo_config demo_failover))) (fo_cooldowns demo_failover ! 0)"
  "\<not> is_in_cooldown 100 (of_nat (cc_cooldown_duration (fo_config demo_failover))) (fo_cooldowns demo_failover ! 1)"
  "length (fo_cooldowns demo_failover) = 2"
  by (simp_all add: demo_failover_def is_in_cooldown_def saturating_sub_def cooldown_new_def)

lemma demo_failover_candidates: "candidates 100 demo_failover = [1]"
proof -
  have "[0..<2] = [0 :: nat, 1]" by (simp add: upt_conv_Cons)
  then show ?thesis using demo_failover_cool by (simp add: candidates_def Let_def)
qed

theorem candidates_spec_witness: "set (candidates 100 demo_failover) = {1}"
proof -
  have ne: "fo_cooldowns demo_failover \<noteq> []" by (simp add: demo_failover_def)
  note cool = demo_failover_cool(1,2) and n = demo_failover_cool(3)
  have eq: "{i. i < 2 \<and> \<not> is_in_cooldown 100 (of_nat (cc_cooldown_duration (fo_config demo_failover)))
      (fo_cooldowns demo_failover ! i)} = {1}"
    using cool by (auto simp: less_2_cases_iff)
  have ex: "\<exists>i < 2. \<not> is_in_cooldown 100 (of_nat (cc_cooldown_duration (fo_config demo_failover)))
      (fo_cooldowns demo_failover ! i)"
    using cool(2) by (intro exI [of _ 1]) simp
  note spec = candidates_spec [OF ne, of 100, THEN conjunct2, THEN conjunct2, THEN conjunct2]
  from spec [unfolded Let_def n if_P [OF ex]] eq show ?thesis by (rule trans)
qed

subsection \<open>The outcome of a request\<close>

text \<open>The shared state after the calls to the providers of a list.\<close>

fun calls_state :: "(nat \<Rightarrow> ('s, 'r) operation) \<Rightarrow> nat list \<Rightarrow> 's \<Rightarrow> 's" where
  "calls_state call [] s = s"
| "calls_state call (i # is) s = calls_state call is (snd (call i s))"

definition all_transient :: "(nat \<Rightarrow> ('s, 'r) operation) \<Rightarrow> nat list \<Rightarrow> 's \<Rightarrow> bool" where
  "all_transient call is s =
     (\<forall>k < length is. transient (fst (call (is ! k) (calls_state call (take k is) s))))"

lemma all_transient_Cons:
  "all_transient call (i # is) s \<longleftrightarrow> transient (fst (call i s)) \<and> all_transient call is (snd (call i s))"
  by (auto simp: all_transient_def All_less_Suc2)

lemma try_loop_outcome:
  assumes "try_loop nanos call le is (fo, s) = (r, fo', s')"
  shows "(all_transient call is s \<and> s' = calls_state call is s \<and>
      (\<exists>e. r = Inl e \<and> (if is = [] then e = (case le of Some e \<Rightarrow> e | None \<Rightarrow> exhausted_error)
         else fst (call (last is) (calls_state call (butlast is) s)) = Inl e))) \<or>
    (\<exists>pre i post out. is = pre @ i # post \<and> all_transient call pre s \<and>
      call i (calls_state call pre s) = (out, s') \<and> \<not> transient out \<and>
      (case out of Inr x \<Rightarrow> r = Inr (i, x) \<and> fo_last_used fo' = i | Inl e \<Rightarrow> r = Inl e))"
  using assms
proof (induction nanos call le "is" "(fo, s)" arbitrary: fo s rule: try_loop.induct)
  case (1 nanos call le fo s)
  then show ?case by (auto simp: all_transient_def)
next
  case (2 nanos call le i "is" fo s)
  obtain out s1 where out: "call i s = (out, s1)" by fastforce
  show ?case
  proof (cases "transient out")
    case False
    have "[] @ i # is = i # is" "all_transient call [] s" by (simp_all add: all_transient_def)
    moreover have "case out of Inr x \<Rightarrow> r = Inr (i, x) \<and> fo_last_used fo' = i | Inl e \<Rightarrow> r = Inl e" "s' = s1"
      using "2.prems" out False by (auto simp: transient_def record_provider_success_def split: sum.splits)
    ultimately show ?thesis using False out
      by (intro disjI2 exI [of _ "[]"] exI [of _ i] exI [of _ "is"] exI [of _ out]) simp
  next
    case True
    then obtain e where e: "out = Inl e" "is_retryable e" by (auto simp: transient_def split: sum.splits)
    have "try_loop nanos call (Some e) is (record_provider_failure (nanos i) i fo, s1) = (r, fo', s')"
      using "2.prems" out e by simp
    from "2.hyps" [OF refl out [symmetric] e(1) _ this] e(2)
    consider (all) "all_transient call is s1" "s' = calls_state call is s1"
        "\<exists>e'. r = Inl e' \<and> (if is = [] then e' = e
           else fst (call (last is) (calls_state call (butlast is) s1)) = Inl e')"
      | (stop) pre j post o2 where "is = pre @ j # post" "all_transient call pre s1"
        "call j (calls_state call pre s1) = (o2, s')" "\<not> transient o2"
        "case o2 of Inr x \<Rightarrow> r = Inr (j, x) \<and> fo_last_used fo' = j | Inl e \<Rightarrow> r = Inl e"
      unfolding option.case by blast
    then show ?thesis
    proof cases
      case all
      then show ?thesis using True out e by (auto simp: all_transient_Cons split: if_splits)
    next
      case stop
      then show ?thesis using True out
        by (intro disjI2 exI [of _ "i # pre"] exI [of _ j] exI [of _ post] exI [of _ o2])
           (auto simp: all_transient_Cons)
    qed
  qed
qed

text \<open>
  Also: A request with at least one provider configured is answered by the first provider to
  be tried whose call does not fail retryably: its response is returned and it is remembered as
  the last one used, or its error is returned when it is not retryable and no further provider is
  asked. When all fail retryably, the error of the last one tried is returned.
\<close>

theorem failover_first_answer:
  assumes "fo_cooldowns fo \<noteq> []" and "try_providers now nanos call (fo, s) = (r, fo', s')"
  shows "(all_transient call (candidates now fo) s \<and>
      (\<exists>e. r = Inl e \<and>
        fst (call (last (candidates now fo)) (calls_state call (butlast (candidates now fo)) s)) = Inl e)) \<or>
    (\<exists>pre i post out. candidates now fo = pre @ i # post \<and> all_transient call pre s \<and>
      call i (calls_state call pre s) = (out, s') \<and> \<not> transient out \<and>
      (case out of Inr x \<Rightarrow> r = Inr (i, x) \<and> fo_last_used fo' = i | Inl e \<Rightarrow> r = Inl e))"
proof -
  have ne: "candidates now fo \<noteq> []" by (rule candidates_nonempty [OF assms(1)])
  then have "try_loop nanos call None (candidates now fo) (fo, s) = (r, fo', s')"
    using assms(2) by (simp add: try_providers_def split: list.splits)
  from try_loop_outcome [OF this, unfolded if_not_P [OF ne]] show ?thesis by blast
qed

theorem failover_first_answer_witness:
  "fst (try_providers 100 (\<lambda>_. 0) (\<lambda>i s. (Inr ''hi'', s + i)) (demo_failover, 0 :: nat)) = Inr (1, ''hi'')"
proof -
  let ?call = "\<lambda>i s. (Inr ''hi'' :: LlmError + string, s + i) :: (LlmError + string) \<times> nat"
  obtain r fo' s' where run: "try_providers 100 (\<lambda>_. 0) ?call (demo_failover, 0) = (r, fo', s')"
    using prod_cases3 by blast
  have ne: "fo_cooldowns demo_failover \<noteq> []" by (simp add: demo_failover_def)
  note c = demo_failover_candidates
  from failover_first_answer [OF ne run] have "r = Inr (1, ''hi'')"
    by (auto simp: c all_transient_def transient_def Cons_eq_append_conv)
  then show ?thesis using run by simp
qed

lemma try_loop_success:
  "try_loop nanos call le is (fo, s) = (Inr (i, x), fo', s') \<Longrightarrow> \<exists>s1. call i s1 = (Inr x, s')"
  by (induction "is" arbitrary: le fo s) (auto split: prod.splits sum.splits if_splits)

lemma failover_honest:
  assumes "failover_complete now nanos inner q st = (Inr r, st')"
  shows "\<exists>p \<in> {(i, q) | i. True}. \<exists>s s'. inner p s = (Inr r, s')"
proof -
  obtain fo s where st: "st = (fo, s)" by fastforce
  obtain i fo' s' where t: "try_providers now nanos (\<lambda>i. inner (i, q)) (fo, s) = (Inr (i, r), fo', s')"
    using assms by (auto simp: failover_complete_def st split: prod.splits sum.splits)
  then have "try_loop nanos (\<lambda>i. inner (i, q)) None (candidates now fo) (fo, s) = (Inr (i, r), fo', s')"
    by (auto simp: try_providers_def split: list.splits)
  from try_loop_success [OF this] show ?thesis by blast
qed

interpretation failing_over: honest_decorator "failover_complete now nanos" "\<lambda>q. {(i, q) | i. True}"
  by unfold_locales (rule failover_honest)

end
