(* ===== verification/Response_Cache.thy ===== *)
theory Response_Cache
  imports Circuit_Breaker Failover
begin

text \<open>
  The response cache around a provider: \<^verbatim>\<open>src/llm/response_cache.rs\<close>. The lookup before the inner call
  and the store after it are separate critical sections. The lemmas show that the cache never
  exceeds its capacity however the sections of concurrent requests interleave, and that every
  response it returns is one the provider gave for the same key within the time to live.

  SHA-256 and the JSON text of the messages are parameters of the key; the statistics log is left out.
\<close>

record ResponseCacheConfig =
  ch_ttl :: duration
  ch_max_entries :: nat

definition cache_config_default :: ResponseCacheConfig where
  "cache_config_default = \<lparr>ch_ttl = secs 3600, ch_max_entries = 1000\<rparr>"

record 'r CacheEntry =
  ce_response :: 'r
  ce_created_at :: instant
  ce_last_accessed :: instant
  ce_hit_count :: u64

type_synonym 'r cache = "(string \<times> 'r CacheEntry) list"

subsection \<open>Keys\<close>

definition to_le_bytes :: "u32 \<Rightarrow> string" where
  "to_le_bytes w = map (\<lambda>i. char_of (unat w div 256 ^ i mod 256)) [0, 1, 2, 3]"

definition option_bytes :: "u32 option \<Rightarrow> string" where
  "option_bytes x = (case x of Some w \<Rightarrow> to_le_bytes w | None \<Rightarrow> [])"

definition key_preimage :: "(ChatMessage list \<Rightarrow> string option) \<Rightarrow> string \<Rightarrow> CompletionRequest \<Rightarrow> string" where
  "key_preimage to_json model req =
     model @ ''|'' @
     (case to_json (cr_messages req) of Some j \<Rightarrow> j | None \<Rightarrow> []) @ ''|'' @
     option_bytes (cr_max_tokens req) @ ''|'' @
     option_bytes (cr_temperature req) @ ''|'' @
     (case cr_stop_sequences req of Some stops \<Rightarrow> concat (map (\<lambda>s. s @ [CHR 0x00]) stops) | None \<Rightarrow> [])"

definition cache_key ::
    "(string \<Rightarrow> string) \<Rightarrow> (ChatMessage list \<Rightarrow> string option) \<Rightarrow> string \<Rightarrow> CompletionRequest \<Rightarrow> string" where
  "cache_key sha256 to_json model req = sha256 (key_preimage to_json model req)"

subsection \<open>Lookup and store\<close>

definition cache_lookup :: "ResponseCacheConfig \<Rightarrow> instant \<Rightarrow> string \<Rightarrow> 'r cache \<Rightarrow> 'r option \<times> 'r cache" where
  "cache_lookup cfg now key c =
     (case map_of c key of
        None \<Rightarrow> (None, c)
      | Some entry \<Rightarrow>
          if now - ce_created_at entry < ch_ttl cfg
          then (Some (ce_response entry),
                AList.update key (entry\<lparr>ce_last_accessed := now, ce_hit_count := ce_hit_count entry + 1\<rparr>) c)
          else (None, AList.delete key c))"

definition oldest_key :: "'r cache \<Rightarrow> string option" where
  "oldest_key c = map_option fst (min_by_key (\<lambda>(_, e). ce_last_accessed e) c)"

lemma oldest_key_in: "oldest_key c = Some k \<Longrightarrow> k \<in> set (keys c)"
  using min_by_key_least [of c "\<lambda>(_, e). ce_last_accessed e"] by (cases "c = []") (force simp: oldest_key_def)+

lemma length_delete_less: "k \<in> set (keys m) \<Longrightarrow> length (AList.delete k m) < length m"
proof (induction m)
  case (Cons p m)
  then show ?case using length_delete_le [of k m] by (cases "fst p = k") (auto simp: less_Suc_eq_le)
qed simp

text \<open>The eviction loop.\<close>

function evict_lru :: "nat \<Rightarrow> 'r cache \<Rightarrow> 'r cache" where
  "evict_lru max_entries c =
     (if length c \<ge> max_entries
      then (case oldest_key c of Some k \<Rightarrow> evict_lru max_entries (AList.delete k c) | None \<Rightarrow> c)
      else c)"
  by pat_completeness auto
termination
  by (relation "measure (\<lambda>(n, c). length c)") (auto dest!: oldest_key_in intro: length_delete_less)

declare evict_lru.simps [simp del]

definition cache_store :: "ResponseCacheConfig \<Rightarrow> instant \<Rightarrow> string \<Rightarrow> 'r \<Rightarrow> 'r cache \<Rightarrow> 'r cache" where
  "cache_store cfg now key response c =
     (let c = filter (\<lambda>(_, e). now - ce_created_at e < ch_ttl cfg) c;
          c = evict_lru (ch_max_entries cfg) c
      in AList.update key \<lparr>ce_response = response, ce_created_at = now, ce_last_accessed = now, ce_hit_count = 0\<rparr> c)"

text \<open>
  \<open>complete\<close>, with the cache and the inner provider's state; \<open>key\<close> gives the key of a request and
  \<open>now\<close> the clock read at its start. \<open>complete_with_tools\<close> goes to the inner provider.
\<close>

definition cached_complete ::
    "ResponseCacheConfig \<Rightarrow> ('q \<Rightarrow> string) \<Rightarrow> instant \<Rightarrow> ('q \<Rightarrow> ('s, 'r) operation) \<Rightarrow> 'q \<Rightarrow> ('r cache \<times> 's, 'r) operation" where
  "cached_complete cfg key now inner request st =
     (case st of (c, s) \<Rightarrow>
       (case cache_lookup cfg now (key request) c of
          (Some response, c) \<Rightarrow> (Inr response, c, s)
        | (None, c) \<Rightarrow>
            (case inner request s of
               (Inl e, s) \<Rightarrow> (Inl e, c, s)
             | (Inr response, s) \<Rightarrow> (Inr response, cache_store cfg now (key request) response c, s))))"

definition cached_complete_with_tools ::
    "('q \<Rightarrow> ('s, 'r) operation) \<Rightarrow> 'q \<Rightarrow> ('c \<times> 's, 'r) operation" where
  "cached_complete_with_tools inner request st =
     (case st of (c, s) \<Rightarrow> (case inner request s of (r, s) \<Rightarrow> (r, c, s)))"

subsection \<open>Capacity\<close>

datatype 'r cache_event = Lookup instant string | Store instant string 'r | ClearAll

fun cache_step :: "ResponseCacheConfig \<Rightarrow> 'r cache_event \<Rightarrow> 'r cache \<Rightarrow> 'r cache" where
  "cache_step cfg (Lookup now k) c = snd (cache_lookup cfg now k c)"
| "cache_step cfg (Store now k r) c = cache_store cfg now k r c"
| "cache_step cfg ClearAll c = []"

definition cache_inv :: "ResponseCacheConfig \<Rightarrow> 'r cache \<Rightarrow> bool" where
  "cache_inv cfg c = (distinct (keys c) \<and> length c \<le> max 1 (ch_max_entries cfg))"

lemma evict_lru_short: "length (evict_lru m c) \<le> m - 1"
proof (induction m c rule: evict_lru.induct)
  case (1 m c)
  show ?case
  proof (cases "oldest_key c")
    case None
    then have "c = []" using min_by_key_least [of c "\<lambda>(_, e). ce_last_accessed e"]
      by (auto simp: oldest_key_def)
    then show ?thesis by (subst evict_lru.simps) (simp add: oldest_key_def)
  next
    case (Some k)
    then show ?thesis using "1.IH" by (subst evict_lru.simps) auto
  qed
qed

lemma evict_lru_subset: "set (evict_lru m c) \<subseteq> set c"
proof (induction m c rule: evict_lru.induct)
  case (1 m c)
  have "set (AList.delete k c) \<subseteq> set c" for k by (auto simp: AList.delete_eq)
  with "1.IH" show ?case
    by (subst evict_lru.simps) (cases "oldest_key c"; simp; blast dest: order_trans)
qed

lemma evict_lru_distinct: "distinct (keys c) \<Longrightarrow> distinct (keys (evict_lru m c))"
proof (induction m c rule: evict_lru.induct)
  case (1 m c)
  then show ?case by (subst evict_lru.simps) (auto split: option.split)
qed

lemma length_update_le: "length (AList.update k v m) \<le> Suc (length m)"
  by (induction m) auto

lemma length_update_hit: "k \<in> set (keys m) \<Longrightarrow> length (AList.update k v m) = length m"
  by (induction m) auto

lemma cache_store_inv: "cache_inv cfg c \<Longrightarrow> cache_inv cfg (cache_store cfg now k r c)"
proof -
  assume inv: "cache_inv cfg c"
  let ?f = "filter (\<lambda>(_, e). now - ce_created_at e < ch_ttl cfg) c"
  let ?e = "evict_lru (ch_max_entries cfg) ?f"
  have "distinct (keys ?f)" using inv by (simp add: cache_inv_def distinct_map_filter)
  then have d: "distinct (keys ?e)" by (rule evict_lru_distinct)
  have "length (AList.update k v ?e) \<le> max 1 (ch_max_entries cfg)" for v
    using length_update_le [of k v ?e] evict_lru_short [of "ch_max_entries cfg" ?f] by linarith
  with d show ?thesis by (simp add: cache_inv_def cache_store_def Let_def)
qed

lemma cache_lookup_inv: "cache_inv cfg c \<Longrightarrow> cache_inv cfg (snd (cache_lookup cfg now k c))"
proof -
  assume inv: "cache_inv cfg c"
  have "length (AList.delete k c) \<le> length c" by (rule length_delete_le)
  moreover have "length (AList.update k v c) = length c" if "map_of c k = Some w" for v w
    using that by (intro length_update_hit) (force dest: map_of_SomeD)
  ultimately show ?thesis
    using inv by (auto simp: cache_inv_def cache_lookup_def split: option.split)
qed

interpretation cache: event_machine "cache_step cfg" "cache_inv cfg"
proof
  fix c :: "'r cache" and e assume "cache_inv cfg c"
  then show "cache_inv cfg (cache_step cfg e c)"
    by (cases e) (simp_all add: cache_lookup_inv cache_store_inv, simp add: cache_inv_def)
qed

text \<open>
  Also: However lookups, stores and clears of concurrent requests interleave, the cache holds
  at most the configured number of entries (one, when zero are configured), one per key.
\<close>

theorem cache_bounded:
  "length (fold (cache_step cfg) es []) \<le> max 1 (ch_max_entries cfg) \<and>
   distinct (keys (fold (cache_step cfg) es []))"
proof -
  have "cache_inv cfg []" by (simp add: cache_inv_def)
  from cache.run_inv [OF this, of es] show ?thesis by (simp add: cache_inv_def)
qed

subsection \<open>What the cache returns\<close>

text \<open>
  A run of requests: for each one the time, the request, the result, and whether the inner
  provider was asked.
\<close>

fun cached_trace ::
    "ResponseCacheConfig \<Rightarrow> ('q \<Rightarrow> string) \<Rightarrow> ('q \<Rightarrow> ('s, 'r) operation) \<Rightarrow> (instant \<times> 'q) list \<Rightarrow> 'r cache \<times> 's \<Rightarrow>
       (instant \<times> 'q \<times> (LlmError + 'r) \<times> bool) list" where
  "cached_trace cfg key inner [] st = []"
| "cached_trace cfg key inner ((now, q) # rs) st =
     (case cached_complete cfg key now inner q st of (r, st') \<Rightarrow>
        (now, q, r, fst (cache_lookup cfg now (key q) (fst st)) = None) # cached_trace cfg key inner rs st')"

text \<open>Every entry holds an answer of the history \<open>H\<close>.\<close>

definition cache_from :: "(instant \<times> string \<times> 'r) set \<Rightarrow> 'r cache \<Rightarrow> bool" where
  "cache_from H c = (\<forall>(k, e) \<in> set c. (ce_created_at e, k, ce_response e) \<in> H)"

lemma in_set_update: "(k', v') \<in> set (AList.update k v m) \<Longrightarrow> (k' = k \<and> v' = v) \<or> (k', v') \<in> set m"
  by (induction m) (auto split: if_splits)

lemma cache_lookup_from: "cache_from H c \<Longrightarrow> cache_from H (snd (cache_lookup cfg now k c))"
  using map_of_SomeD [of c k]
  by (fastforce simp: cache_from_def cache_lookup_def AList.delete_eq split: option.split if_splits
      dest!: in_set_update)

lemma cache_store_from: "cache_from H c \<Longrightarrow> cache_from (insert (now, k, r) H) (cache_store cfg now k r c)"
  using evict_lru_subset [of "ch_max_entries cfg" "filter (\<lambda>(_, e). now - ce_created_at e < ch_ttl cfg) c"]
  by (fastforce simp: cache_from_def cache_store_def Let_def dest!: in_set_update)

lemma cached_complete_hit:
  assumes "fst (cache_lookup cfg now (key q) c) \<noteq> None" and "cache_from H c"
  shows "\<exists>r c' t. cached_complete cfg key now inner q (c, s) = (Inr r, c', s) \<and> cache_from H c' \<and>
    (t, key q, r) \<in> H \<and> now - t < ch_ttl cfg"
proof -
  obtain e where e: "map_of c (key q) = Some e" "now - ce_created_at e < ch_ttl cfg"
    using assms(1) by (auto simp: cache_lookup_def split: option.splits if_splits)
  have "(ce_created_at e, key q, ce_response e) \<in> H"
    using map_of_SomeD [OF e(1)] assms(2) by (auto simp: cache_from_def)
  moreover have "cached_complete cfg key now inner q (c, s) =
      (Inr (ce_response e), snd (cache_lookup cfg now (key q) c), s)"
    using e by (simp add: cached_complete_def cache_lookup_def)
  ultimately show ?thesis using cache_lookup_from [OF assms(2)] e(2) by blast
qed

lemma cached_complete_miss:
  assumes "fst (cache_lookup cfg now (key q) c) = None" and "cache_from H c"
    and "cached_complete cfg key now inner q (c, s) = (r, c', s')"
  shows "r = fst (inner q s) \<and> s' = snd (inner q s) \<and>
    cache_from (case r of Inr x \<Rightarrow> insert (now, key q, x) H | Inl _ \<Rightarrow> H) c'"
proof -
  obtain c1 where c1: "cache_lookup cfg now (key q) c = (None, c1)" using assms(1) by (metis prod.collapse)
  have "cache_from H c1" using cache_lookup_from [OF assms(2), of cfg now "key q"] c1 by simp
  with assms(3) c1 show ?thesis
    by (auto simp: cached_complete_def cache_store_from split: prod.splits sum.splits)
qed

lemma cached_trace_fresh:
  assumes "cache_from H c" and "i < length (cached_trace cfg key inner rs (c, s))"
    and "cached_trace cfg key inner rs (c, s) ! i = (now, q, Inr r, asked)"
  shows "(\<exists>t. (t, key q, r) \<in> H \<and> now - t < ch_ttl cfg) \<or>
    (\<exists>j \<le> i. \<exists>t q'. cached_trace cfg key inner rs (c, s) ! j = (t, q', Inr r, True) \<and> key q' = key q \<and>
      (j = i \<or> now - t < ch_ttl cfg))"
  using assms
proof (induction rs arbitrary: c s i H)
  case (Cons p rs)
  obtain now0 q0 where p: "p = (now0, q0)" by (cases p)
  obtain r0 c1 s1 where step: "cached_complete cfg key now0 inner q0 (c, s) = (r0, c1, s1)" using prod_cases3 by blast
  define asked0 where "asked0 = (fst (cache_lookup cfg now0 (key q0) c) = None)"
  have tr: "cached_trace cfg key inner (p # rs) (c, s) = (now0, q0, r0, asked0) # cached_trace cfg key inner rs (c1, s1)"
    by (simp add: p step asked0_def)
  show ?case
  proof (cases i)
    case 0
    then have first: "now0 = now" "q0 = q" "r0 = Inr r" using Cons.prems(3) tr by auto
    show ?thesis
    proof (cases asked0)
      case True
      then show ?thesis using first 0 tr by (intro disjI2 exI [of _ 0]) auto
    next
      case False
      from cached_complete_hit [of cfg now0 key q0 c H inner s, OF False [unfolded asked0_def] Cons.prems(1)] step first
      show ?thesis by auto
    qed
  next
    case (Suc i')
    have tail: "i' < length (cached_trace cfg key inner rs (c1, s1))"
      "cached_trace cfg key inner rs (c1, s1) ! i' = (now, q, Inr r, asked)"
      using Cons.prems(2,3) tr Suc by auto
    define H1 where "H1 = (if asked0 then (case r0 of Inr x \<Rightarrow> insert (now0, key q0, x) H | Inl _ \<Rightarrow> H) else H)"
    have from1: "cache_from H1 c1"
    proof (cases asked0)
      case True
      then show ?thesis using cached_complete_miss [of cfg now0 key q0 c H inner s, OF _ Cons.prems(1) step] by (auto simp: H1_def asked0_def)
    next
      case False
      then show ?thesis using cached_complete_hit [of cfg now0 key q0 c H inner s, OF False [unfolded asked0_def] Cons.prems(1)] step
        by (auto simp: H1_def)
    qed
    from Cons.IH [OF from1 tail]
    consider t where "(t, key q, r) \<in> H1" "now - t < ch_ttl cfg"
      | j t q' where "j \<le> i'" "cached_trace cfg key inner rs (c1, s1) ! j = (t, q', Inr r, True)" "key q' = key q"
        "j = i' \<or> now - t < ch_ttl cfg" by blast
    then show ?thesis
    proof cases
      case 1
      then consider "(t, key q, r) \<in> H" | "asked0" "r0 = Inr r" "t = now0" "key q = key q0"
        by (auto simp: H1_def split: if_splits sum.splits)
      then show ?thesis
      proof cases
        case 1
        then show ?thesis using \<open>now - t < ch_ttl cfg\<close> by blast
      next
        case 2
        then show ?thesis using \<open>now - t < ch_ttl cfg\<close> tr Suc
          by (intro disjI2 exI [of _ 0]) auto
      qed
    next
      case 2
      then show ?thesis using tr Suc by (intro disjI2 exI [of _ "Suc j"]) auto
    qed
  qed
qed simp

text \<open>
  Also: In every run of requests over an empty cache, each response returned is one the inner
  provider itself gave in this run, to this request or to an earlier one with the same key less than
  the time to live ago.
\<close>

theorem cached_responses_fresh:
  assumes "i < length (cached_trace cfg key inner rs ([], s))"
    and "cached_trace cfg key inner rs ([], s) ! i = (now, q, Inr r, asked)"
  shows "\<exists>j \<le> i. \<exists>t q'. cached_trace cfg key inner rs ([], s) ! j = (t, q', Inr r, True) \<and> key q' = key q \<and>
      (j = i \<or> now - t < ch_ttl cfg)"
  using cached_trace_fresh [OF _ assms, of "{}"] by (simp add: cache_from_def)

definition demo_trace :: "(instant \<times> string \<times> (LlmError + nat) \<times> bool) list" where
  "demo_trace = cached_trace \<lparr>ch_ttl = 100, ch_max_entries = 5\<rparr> (\<lambda>q. q) (\<lambda>q s. (Inr s, s + 1))
     [(10, ''a''), (20, ''a''), (200, ''a'')] ([], 7 :: nat)"

lemma demo_trace_eval:
  "demo_trace = [(10, ''a'', Inr 7, True), (20, ''a'', Inr 7, False), (200, ''a'', Inr 8, True)]"
  by (simp add: demo_trace_def cached_complete_def cache_lookup_def cache_store_def evict_lru.simps)

theorem cached_responses_fresh_witness:
  "\<exists>j \<le> 1. \<exists>t q'. demo_trace ! j = (t, q', Inr 7, True) \<and> q' = ''a'' \<and> (j = 1 \<or> 20 - t < 100)"
proof -
  have "1 < length demo_trace" and "demo_trace ! 1 = (20, ''a'', Inr 7, False)"
    by (simp_all add: demo_trace_eval)
  from cached_responses_fresh [OF this [unfolded demo_trace_def]] show ?thesis
    unfolding demo_trace_def by simp
qed

subsection \<open>Keys that coincide\<close>

text \<open>
  The key does not separate stop sequences that contain the byte which ends them in the hash input:
  two requests with different stop sequences share a key, whatever the hash function.
\<close>

lemma cache_key_stop_sequences_collide:
  "cache_key sha256 to_json m (req\<lparr>cr_stop_sequences := Some [''a'', ''b'']\<rparr>) =
   cache_key sha256 to_json m (req\<lparr>cr_stop_sequences := Some [''a'' @ [CHR 0x00] @ ''b'']\<rparr>)"
  by (simp add: cache_key_def key_preimage_def)

end
