(* ===== verification/Provider_Chain.thy ===== *)
theory Provider_Chain
  imports Response_Cache
begin

text \<open>
  The chain of decorators around the raw providers: \<open>build_provider_chain\<close> of \<^verbatim>\<open>src/llm/mod.rs\<close>,
  with each layer present or absent as the configuration says. Smart routing and the recording of
  traces are taken as disabled (no cheap model, no recording directory), and provider \<open>0\<close> is the
  primary model and provider \<open>1\<close> the fallback.

  A request carries the instants at which the layers read their clocks while it is processed: the
  check and the record of the breaker, the start of the failover and the record of a failure of
  each provider.
\<close>

record NearAiConfig =
  na_fallback_model :: "string option"
  na_max_retries :: u32
  na_circuit_breaker_threshold :: "u32 option"
  na_circuit_breaker_recovery_secs :: nat
  na_response_cache_enabled :: bool
  na_response_cache_ttl_secs :: nat
  na_response_cache_max_entries :: nat
  na_failover_cooldown_secs :: nat
  na_failover_cooldown_threshold :: u32

type_synonym chain_clock = "instant \<times> instant \<times> u64 \<times> (nat \<Rightarrow> u64)"

definition retry_layer ::
    "NearAiConfig \<Rightarrow> (nat \<Rightarrow> duration) \<Rightarrow> ('q \<Rightarrow> ('s, 'r) operation) \<Rightarrow> 'q \<Rightarrow> ('s, 'r) operation" where
  "retry_layer cfg backoff raw =
     (if 0 < na_max_retries cfg then retry_complete \<lparr>rc_max_retries = na_max_retries cfg\<rparr> backoff raw else raw)"

definition failover_layer ::
    "NearAiConfig \<Rightarrow> u64 \<Rightarrow> (nat \<Rightarrow> u64) \<Rightarrow> (nat \<times> 'q \<Rightarrow> ('s, 'r) operation) \<Rightarrow> 'q \<Rightarrow>
       (FailoverProvider \<times> 's, 'r) operation" where
  "failover_layer cfg now_nanos nanos inner request st =
     (case na_fallback_model cfg of
        Some _ \<Rightarrow> failover_complete now_nanos nanos inner request st
      | None \<Rightarrow> (case st of (fo, s) \<Rightarrow> (case inner (0, request) s of (r, s) \<Rightarrow> (r, fo, s))))"

definition breaker_layer ::
    "NearAiConfig \<Rightarrow> (duration \<Rightarrow> string) \<Rightarrow> string \<Rightarrow> instant \<Rightarrow> instant \<Rightarrow> ('q \<Rightarrow> ('s, 'r) operation) \<Rightarrow> 'q \<Rightarrow>
       (BreakerState \<times> 's, 'r) operation" where
  "breaker_layer cfg show_secs model t0 t1 inner request st =
     (case na_circuit_breaker_threshold cfg of
        Some threshold \<Rightarrow>
          breaker_complete
            (breaker_config_default
               \<lparr>bc_failure_threshold := threshold,
                bc_recovery_timeout := secs (na_circuit_breaker_recovery_secs cfg)\<rparr>)
            show_secs model t0 t1 inner request st
      | None \<Rightarrow> (case st of (bs, s) \<Rightarrow> (case inner request s of (r, s) \<Rightarrow> (r, bs, s))))"

definition cache_layer ::
    "NearAiConfig \<Rightarrow> ('q \<Rightarrow> string) \<Rightarrow> instant \<Rightarrow> ('q \<Rightarrow> ('s, 'r) operation) \<Rightarrow> 'q \<Rightarrow> ('r cache \<times> 's, 'r) operation" where
  "cache_layer cfg key now inner request st =
     (if na_response_cache_enabled cfg
      then cached_complete \<lparr>ch_ttl = secs (na_response_cache_ttl_secs cfg),
             ch_max_entries = na_response_cache_max_entries cfg\<rparr> key now inner request st
      else (case st of (c, s) \<Rightarrow> (case inner request s of (r, s) \<Rightarrow> (r, c, s))))"

text \<open>The layers below the cache, and the state of all layers when the chain is built.\<close>

definition guarded_complete ::
    "NearAiConfig \<Rightarrow> (nat \<Rightarrow> duration) \<Rightarrow> (duration \<Rightarrow> string) \<Rightarrow> string \<Rightarrow> (nat \<times> 'q \<Rightarrow> ('s, 'r) operation) \<Rightarrow>
     chain_clock \<times> 'q \<Rightarrow> (BreakerState \<times> FailoverProvider \<times> 's, 'r) operation" where
  "guarded_complete cfg backoff show_secs model raw request =
     (case request of ((t0, t1, now_nanos, nanos), q) \<Rightarrow>
        breaker_layer cfg show_secs model t0 t1
          (failover_layer cfg now_nanos nanos (retry_layer cfg backoff raw)) q)"

definition chain_complete ::
    "NearAiConfig \<Rightarrow> (nat \<Rightarrow> duration) \<Rightarrow> (duration \<Rightarrow> string) \<Rightarrow> string \<Rightarrow> ('q \<Rightarrow> string) \<Rightarrow>
     (nat \<times> 'q \<Rightarrow> ('s, 'r) operation) \<Rightarrow> instant \<Rightarrow> chain_clock \<times> 'q \<Rightarrow>
     ('r cache \<times> BreakerState \<times> FailoverProvider \<times> 's, 'r) operation" where
  "chain_complete cfg backoff show_secs model key raw now =
     cache_layer cfg (\<lambda>(clk, q). key q) now (guarded_complete cfg backoff show_secs model raw)"

definition build_provider_chain ::
    "NearAiConfig \<Rightarrow> 's \<Rightarrow> LlmError + 'r cache \<times> BreakerState \<times> FailoverProvider \<times> 's" where
  "build_provider_chain cfg s =
     (case failover_with_cooldown 2
        \<lparr>cc_cooldown_duration = secs (na_failover_cooldown_secs cfg),
         cc_failure_threshold = na_failover_cooldown_threshold cfg\<rparr> of
        Inl e \<Rightarrow> Inl e
      | Inr fo \<Rightarrow> Inr ([], breaker_new, fo, s))"

text \<open>A run of requests through the chain: each request with what it was answered.\<close>

fun chain_trace ::
    "(instant \<Rightarrow> chain_clock \<times> 'q \<Rightarrow> ('t, 'r) operation) \<Rightarrow> (instant \<times> chain_clock \<times> 'q) list \<Rightarrow> 't \<Rightarrow>
       ('q \<times> (LlmError + 'r)) list" where
  "chain_trace complete [] st = []"
| "chain_trace complete ((now, clk, q) # rs) st =
     (case complete now (clk, q) st of (r, st') \<Rightarrow> (q, r) # chain_trace complete rs st')"

subsection \<open>Every layer is honest\<close>

lemma retry_layer_honest:
  "retry_layer cfg backoff raw p s = (Inr r, s') \<Longrightarrow> \<exists>s s'. raw p s = (Inr r, s')"
  using retrying.from_inner [of "\<lparr>rc_max_retries = na_max_retries cfg\<rparr>" backoff raw p s r s']
  by (auto simp: retry_layer_def split: if_splits)

interpretation failover_layers: honest_decorator "failover_layer cfg now nanos" "\<lambda>q. {(i, q) | i. True}"
proof
  fix inner :: "nat \<times> 'q \<Rightarrow> ('s, 'r) operation" and q st r st'
  assume run: "failover_layer cfg now nanos inner q st = (Inr r, st')"
  show "\<exists>p \<in> {(i, q) | i. True}. \<exists>s s'. inner p s = (Inr r, s')"
  proof (cases "na_fallback_model cfg")
    case None
    then show ?thesis using run by (auto simp: failover_layer_def split: prod.splits)
  next
    case (Some m)
    then show ?thesis using run failing_over.from_inner [of now nanos inner q st r st'] by (simp add: failover_layer_def)
  qed
qed

interpretation breaker_layers: honest_decorator "breaker_layer cfg ss m t0 t1" "\<lambda>q. {q}"
proof
  fix inner :: "'q \<Rightarrow> ('s, 'r) operation" and q st r st'
  assume run: "breaker_layer cfg ss m t0 t1 inner q st = (Inr r, st')"
  show "\<exists>p \<in> {q}. \<exists>s s'. inner p s = (Inr r, s')"
  proof (cases "na_circuit_breaker_threshold cfg")
    case None
    then show ?thesis using run by (auto simp: breaker_layer_def split: prod.splits)
  next
    case (Some th)
    then show ?thesis using run
        breaking.from_inner [of "breaker_config_default\<lparr>bc_failure_threshold := th,
          bc_recovery_timeout := secs (na_circuit_breaker_recovery_secs cfg)\<rparr>" ss m t0 t1 inner q st r st']
      by (simp add: breaker_layer_def)
  qed
qed

lemma guarded_complete_honest:
  assumes "guarded_complete cfg backoff ss m raw (clk, q) st = (Inr r, st')"
  shows "\<exists>i s s'. raw (i, q) s = (Inr r, s')"
proof -
  obtain t0 t1 nn ns where clk: "clk = (t0, t1, nn, ns)" by (cases clk)
  have top: "breaker_layer cfg ss m t0 t1 (failover_layer cfg nn ns (retry_layer cfg backoff raw)) q st = (Inr r, st')"
    using assms by (simp add: guarded_complete_def clk)
  have mid: "\<exists>i s s'. raw (i, q) s = (Inr x, s')"
    if "failover_layer cfg nn ns (retry_layer cfg backoff raw) q u = (Inr x, u')" for x u u'
  proof (rule failover_layers.never_invents [OF _ that])
    fix p s r s' assume "p \<in> {(i, q) | i. True}" and "retry_layer cfg backoff raw p s = (Inr r, s')"
    then show "\<exists>i s s'. raw (i, q) s = (Inr r, s')"
      using retry_layer_honest [of cfg backoff raw p s r s'] by auto
  qed
  show ?thesis
    by (rule breaker_layers.never_invents [OF _ top]) (use mid in auto)
qed

subsection \<open>Runs of the whole chain\<close>

text \<open>The responses some raw provider gives to requests of \<open>Q\<close>, as histories of the cache.\<close>

definition raw_answers ::
    "('q \<Rightarrow> string) \<Rightarrow> (nat \<times> 'q \<Rightarrow> ('s, 'r) operation) \<Rightarrow> 'q set \<Rightarrow> (instant \<times> string \<times> 'r) set" where
  "raw_answers key raw Q = {(t, k, r). \<exists>p q s s'. q \<in> Q \<and> key q = k \<and> raw (p, q) s = (Inr r, s')}"

lemma raw_answers_mono: "Q \<subseteq> Q' \<Longrightarrow> raw_answers key raw Q \<subseteq> raw_answers key raw Q'"
  by (auto simp: raw_answers_def)

lemma cache_from_mono: "cache_from H c \<Longrightarrow> H \<subseteq> H' \<Longrightarrow> cache_from H' c"
  by (fastforce simp: cache_from_def)

lemma chain_complete_genuine:
  assumes run: "chain_complete cfg backoff ss m key raw now (clk, q) (c, u) = (r, c', u')"
    and cache: "cache_from (raw_answers key raw Q) c" and q: "q \<in> Q"
  shows "cache_from (raw_answers key raw Q) c' \<and> (\<forall>x. r = Inr x \<longrightarrow> (now, key q, x) \<in> raw_answers key raw Q)"
proof -
  let ?inner = "guarded_complete cfg backoff ss m raw" and ?key = "\<lambda>(clk, q). key q"
  let ?cc = "\<lparr>ch_ttl = secs (na_response_cache_ttl_secs cfg), ch_max_entries = na_response_cache_max_entries cfg\<rparr>"
  have asked: "(t, key q, x) \<in> raw_answers key raw Q" if "?inner (clk, q) u = (Inr x, v)" for x v t
    using guarded_complete_honest [OF that] q by (auto simp: raw_answers_def)
  consider (off) "\<not> na_response_cache_enabled cfg"
    | (hit) "na_response_cache_enabled cfg" "fst (cache_lookup ?cc now (?key (clk, q)) c) \<noteq> None"
    | (miss) "na_response_cache_enabled cfg" "fst (cache_lookup ?cc now (?key (clk, q)) c) = None" by blast
  then show ?thesis
  proof cases
    case off
    then have "c' = c" "?inner (clk, q) u = (r, u')"
      using run by (auto simp: chain_complete_def cache_layer_def split: prod.splits)
    with cache asked show ?thesis by blast
  next
    case hit
    from cached_complete_hit [of ?cc now ?key "(clk, q)" c, OF hit(2) cache, of ?inner u] run hit(1)
    show ?thesis by (auto simp: chain_complete_def cache_layer_def raw_answers_def)
  next
    case miss
    then have "cached_complete ?cc ?key now ?inner (clk, q) (c, u) = (r, c', u')"
      using run by (simp add: chain_complete_def cache_layer_def)
    from cached_complete_miss [of ?cc now ?key "(clk, q)" c, OF miss(2) cache this]
    have r: "?inner (clk, q) u = (r, u')"
      and c': "cache_from (case r of Inr x \<Rightarrow> insert (now, key q, x) (raw_answers key raw Q) | Inl _ \<Rightarrow> raw_answers key raw Q) c'"
      by auto
    show ?thesis
    proof (cases r)
      case (Inr x)
      from asked [OF r [unfolded Inr]] c' Inr show ?thesis by (auto simp: insert_absorb)
    qed (use c' in simp)
  qed
qed

lemma chain_trace_genuine:
  assumes "cache_from (raw_answers key raw Q) c"
    and "i < length rs"
    and "chain_trace (chain_complete cfg backoff ss m key raw) rs (c, u) ! i = (q, Inr r)"
  shows "\<exists>p q' s s'. q' \<in> Q \<union> (\<lambda>(_, _, q). q) ` set (take (Suc i) rs) \<and> key q' = key q \<and> raw (p, q') s = (Inr r, s')"
  using assms
proof (induction rs arbitrary: c u i Q)
  case (Cons x rs)
  obtain now clk q0 where x: "x = (now, clk, q0)" by (cases x)
  obtain r0 c1 u1 where step: "chain_complete cfg backoff ss m key raw now (clk, q0) (c, u) = (r0, c1, u1)"
    using prod_cases3 by blast
  have "cache_from (raw_answers key raw (insert q0 Q)) c"
    using Cons.prems(1) by (rule cache_from_mono) (rule raw_answers_mono, blast)
  from chain_complete_genuine [OF step this]
  have cache1: "cache_from (raw_answers key raw (insert q0 Q)) c1"
    and ans: "\<And>y. r0 = Inr y \<Longrightarrow> (now, key q0, y) \<in> raw_answers key raw (insert q0 Q)" by auto
  show ?case
  proof (cases i)
    case 0
    then have "q = q0" "r0 = Inr r" using Cons.prems(3) by (simp_all add: x step)
    with ans [of r] 0 show ?thesis by (auto simp: raw_answers_def x)
  next
    case (Suc i')
    from Cons.IH [OF cache1, of i' u1] Cons.prems Suc show ?thesis by (auto simp: x step)
  qed
qed simp

end
