(* ===== verification/Rate_Limiter.thy ===== *)
theory Rate_Limiter
  imports Prelude
begin

text \<open>
  The rate limiters of the program: the one for tools (\<^verbatim>\<open>src/tools/rate_limiter.rs\<close>), the one of the
  web gateway (\<^verbatim>\<open>src/channels/web/server.rs\<close>) and the one for messages emitted by channel modules
  (\<^verbatim>\<open>src/channels/wasm/host.rs\<close>). All three count in fixed windows. The interface \<open>fixed_window\<close>
  states what they have in common and shows, once, how many requests they admit in any interval of
  the length of a window; each limiter is an interpretation.

  Instants and durations are in nanoseconds for the first limiter; the other two read the wall
  clock in seconds and milliseconds.
\<close>

subsection \<open>The limiter for tools\<close>

datatype LimitType = PerMinute | PerHour

datatype RateLimitResult = Allowed u32 u32 | Limited duration LimitType

definition is_allowed :: "RateLimitResult \<Rightarrow> bool" where
  "is_allowed r = (case r of Allowed _ _ \<Rightarrow> True | Limited _ _ \<Rightarrow> False)"

record ToolRateLimitConfig =
  rl_requests_per_minute :: u32
  rl_requests_per_hour :: u32

definition tool_rate_limit_default :: ToolRateLimitConfig where
  "tool_rate_limit_default = \<lparr>rl_requests_per_minute = 60, rl_requests_per_hour = 1000\<rparr>"

record WindowState =
  ws_window_start :: instant
  ws_count :: u32

definition window_new :: "instant \<Rightarrow> WindowState" where
  "window_new now = \<lparr>ws_window_start = now, ws_count = 0\<rparr>"

definition maybe_reset :: "instant \<Rightarrow> duration \<Rightarrow> WindowState \<Rightarrow> WindowState" where
  "maybe_reset now d ws =
     (if now - ws_window_start ws \<ge> d then ws\<lparr>ws_window_start := now, ws_count := 0\<rparr> else ws)"

definition time_until_reset :: "instant \<Rightarrow> duration \<Rightarrow> WindowState \<Rightarrow> duration" where
  "time_until_reset now d ws =
     (let elapsed = now - ws_window_start ws in if elapsed \<ge> d then 0 else d - elapsed)"

record ToolRateLimitState =
  tl_minute_window :: WindowState
  tl_hour_window :: WindowState

definition tool_state_new :: "instant \<Rightarrow> ToolRateLimitState" where
  "tool_state_new now = \<lparr>tl_minute_window = window_new now, tl_hour_window = window_new now\<rparr>"

abbreviation minute :: duration where "minute \<equiv> secs 60"
abbreviation hour :: duration where "hour \<equiv> secs 3600"

text \<open>The decision for one entry of the map, and the operations on the map.\<close>

definition check_entry ::
    "instant \<Rightarrow> ToolRateLimitConfig \<Rightarrow> bool \<Rightarrow> ToolRateLimitState \<Rightarrow> RateLimitResult \<times> ToolRateLimitState" where
  "check_entry now config record_it ts =
     (let m = maybe_reset now minute (tl_minute_window ts);
          h = maybe_reset now hour (tl_hour_window ts);
          ts = ts\<lparr>tl_minute_window := m, tl_hour_window := h\<rparr>
      in if ws_count m \<ge> rl_requests_per_minute config
         then (Limited (time_until_reset now minute m) PerMinute, ts)
         else if ws_count h \<ge> rl_requests_per_hour config
         then (Limited (time_until_reset now hour h) PerHour, ts)
         else let m = (if record_it then m\<lparr>ws_count := ws_count m + 1\<rparr> else m);
                  h = (if record_it then h\<lparr>ws_count := ws_count h + 1\<rparr> else h)
              in (Allowed (rl_requests_per_minute config - ws_count m) (rl_requests_per_hour config - ws_count h),
                  ts\<lparr>tl_minute_window := m, tl_hour_window := h\<rparr>))"

type_synonym limiter = "((string \<times> string) \<times> ToolRateLimitState) list"

definition check_internal ::
    "instant \<Rightarrow> string \<Rightarrow> string \<Rightarrow> ToolRateLimitConfig \<Rightarrow> bool \<Rightarrow> limiter \<Rightarrow> RateLimitResult \<times> limiter" where
  "check_internal now user_id tool_name config record_it st =
     (let key = (user_id, tool_name);
          ts = (case map_of st key of Some ts \<Rightarrow> ts | None \<Rightarrow> tool_state_new now)
      in case check_entry now config record_it ts of (r, ts) \<Rightarrow> (r, AList.update key ts st))"

definition check_and_record ::
    "instant \<Rightarrow> string \<Rightarrow> string \<Rightarrow> ToolRateLimitConfig \<Rightarrow> limiter \<Rightarrow> RateLimitResult \<times> limiter" where
  "check_and_record now user_id tool_name config st = check_internal now user_id tool_name config True st"

definition check_only ::
    "instant \<Rightarrow> string \<Rightarrow> string \<Rightarrow> ToolRateLimitConfig \<Rightarrow> limiter \<Rightarrow> RateLimitResult \<times> limiter" where
  "check_only now user_id tool_name config st = check_internal now user_id tool_name config False st"

definition get_usage :: "string \<Rightarrow> string \<Rightarrow> limiter \<Rightarrow> (u32 \<times> u32) option" where
  "get_usage user_id tool_name st =
     map_option (\<lambda>ts. (ws_count (tl_minute_window ts), ws_count (tl_hour_window ts))) (map_of st (user_id, tool_name))"

definition clear_usage :: "string \<Rightarrow> string \<Rightarrow> limiter \<Rightarrow> limiter" where
  "clear_usage user_id tool_name st = AList.delete (user_id, tool_name) st"

definition clear_all_usage :: "limiter \<Rightarrow> limiter" where
  "clear_all_usage st = []"

subsection \<open>The limiter of the web gateway\<close>

record GatewayLimiter =
  gl_remaining :: u64
  gl_window_start :: u64
  gl_max_requests :: u64
  gl_window_secs :: u64

definition gateway_limiter_new :: "u64 \<Rightarrow> u64 \<Rightarrow> u64 \<Rightarrow> GatewayLimiter" where
  "gateway_limiter_new now max_requests window_secs =
     \<lparr>gl_remaining = max_requests, gl_window_start = now, gl_max_requests = max_requests, gl_window_secs = window_secs\<rparr>"

text \<open>One call that no other call interferes with: the compare-and-swap succeeds at once.\<close>

definition gateway_check :: "u64 \<Rightarrow> GatewayLimiter \<Rightarrow> bool \<times> GatewayLimiter" where
  "gateway_check now gl =
     (if saturating_sub now (gl_window_start gl) \<ge> gl_window_secs gl
      then (True, gl\<lparr>gl_window_start := now, gl_remaining := gl_max_requests gl - 1\<rparr>)
      else if gl_remaining gl = 0 then (False, gl)
      else (True, gl\<lparr>gl_remaining := gl_remaining gl - 1\<rparr>))"

subsection \<open>The limiter for emitted messages\<close>

record RateWindow =
  rw_count :: u32
  rw_window_start :: u64
  rw_window_duration_ms :: u64

definition rate_window_new :: "u64 \<Rightarrow> RateWindow" where
  "rate_window_new d = \<lparr>rw_count = 0, rw_window_start = 0, rw_window_duration_ms = d\<rparr>"

definition rate_window_check :: "u64 \<Rightarrow> u32 \<Rightarrow> RateWindow \<Rightarrow> bool \<times> RateWindow" where
  "rate_window_check now_ms limit rw =
     (let rw = (if saturating_sub now_ms (rw_window_start rw) > rw_window_duration_ms rw
                then rw\<lparr>rw_count := 0, rw_window_start := now_ms\<rparr> else rw)
      in if rw_count rw \<ge> limit then (False, rw) else (True, rw\<lparr>rw_count := rw_count rw + 1\<rparr>))"

record EmitLimiter =
  el_messages_per_minute :: u32
  el_messages_per_hour :: u32
  el_minute_window :: RateWindow
  el_hour_window :: RateWindow

definition emit_limiter_new :: "u32 \<Rightarrow> u32 \<Rightarrow> EmitLimiter" where
  "emit_limiter_new per_minute per_hour =
     \<lparr>el_messages_per_minute = per_minute, el_messages_per_hour = per_hour,
      el_minute_window = rate_window_new 60000, el_hour_window = rate_window_new 3600000\<rparr>"

definition emit_check :: "u64 \<Rightarrow> EmitLimiter \<Rightarrow> bool \<times> EmitLimiter" where
  "emit_check now el =
     (case rate_window_check now (el_messages_per_minute el) (el_minute_window el) of (minute_ok, m) \<Rightarrow>
      case rate_window_check now (el_messages_per_hour el) (el_hour_window el) of (hour_ok, h) \<Rightarrow>
        (minute_ok \<and> hour_ok, el\<lparr>el_minute_window := m, el_hour_window := h\<rparr>))"

subsection \<open>Fixed windows\<close>

text \<open>The times at which a run of requests is admitted.\<close>

fun admitted :: "(nat \<Rightarrow> 's \<Rightarrow> bool \<times> 's) \<Rightarrow> nat list \<Rightarrow> 's \<Rightarrow> nat list" where
  "admitted admit [] s = []"
| "admitted admit (t # ts) s =
     (case admit t s of (ok, s') \<Rightarrow> (if ok then [t] else []) @ admitted admit ts s')"

definition within :: "nat \<Rightarrow> nat \<Rightarrow> nat list \<Rightarrow> nat" where
  "within a b xs = length (filter (\<lambda>x. a \<le> x \<and> x < b) xs)"

lemma within_append [simp]: "within a b (xs @ ys) = within a b xs + within a b ys"
  by (simp add: within_def)

lemma within_Nil [simp]: "within a b [] = 0"
  by (simp add: within_def)

lemma within_single [simp]: "within a b [x] = (if a \<le> x \<and> x < b then 1 else 0)"
  by (simp add: within_def)

lemma within_split: "within a b xs \<le> within a m xs + within m b xs"
  by (induction xs) (auto simp: within_def)

lemma within_mono: "(\<And>x. x \<in> set xs \<Longrightarrow> a \<le> x \<Longrightarrow> x < b \<Longrightarrow> a' \<le> x \<and> x < b') \<Longrightarrow> within a b xs \<le> within a' b' xs"
  by (induction xs) (auto simp: within_def)

text \<open>
  At the times \<open>clock\<close> can show, a counter \<open>used\<close> of a window that starts at \<open>start\<close> and lasts \<open>width\<close>: a request is either counted in
  the current window or opens a new one, no earlier than the end of the old one.
\<close>

locale fixed_window =
  fixes clock :: "nat \<Rightarrow> bool" and admit :: "nat \<Rightarrow> 's \<Rightarrow> bool \<times> 's" and start :: "'s \<Rightarrow> nat" and used :: "'s \<Rightarrow> nat"
    and inv :: "'s \<Rightarrow> bool" and limit :: nat and width :: nat
  assumes bounded: "inv s \<Longrightarrow> used s \<le> limit"
    and step: "inv s \<Longrightarrow> clock t \<Longrightarrow> start s \<le> t \<Longrightarrow> admit t s = (ok, s') \<Longrightarrow> inv s' \<and>
      (start s' = start s \<and> t < start s + width \<and> used s + of_bool ok \<le> used s' \<or>
       start s' = t \<and> start s + width \<le> t \<and> of_bool ok \<le> used s')"
begin

text \<open>What is known of the requests \<open>H\<close> admitted so far.\<close>

definition history :: "nat list \<Rightarrow> 's \<Rightarrow> bool" where
  "history H s =
     (inv s \<and> (\<forall>x \<in> set H. x < start s + width) \<and> within (start s) (start s + width) H \<le> used s \<and>
      (\<forall>a. start s < a + width \<longrightarrow> within a (start s) H \<le> limit) \<and> (\<forall>a. within a (a + width) H \<le> 2 * limit))"

lemma history_step:
  assumes h: "history H s" and clk: "clock t" and t: "start s \<le> t" and positive: "0 < width" and adm: "admit t s = (ok, s')"
  shows "history (H @ (if ok then [t] else [])) s'" and "start s' \<le> t"
proof -
  let ?H = "H @ (if ok then [t] else [])"
  have inv: "inv s" and late: "\<And>x. x \<in> set H \<Longrightarrow> x < start s + width"
    and cur: "within (start s) (start s + width) H \<le> used s"
    and old: "\<And>a. start s < a + width \<Longrightarrow> within a (start s) H \<le> limit"
    and all: "\<And>a. within a (a + width) H \<le> 2 * limit" using h by (auto simp: history_def)
  have inv': "inv s'" and cases: "start s' = start s \<and> t < start s + width \<and> used s + of_bool ok \<le> used s' \<or>
      start s' = t \<and> start s + width \<le> t \<and> of_bool ok \<le> used s'"
    using step [OF inv clk t adm] by blast+
  note bnd = bounded [OF inv'] and bnd0 = bounded [OF inv]
  show "start s' \<le> t" using cases t by auto
  from cases show "history ?H s'"
  proof
    assume same: "start s' = start s \<and> t < start s + width \<and> used s + of_bool ok \<le> used s'"
    have cur': "within (start s) (start s + width) ?H \<le> used s'" using same cur t by auto
    have "within a (a + width) ?H \<le> 2 * limit" for a
    proof (cases "ok \<and> a \<le> t \<and> t < a + width")
      case True
      then have "start s < a + width" using t by simp
      from old [OF this] have "within a (start s) ?H \<le> limit" using t by auto
      moreover have "within (start s) (a + width) ?H \<le> within (start s) (start s + width) ?H"
        using late same by (intro within_mono) (auto split: if_splits)
      ultimately show ?thesis using within_split [of a "a + width" ?H "start s"] cur' bnd by linarith
    next
      case False
      then show ?thesis using all [of a] by auto
    qed
    then show ?thesis using inv' same late cur' old t by (auto simp: history_def)
  next
    assume new: "start s' = t \<and> start s + width \<le> t \<and> of_bool ok \<le> used s'"
    have none: "within t (t + width) H = 0" using late new by (fastforce simp: within_def filter_empty_conv)
    have prev: "within a t H \<le> limit" if "t < a + width" for a
    proof -
      have "within a t H \<le> within (start s) (start s + width) H"
        using that new late by (intro within_mono) auto
      then show ?thesis using cur bnd0 by linarith
    qed
    have "within a (a + width) ?H \<le> 2 * limit" for a
    proof (cases "ok \<and> a \<le> t \<and> t < a + width")
      case True
      have "within t (a + width) H = 0" using late new by (fastforce simp: within_def filter_empty_conv)
      then show ?thesis using True prev [of a] within_split [of a "a + width" H t] new bnd by auto
    next
      case False
      then show ?thesis using all [of a] by auto
    qed
    moreover have "\<forall>x \<in> set ?H. x < t + width" using late new positive by fastforce
    ultimately show ?thesis using inv' new none prev by (auto simp: history_def)
  qed
qed

lemma history_run:
  assumes "history H s" and "sorted ts" and "\<And>t. t \<in> set ts \<Longrightarrow> clock t \<and> start s \<le> t" and "0 < width"
  shows "within a (a + width) (H @ admitted admit ts s) \<le> 2 * limit"
  using assms
proof (induction ts arbitrary: H s)
  case Nil
  then show ?case by (simp add: history_def)
next
  case (Cons t ts)
  obtain ok s' where adm: "admit t s = (ok, s')" by (cases "admit t s") blast
  have t: "clock t" "start s \<le> t" using Cons.prems(3) [of t] by simp_all
  note st = history_step [OF Cons.prems(1) t Cons.prems(4) adm]
  have "clock t' \<and> start s' \<le> t'" if "t' \<in> set ts" for t' using that st(2) Cons.prems by force
  from Cons.IH [OF st(1) _ this] Cons.prems(2, 4) show ?case by (simp add: adm)
qed

theorem any_interval:
  assumes "inv s" and "sorted ts" and "\<And>t. t \<in> set ts \<Longrightarrow> clock t \<and> start s \<le> t"
  shows "within a (a + width) (admitted admit ts s) \<le> 2 * limit"
proof (cases "width = 0")
  case True
  then show ?thesis by (simp add: within_def filter_empty_conv)
next
  case False
  with assms show ?thesis using history_run [of "[]" s ts a] by (simp add: history_def)
qed

end

subsection \<open>The limiters as fixed windows\<close>

definition tool_admit :: "ToolRateLimitConfig \<Rightarrow> instant \<Rightarrow> ToolRateLimitState \<Rightarrow> bool \<times> ToolRateLimitState" where
  "tool_admit config now ts = (case check_entry now config True ts of (r, ts') \<Rightarrow> (is_allowed r, ts'))"

lemmas tool_limiter_defs = check_entry_def tool_admit_def is_allowed_def maybe_reset_def window_new_def
  tool_state_new_def time_until_reset_def

lemma unat_Suc_le: "c < (d :: 'a::len word) \<Longrightarrow> unat (c + 1) = Suc (unat c) \<and> Suc (unat c) \<le> unat d"
proof -
  assume "c < d"
  then have "unat c < unat d" by (simp add: word_less_nat_alt)
  moreover from this have "Suc (unat c) < 2 ^ LENGTH('a)" using unsigned_less [where 'a = nat, of d] by linarith
  ultimately show ?thesis by (simp add: unat_word_ariths)
qed

interpretation tool_minute: fixed_window "\<lambda>_. True" "tool_admit config"
    "\<lambda>ts. ws_window_start (tl_minute_window ts)" "\<lambda>ts. unat (ws_count (tl_minute_window ts))"
    "\<lambda>ts. ws_count (tl_minute_window ts) \<le> rl_requests_per_minute config"
    "unat (rl_requests_per_minute config)" minute for config
  using unat_Suc_le [where 'a = 32]
  by unfold_locales
    (auto simp: tool_limiter_defs word_le_nat_alt Let_def not_le word_less_nat_alt split: if_splits)

interpretation tool_hour: fixed_window "\<lambda>_. True" "tool_admit config"
    "\<lambda>ts. ws_window_start (tl_hour_window ts)" "\<lambda>ts. unat (ws_count (tl_hour_window ts))"
    "\<lambda>ts. ws_count (tl_hour_window ts) \<le> rl_requests_per_hour config"
    "unat (rl_requests_per_hour config)" hour for config
  using unat_Suc_le [where 'a = 32]
  by unfold_locales
    (auto simp: tool_limiter_defs word_le_nat_alt Let_def not_le word_less_nat_alt split: if_splits)

definition gateway_admit :: "nat \<Rightarrow> GatewayLimiter \<Rightarrow> bool \<times> GatewayLimiter" where
  "gateway_admit now gl = gateway_check (of_nat now) gl"

lemma unat_pred: "c \<noteq> 0 \<Longrightarrow> Suc (unat (c - 1)) = unat (c :: 'a::len word)"
  by (simp add: unat_minus_one unat_gt_0)

interpretation gateway: fixed_window "\<lambda>t. t < 2 ^ 64" gateway_admit
    "\<lambda>gl. unat (gl_window_start gl)" "\<lambda>gl. unat (gl_max_requests gl) - unat (gl_remaining gl)"
    "\<lambda>gl. gl_max_requests gl = limit \<and> gl_window_secs gl = window \<and> limit \<noteq> 0 \<and> gl_remaining gl \<le> limit"
    "unat limit" "unat window" for limit window
  by unfold_locales
    (auto simp: gateway_admit_def gateway_check_def unat_eq_0 word_le_nat_alt unat_saturating_sub unat_of_nat not_le word_less_nat_alt
      dest!: unat_pred [where 'a = 64] split: if_splits)

definition emit_admit :: "nat \<Rightarrow> EmitLimiter \<Rightarrow> bool \<times> EmitLimiter" where
  "emit_admit now_ms el = emit_check (of_nat now_ms) el"

interpretation emit_minute: fixed_window "\<lambda>t. t < 2 ^ 64" emit_admit
    "\<lambda>el. unat (rw_window_start (el_minute_window el))" "\<lambda>el. unat (rw_count (el_minute_window el))"
    "\<lambda>el. el_messages_per_minute el = limit \<and> rw_window_duration_ms (el_minute_window el) = d \<and>
      rw_count (el_minute_window el) \<le> limit"
    "unat limit" "unat d + 1" for limit d
  using unat_Suc_le [where 'a = 32]
  by unfold_locales
    (auto simp: emit_admit_def emit_check_def rate_window_check_def Let_def unat_saturating_sub unat_of_nat
      word_le_nat_alt word_less_nat_alt not_le not_less split: if_splits prod.splits)

interpretation emit_hour: fixed_window "\<lambda>t. t < 2 ^ 64" emit_admit
    "\<lambda>el. unat (rw_window_start (el_hour_window el))" "\<lambda>el. unat (rw_count (el_hour_window el))"
    "\<lambda>el. el_messages_per_hour el = limit \<and> rw_window_duration_ms (el_hour_window el) = d \<and>
      rw_count (el_hour_window el) \<le> limit"
    "unat limit" "unat d + 1" for limit d
  using unat_Suc_le [where 'a = 32]
  by unfold_locales
    (auto simp: emit_admit_def emit_check_def rate_window_check_def Let_def unat_saturating_sub unat_of_nat
      word_le_nat_alt word_less_nat_alt not_le not_less split: if_splits prod.splits)


subsection \<open>Properties of the limiters\<close>

text \<open>
  Also: The limiter for tools bounds the requests of one user to one tool: whatever requests
  arrive, in any interval of one minute at most twice the limit per minute is allowed, and in any
  interval of one hour at most twice the limit per hour. (The doubling cannot be avoided with the
  counters the code keeps: see \<open>tool_limit_burst\<close>.)
\<close>

theorem tool_limit_any_interval:
  assumes "sorted ts" and "\<forall>t \<in> set ts. t0 \<le> t"
  shows "within a (a + minute) (admitted (tool_admit config) ts (tool_state_new t0)) \<le> 2 * unat (rl_requests_per_minute config) \<and>
    within a (a + hour) (admitted (tool_admit config) ts (tool_state_new t0)) \<le> 2 * unat (rl_requests_per_hour config)"
proof
  show "within a (a + minute) (admitted (tool_admit config) ts (tool_state_new t0)) \<le> 2 * unat (rl_requests_per_minute config)"
    by (rule tool_minute.any_interval) (use assms in \<open>auto simp: tool_limiter_defs\<close>)
  show "within a (a + hour) (admitted (tool_admit config) ts (tool_state_new t0)) \<le> 2 * unat (rl_requests_per_hour config)"
    by (rule tool_hour.any_interval) (use assms in \<open>auto simp: tool_limiter_defs\<close>)
qed

definition small_config :: ToolRateLimitConfig where
  "small_config = \<lparr>rl_requests_per_minute = 2, rl_requests_per_hour = 10\<rparr>"

theorem tool_limit_any_interval_witness:
  "within (secs 30) (secs 30 + minute) (admitted (tool_admit small_config) [secs 10, secs 59, secs 61, secs 62, secs 63] (tool_state_new 0)) \<le> 4"
  using tool_limit_any_interval [of "[secs 10, secs 59, secs 61, secs 62, secs 63]" 0 "secs 30" small_config]
  by (simp add: small_config_def)

text \<open>The bound is reached: a burst around the edge of a window is let through whole.\<close>

lemma tool_limit_burst:
  "admitted (tool_admit small_config) [secs 59, secs 59, secs 60, secs 60, secs 60] (tool_state_new 0)
     = [secs 59, secs 59, secs 60, secs 60]"
  by (simp add: tool_limiter_defs small_config_def Let_def word_le_nat_alt)


lemma full_window:
  assumes "lim \<le> ws_count (maybe_reset now d ws)" and "lim \<noteq> 0" and "ws_window_start ws \<le> now"
  shows "0 < time_until_reset now d (maybe_reset now d ws) \<and> time_until_reset now d (maybe_reset now d ws) \<le> d \<and>
    ws_count (maybe_reset (now + time_until_reset now d (maybe_reset now d ws)) d (maybe_reset now d ws)) = 0"
  using assms by (auto simp: maybe_reset_def time_until_reset_def Let_def split: if_splits)

text \<open>
  Also: A refusal names when to come back: if the check refuses at \<open>now\<close> with a delay, the delay is
  positive and no longer than the window, and the same check made after that delay, no request having
  been recorded in between, does not refuse for the same reason, unless the limit is zero.
\<close>

theorem retry_after_honoured:
  assumes "check_entry now config rec ts = (Limited delay lt, ts')"
    and "ws_window_start (tl_minute_window ts) \<le> now" and "ws_window_start (tl_hour_window ts) \<le> now"
    and "case lt of PerMinute \<Rightarrow> rl_requests_per_minute config \<noteq> 0 | PerHour \<Rightarrow> rl_requests_per_hour config \<noteq> 0"
  shows "0 < delay \<and> delay \<le> (case lt of PerMinute \<Rightarrow> minute | PerHour \<Rightarrow> hour) \<and>
    (\<nexists>d. fst (check_entry (now + delay) config rec' ts') = Limited d lt)"
proof -
  let ?m = "maybe_reset now minute (tl_minute_window ts)" and ?h = "maybe_reset now hour (tl_hour_window ts)"
  have ts': "ts' = ts\<lparr>tl_minute_window := ?m, tl_hour_window := ?h\<rparr>"
    using assms(1) by (auto simp: check_entry_def Let_def split: if_splits)
  show ?thesis
  proof (cases lt)
    case PerMinute
    then have lim: "rl_requests_per_minute config \<le> ws_count ?m" and "rl_requests_per_minute config \<noteq> 0"
      and d: "delay = time_until_reset now minute ?m"
      using assms(1, 4) by (auto simp: check_entry_def Let_def split: if_splits)
    from full_window [OF this(1, 2) assms(2)] this(2) PerMinute show ?thesis
      by (auto simp: check_entry_def Let_def ts' d split: if_splits)
  next
    case PerHour
    then have lim: "rl_requests_per_hour config \<le> ws_count ?h" and "rl_requests_per_hour config \<noteq> 0"
      and d: "delay = time_until_reset now hour ?h"
      using assms(1, 4) by (auto simp: check_entry_def Let_def split: if_splits)
    from full_window [OF this(1, 2) assms(3)] this(2) PerHour show ?thesis
      by (auto simp: check_entry_def Let_def ts' d split: if_splits)
  qed
qed

theorem retry_after_honoured_witness:
  "0 < secs 1 \<and> (\<nexists>d. fst (check_entry (secs 60) small_config True
      \<lparr>tl_minute_window = \<lparr>ws_window_start = 0, ws_count = 2\<rparr>, tl_hour_window = \<lparr>ws_window_start = 0, ws_count = 2\<rparr>\<rparr>)
      = Limited d PerMinute)"
  using retry_after_honoured [of "secs 59" small_config True
      "\<lparr>tl_minute_window = \<lparr>ws_window_start = 0, ws_count = 2\<rparr>, tl_hour_window = \<lparr>ws_window_start = 0, ws_count = 2\<rparr>\<rparr>"
      "secs 1" PerMinute
      "\<lparr>tl_minute_window = \<lparr>ws_window_start = 0, ws_count = 2\<rparr>, tl_hour_window = \<lparr>ws_window_start = 0, ws_count = 2\<rparr>\<rparr>" True]
  by (simp add: tool_limiter_defs small_config_def Let_def)

text \<open>
  Also: The counts a successful check reports never wrap below zero: what remains is exactly the limit
  less the requests counted, the present one included when it is recorded.
\<close>

theorem remaining_exact:
  assumes "check_internal now user tool config rec st = (Allowed rm rh, st')"
  shows "\<exists>m h. get_usage user tool st' = Some (m, h) \<and> unat rm + unat m = unat (rl_requests_per_minute config) \<and>
    unat rh + unat h = unat (rl_requests_per_hour config)"
  using assms unat_Suc_le [where 'a = 32]
  by (fastforce simp: check_internal_def check_entry_def Let_def get_usage_def update_conv' not_le unat_sub
      word_le_nat_alt word_less_nat_alt split: prod.splits if_splits)

theorem remaining_exact_witness:
  "\<exists>m h. get_usage ''u'' ''t'' (snd (check_and_record 0 ''u'' ''t'' small_config [])) = Some (m, h) \<and>
    unat (1 :: u32) + unat m = 2 \<and> unat (9 :: u32) + unat h = 10"
  using remaining_exact [of 0 "''u''" "''t''" small_config True "[]" 1 9 "snd (check_and_record 0 ''u'' ''t'' small_config [])"]
  by (simp add: check_and_record_def check_internal_def tool_limiter_defs small_config_def Let_def)

text \<open>
  Also: Users and tools do not share a budget: a check for one pair leaves the counters of every other pair
  alone, and its answer depends only on the counters of its own.
\<close>

theorem limits_isolated:
  assumes "(user', tool') \<noteq> (user, tool)"
  shows "map_of (snd (check_internal now user tool config rec st)) (user', tool') = map_of st (user', tool') \<and>
    fst (check_internal now user' tool' config' rec' (snd (check_internal now' user tool config rec st)))
      = fst (check_internal now user' tool' config' rec' st)"
  using assms by (auto simp: check_internal_def Let_def update_conv' split: prod.splits)

theorem limits_isolated_witness:
  "map_of (snd (check_internal 0 ''u'' ''shell'' small_config True [])) (''v'', ''shell'') = None"
  using limits_isolated [of "''v''" "''shell''" "''u''" "''shell''" 0 small_config True "[]" small_config True 0] by simp

text \<open>
  Also: The limiter of the gateway, as it is set up in \<^verbatim>\<open>server.rs\<close> (at least one request per window),
  lets at most twice its maximum through in any interval of the length of its window; requests that
  come one after the other, by a clock that does not run backwards.
\<close>

theorem gateway_limit_any_interval:
  assumes "0 < limit" and "sorted ts" and "\<forall>t \<in> set ts. unat t0 \<le> t \<and> t < 2 ^ 64"
  shows "within a (a + unat window) (admitted gateway_admit ts (gateway_limiter_new t0 limit window)) \<le> 2 * unat limit"
  by (rule gateway.any_interval) (use assms in \<open>auto simp: gateway_limiter_new_def\<close>)

theorem gateway_limit_any_interval_witness:
  "within 30 (30 + 60) (admitted gateway_admit [59, 59, 60, 60, 60] (gateway_limiter_new 0 2 60)) \<le> 4"
  using gateway_limit_any_interval [of 2 "[59, 59, 60, 60, 60]" 0 30 60] by simp

lemma gateway_limit_zero: "snd (gateway_check now (gateway_limiter_new now 0 0)) = (gateway_limiter_new now 0 0)\<lparr>gl_remaining := -1\<rparr>"
  by (simp add: gateway_check_def gateway_limiter_new_def)

text \<open>
  Also: A channel module emits at most twice its limit in any interval of a minute, and of an hour.
\<close>

theorem emit_limit_any_interval:
  assumes "sorted ts" and "\<forall>t \<in> set ts. t < 2 ^ 64"
  shows "within a (a + 60001) (admitted emit_admit ts (emit_limiter_new per_minute per_hour)) \<le> 2 * unat per_minute \<and>
    within a (a + 3600001) (admitted emit_admit ts (emit_limiter_new per_minute per_hour)) \<le> 2 * unat per_hour"
proof
  have "within a (a + (unat (60000 :: u64) + 1)) (admitted emit_admit ts (emit_limiter_new per_minute per_hour)) \<le> 2 * unat per_minute"
    by (rule emit_minute.any_interval) (use assms in \<open>auto simp: emit_limiter_new_def rate_window_new_def\<close>)
  then show "within a (a + 60001) (admitted emit_admit ts (emit_limiter_new per_minute per_hour)) \<le> 2 * unat per_minute" by simp
  have "within a (a + (unat (3600000 :: u64) + 1)) (admitted emit_admit ts (emit_limiter_new per_minute per_hour)) \<le> 2 * unat per_hour"
    by (rule emit_hour.any_interval) (use assms in \<open>auto simp: emit_limiter_new_def rate_window_new_def\<close>)
  then show "within a (a + 3600001) (admitted emit_admit ts (emit_limiter_new per_minute per_hour)) \<le> 2 * unat per_hour" by simp
qed

theorem emit_limit_any_interval_witness:
  "within 5 60006 (admitted emit_admit [5, 6, 7] (emit_limiter_new 2 100)) \<le> 4"
  using emit_limit_any_interval [of "[5, 6, 7]" 5 2 100] by simp

text \<open>A message refused by the minute window is counted in the hour window all the same.\<close>

lemma emit_refused_counts:
  "let (ok1, el1) = emit_check 5 (emit_limiter_new 1 3); (ok2, el2) = emit_check 5 el1;
       (ok3, el3) = emit_check 5 el2; (ok4, el4) = emit_check 70000 el3 in
   ok1 \<and> \<not> ok2 \<and> \<not> ok3 \<and> \<not> ok4 \<and> rw_count (el_hour_window el4) = 3"
  by (simp add: emit_check_def emit_limiter_new_def rate_window_new_def rate_window_check_def saturating_sub_def Let_def word_le_nat_alt word_less_nat_alt)

end
