(* ===== verification/Shell.thy ===== *)
theory Shell
  imports Tool
begin

text \<open>
  The shell tool (\<^verbatim>\<open>src/tools/builtin/shell.rs\<close>): the filters every command passes, the approval a
  command needs, the environment a command runs in, and the choice between the sandbox and a child
  process of the program.

  The operating system and the sandbox are arguments, collected in \<open>ShellEnv\<close>, on a state \<open>'w\<close> of the
  world; a process delivers the text read from its two pipes (at most \<open>MAX_OUTPUT_SIZE\<close> bytes of each).
  The hash set of blocked commands is a list: the answer does not depend on its order.
\<close>

subsection \<open>Searching\<close>

text \<open>
  \<open>s.match_indices(pat)\<close> for a nonempty pattern: the positions of the occurrences found from left to
  right, each search starting after the previous occurrence.
\<close>

function match_indices_from :: "nat \<Rightarrow> string \<Rightarrow> string \<Rightarrow> nat list" where
  "match_indices_from i [] pat = []"
| "match_indices_from i (c # cs) pat =
     (if pat \<noteq> [] \<and> prefix pat (c # cs) then i # match_indices_from (i + length pat) (drop (length pat) (c # cs)) pat
      else match_indices_from (i + 1) cs pat)"
  by pat_completeness auto

termination by (relation "measure (\<lambda>(i, s, pat). length s)") auto

definition match_indices :: "string \<Rightarrow> string \<Rightarrow> nat list" where
  "match_indices s pat = match_indices_from 0 s pat"

subsection \<open>Filters\<close>

definition BLOCKED_COMMANDS :: "string list" where
  "BLOCKED_COMMANDS =
     [''rm -rf /'', ''rm -rf /*'', '':(){ :|:& };:'', ''dd if=/dev/zero'', ''mkfs'', ''chmod -R 777 /'', ''> /dev/sda'',
      ''curl | sh'', ''wget | sh'', ''curl | bash'', ''wget | bash'']"

definition DANGEROUS_PATTERNS :: "string list" where
  "DANGEROUS_PATTERNS =
     [''sudo '', ''doas '', '' | sh'', '' | bash'', '' | zsh'', ''eval '', ''$(curl'', ''$(wget'', ''/etc/passwd'',
      ''/etc/shadow'', ''~/.ssh'', ''.bash_history'', ''id_rsa'']"

definition NEVER_AUTO_APPROVE_PATTERNS :: "string list" where
  "NEVER_AUTO_APPROVE_PATTERNS =
     [''rm -rf'', ''rm -fr'', ''chmod -r 777'', ''chmod 777'', ''chown -r'', ''shutdown'', ''reboot'', ''poweroff'',
      ''init 0'', ''init 6'', ''iptables'', ''nft '', ''useradd'', ''userdel'', ''passwd'', ''visudo'', ''crontab'',
      ''systemctl disable'', ''launchctl unload'', ''kill -9'', ''killall'', ''pkill'', ''docker rm'', ''docker rmi'',
      ''docker system prune'', ''git push --force'', ''git push -f'', ''git reset --hard'', ''git clean -f'',
      ''DROP TABLE'', ''DROP DATABASE'', ''TRUNCATE'', ''DELETE FROM'']"

definition requires_explicit_approval :: "string \<Rightarrow> bool" where
  "requires_explicit_approval command =
     (let lower = to_lowercase command
      in list_ex (\<lambda>p. contains lower (to_lowercase p)) NEVER_AUTO_APPROVE_PATTERNS)"

definition pipe_end :: "string \<Rightarrow> nat \<Rightarrow> bool" where
  "pipe_end lower e =
     (e \<ge> length lower \<or>
      lower ! e \<in> {CHR '' '', CHR 0x09, CHR 0x0A, CHR '';'', CHR ''|'', CHR ''&'', CHR '')''})"

definition has_pipe_to :: "string \<Rightarrow> string \<Rightarrow> bool" where
  "has_pipe_to lower shell =
     list_ex (\<lambda>pre. list_ex (\<lambda>i. pipe_end lower (i + length (pre @ shell))) (match_indices lower (pre @ shell)))
       [''| '', ''|'']"

definition contains_shell_pipe :: "string \<Rightarrow> bool" where
  "contains_shell_pipe lower =
     list_ex (has_pipe_to lower) [''sh'', ''bash'', ''zsh'', ''dash'', ''/bin/sh'', ''/bin/bash'']"

definition has_command_substitution :: "string \<Rightarrow> bool" where
  "has_command_substitution s = (contains s ''$('' \<or> contains s [CHR 0x60])"

definition token_separators :: "char set" where
  "token_separators = {CHR '' '', CHR 0x09, CHR ''|'', CHR '';'', CHR ''&'', CHR 0x0A, CHR ''(''}"

definition has_command_token :: "string \<Rightarrow> string \<Rightarrow> bool" where
  "has_command_token lower token =
     list_ex (\<lambda>i. i = 0 \<or> lower ! (i - 1) \<in> token_separators) (match_indices lower token)"

definition detect_command_injection :: "string \<Rightarrow> string option" where
  "detect_command_injection cmd =
     (if CHR 0x00 \<in> set cmd then Some ''null byte in command''
      else let lower = to_lowercase cmd in
        if (contains lower ''base64 -d'' \<or> contains lower ''base64 --decode'') \<and> contains_shell_pipe lower
        then Some ''base64 decode piped to shell''
        else if (contains lower ''printf'' \<or> contains lower ''echo -e'' \<or> contains lower (''echo $'' @ [CHR 0x27])) \<and>
          (contains lower [CHR 0x5C, CHR ''x''] \<or> contains lower [CHR 0x5C, CHR ''0'']) \<and> contains_shell_pipe lower
        then Some ''encoded escape sequences piped to shell''
        else if (contains lower ''xxd -r'' \<or> has_command_token lower ''od '') \<and> contains_shell_pipe lower
        then Some ''binary decode piped to shell''
        else if (has_command_token lower ''dig '' \<or> has_command_token lower ''nslookup '' \<or> has_command_token lower ''host '') \<and>
          has_command_substitution lower
        then Some ''potential DNS exfiltration via command substitution''
        else if (has_command_token lower ''nc '' \<or> has_command_token lower ''ncat '' \<or> has_command_token lower ''netcat '') \<and>
          (contains lower ''|'' \<or> contains lower ''<'')
        then Some ''netcat with data piping''
        else if contains lower ''curl'' \<and>
          (contains lower ''-d @'' \<or> contains lower ''-d@'' \<or> contains lower ''--data @'' \<or>
           contains lower ''--data-binary @'' \<or> contains lower ''--upload-file'')
        then Some ''curl posting file contents''
        else if contains lower ''wget'' \<and> contains lower ''--post-file'' then Some ''wget posting file contents''
        else if (contains lower ''| rev'' \<or> contains lower ''|rev'') \<and> contains_shell_pipe lower
        then Some ''string reversal piped to shell''
        else None)"

subsection \<open>The tool\<close>

datatype SandboxPolicy = ReadOnly | WorkspaceWrite | FullAccess

record SandboxInfo =
  sb_initialized :: bool
  sb_enabled :: bool

record ShellTool =
  sh_working_dir :: "string option"
  sh_timeout :: duration
  sh_allow_dangerous :: bool
  sh_sandbox :: "SandboxInfo option"
  sh_sandbox_policy :: SandboxPolicy

definition shell_new :: ShellTool where
  "shell_new = \<lparr>sh_working_dir = None, sh_timeout = secs 120, sh_allow_dangerous = False, sh_sandbox = None,
     sh_sandbox_policy = ReadOnly\<rparr>"

definition is_blocked :: "ShellTool \<Rightarrow> string \<Rightarrow> string option" where
  "is_blocked sh cmd =
     (let normalized = to_lowercase cmd
      in if list_ex (contains normalized) BLOCKED_COMMANDS then Some ''Command contains blocked pattern''
         else if \<not> sh_allow_dangerous sh \<and> list_ex (contains normalized) DANGEROUS_PATTERNS
         then Some ''Command contains potentially dangerous pattern''
         else None)"

definition MAX_OUTPUT_SIZE :: nat where
  "MAX_OUTPUT_SIZE = 64 * 1024"

definition newline :: string where
  "newline = [CHR 0x0A]"

definition truncate_output :: "string \<Rightarrow> string" where
  "truncate_output s =
     (if length s \<le> MAX_OUTPUT_SIZE then s
      else let half = MAX_OUTPUT_SIZE div 2;
               head_end = floor_char_boundary s half;
               tail_start = floor_char_boundary s (length s - half)
           in take head_end s @ newline @ newline @ ''... [truncated '' @ show_nat (length s - MAX_OUTPUT_SIZE) @
              '' bytes] ...'' @ newline @ newline @ drop tail_start s)"

text \<open>Cutting after a number of characters: a byte that does not continue a character starts one.\<close>

fun take_chars :: "nat \<Rightarrow> string \<Rightarrow> string" where
  "take_chars n [] = []"
| "take_chars n (c # cs) =
     (if is_cont_byte c then c # take_chars n cs else if n = 0 then [] else c # take_chars (n - 1) cs)"

definition char_count :: "string \<Rightarrow> nat" where
  "char_count s = length (filter (\<lambda>c. \<not> is_cont_byte c) s)"

definition truncate_for_error :: "string \<Rightarrow> string" where
  "truncate_for_error s = (if char_count s \<le> 100 then s else take_chars 100 s @ ''...'')"

definition SAFE_ENV_VARS :: "string list" where
  "SAFE_ENV_VARS =
     [''PATH'', ''HOME'', ''USER'', ''LOGNAME'', ''SHELL'', ''TERM'', ''COLORTERM'', ''LANG'', ''LC_ALL'', ''LC_CTYPE'',
      ''LC_MESSAGES'', ''PWD'', ''TMPDIR'', ''TMP'', ''TEMP'', ''XDG_RUNTIME_DIR'', ''XDG_DATA_HOME'', ''XDG_CONFIG_HOME'',
      ''XDG_CACHE_HOME'', ''CARGO_HOME'', ''RUSTUP_HOME'', ''NODE_PATH'', ''NPM_CONFIG_PREFIX'', ''EDITOR'', ''VISUAL'',
      ''SystemRoot'', ''SYSTEMROOT'', ''ComSpec'', ''PATHEXT'', ''APPDATA'', ''LOCALAPPDATA'', ''USERPROFILE'',
      ''ProgramFiles'', ''ProgramFiles(x86)'', ''WINDIR'']"

datatype ProcessResult = SpawnFailed string | WaitFailed string | TimedOut | Exited string string "int option"

record 'w ShellEnv =
  sx_var :: "string \<Rightarrow> string option"
  sx_current_dir :: "string option"
  sx_spawn :: "string list \<Rightarrow> (string \<times> string) list \<Rightarrow> string \<Rightarrow> duration \<Rightarrow> 'w \<Rightarrow> ProcessResult \<times> 'w"
  sx_sandbox :: "string \<Rightarrow> string \<Rightarrow> SandboxPolicy \<Rightarrow> duration \<Rightarrow> 'w \<Rightarrow> (string + (string \<times> int)) option \<times> 'w"
  sx_from_str :: "string \<Rightarrow> json option"

text \<open>The environment of the child: safe variables that are set, and what the caller adds.\<close>

definition child_env :: "'w ShellEnv \<Rightarrow> (string \<times> string) list \<Rightarrow> (string \<times> string) list" where
  "child_env sx extra_env =
     fold (\<lambda>(k, v) env. AList.update k v env) extra_env
       (fold (\<lambda>var env. case sx_var sx var of Some val \<Rightarrow> AList.update var val env | None \<Rightarrow> env) SAFE_ENV_VARS [])"

definition execute_direct ::
    "'w ShellEnv \<Rightarrow> string \<Rightarrow> string \<Rightarrow> duration \<Rightarrow> (string \<times> string) list \<Rightarrow> 'w \<Rightarrow> (ToolError + string \<times> int) \<times> 'w" where
  "execute_direct sx cmd workdir timeout extra_env w =
     (case sx_spawn sx [''sh'', ''-c'', cmd] (child_env sx extra_env) workdir timeout w of
        (SpawnFailed e, w) \<Rightarrow> (Inl (ExecutionFailed (''Failed to spawn command: '' @ e)), w)
      | (WaitFailed e, w) \<Rightarrow> (Inl (ExecutionFailed (''Command execution failed: '' @ e)), w)
      | (TimedOut, w) \<Rightarrow> (Inl (ToolTimeout timeout), w)
      | (Exited out err code, w) \<Rightarrow>
          (let output = (if err = [] then out else if out = [] then err
                         else out @ newline @ newline @ ''--- stderr ---'' @ newline @ err)
           in (Inr (truncate_output output, case code of Some c \<Rightarrow> c | None \<Rightarrow> -1), w)))"

definition execute_sandboxed ::
    "'w ShellEnv \<Rightarrow> ShellTool \<Rightarrow> string \<Rightarrow> string \<Rightarrow> duration \<Rightarrow> 'w \<Rightarrow> (ToolError + string \<times> int) \<times> 'w" where
  "execute_sandboxed sx sh cmd workdir timeout w =
     (case sx_sandbox sx cmd workdir (sh_sandbox_policy sh) timeout w of
        (Some (Inr (output, code)), w) \<Rightarrow> (Inr (truncate_output output, code), w)
      | (Some (Inl e), w) \<Rightarrow> (Inl (ExecutionFailed (''Sandbox error: '' @ e)), w)
      | (None, w) \<Rightarrow> (Inl (ToolTimeout timeout), w))"

definition use_sandbox :: "ShellTool \<Rightarrow> bool" where
  "use_sandbox sh = (case sh_sandbox sh of Some sb \<Rightarrow> sb_initialized sb \<or> sb_enabled sb | None \<Rightarrow> False)"

definition execute_command ::
    "'w ShellEnv \<Rightarrow> ShellTool \<Rightarrow> string \<Rightarrow> string option \<Rightarrow> u64 option \<Rightarrow> (string \<times> string) list \<Rightarrow> 'w \<Rightarrow>
     (ToolError + string \<times> int) \<times> 'w" where
  "execute_command sx sh cmd workdir timeout extra_env w =
     (case is_blocked sh cmd of
        Some reason \<Rightarrow> (Inl (NotAuthorized (reason @ '': '' @ truncate_for_error cmd)), w)
      | None \<Rightarrow>
          (case detect_command_injection cmd of
             Some reason \<Rightarrow>
               (Inl (NotAuthorized (''Command injection detected ('' @ reason @ ''): '' @ truncate_for_error cmd)), w)
           | None \<Rightarrow>
               let cwd = (case workdir of Some d \<Rightarrow> d | None \<Rightarrow>
                            (case sh_working_dir sh of Some d \<Rightarrow> d | None \<Rightarrow>
                               (case sx_current_dir sx of Some d \<Rightarrow> d | None \<Rightarrow> ''.'')));
                   t = (case timeout of Some s \<Rightarrow> secs (unat s) | None \<Rightarrow> sh_timeout sh)
               in if use_sandbox sh then execute_sandboxed sx sh cmd cwd t w
                  else execute_direct sx cmd cwd t extra_env w))"

record ShellOutput =
  so_output :: string
  so_exit_code :: int
  so_success :: bool
  so_sandboxed :: bool

definition is_ascii_digit :: "char \<Rightarrow> bool" where
  "is_ascii_digit c = (let n = of_char c :: nat in 48 \<le> n \<and> n \<le> 57)"

definition as_u64 :: "json \<Rightarrow> u64 option" where
  "as_u64 j = (case j of
     JNumber s \<Rightarrow> if s \<noteq> [] \<and> list_all is_ascii_digit s \<and> read_nat s < 2 ^ 64 then Some (of_nat (read_nat s)) else None
   | _ \<Rightarrow> None)"

definition shell_execute ::
    "'w ShellEnv \<Rightarrow> ShellTool \<Rightarrow> json \<Rightarrow> (string \<times> string) list \<Rightarrow> 'w \<Rightarrow> (ToolError + ShellOutput) \<times> 'w" where
  "shell_execute sx sh params extra_env w =
     (case require_str params ''command'' of
        Inl e \<Rightarrow> (Inl e, w)
      | Inr command \<Rightarrow>
          (case execute_command sx sh command (Option.bind (json_get ''workdir'' params) as_str)
             (Option.bind (json_get ''timeout'' params) as_u64) extra_env w of
             (Inl e, w) \<Rightarrow> (Inl e, w)
           | (Inr (output, exit_code), w) \<Rightarrow>
               (Inr \<lparr>so_output = output, so_exit_code = exit_code, so_success = (exit_code = 0),
                     so_sandboxed = (sh_sandbox sh \<noteq> None)\<rparr>, w)))"

definition shell_requires_approval :: "'w ShellEnv \<Rightarrow> json \<Rightarrow> ApprovalRequirement" where
  "shell_requires_approval sx params =
     (let cmd = (case Option.bind (json_get ''command'' params) as_str of
                   Some c \<Rightarrow> Some c
                 | None \<Rightarrow> Option.bind (Option.bind (as_str params) (sx_from_str sx)) (\<lambda>v. Option.bind (json_get ''command'' v) as_str))
      in if (case cmd of Some c \<Rightarrow> requires_explicit_approval c | None \<Rightarrow> False) then Always else UnlessAutoApproved)"

subsection \<open>Searching finds every occurrence\<close>

text \<open>Two occurrences of the pattern cannot overlap.\<close>

definition unbordered :: "string \<Rightarrow> bool" where
  "unbordered pat = (pat \<noteq> [] \<and> (\<forall>k \<in> {1..<length pat}. \<not> prefix (drop k pat) pat))"

lemma no_overlap:
  assumes "unbordered pat" and "prefix pat s" and "prefix pat (drop k s)" and "0 < k"
  shows "length pat \<le> k"
proof (rule ccontr)
  assume k: "\<not> length pat \<le> k"
  from assms(2) obtain t where t: "s = pat @ t" by (auto simp: prefix_def)
  then have "prefix (drop k pat) (drop k s)" using k by simp
  with assms(3) have "prefix (drop k pat) pat"
    using k by (metis length_drop diff_le_self prefix_length_prefix)
  with assms(1, 4) k show False by (auto simp: unbordered_def)
qed

lemma match_indices_from_iff:
  assumes "unbordered pat"
  shows "n \<in> set (match_indices_from i s pat) \<longleftrightarrow> i \<le> n \<and> prefix pat (drop (n - i) s)"
  using assms
proof (induction i s pat arbitrary: n rule: match_indices_from.induct)
  case (1 i pat)
  then show ?case by (auto simp: unbordered_def)
next
  case (2 i c cs pat)
  show ?case
  proof (cases "prefix pat (c # cs)")
    case True
    have ne: "pat \<noteq> []" using "2.prems" by (simp add: unbordered_def)
    have "i + length pat \<le> n \<and> prefix pat (drop (n - (i + length pat)) (drop (length pat) (c # cs))) \<longleftrightarrow>
        i + length pat \<le> n \<and> prefix pat (drop (n - i) (c # cs))" by (auto simp: drop_drop)
    moreover have "i + length pat \<le> n" if "i < n" "prefix pat (drop (n - i) (c # cs))"
      using no_overlap [OF "2.prems" True that(2)] that(1) by simp
    ultimately show ?thesis using True ne "2.IH"(1) [of n] "2.prems" by (auto simp: le_less)
  next
    case False
    have "i \<le> n \<and> prefix pat (drop (n - i) (c # cs)) \<longleftrightarrow> Suc i \<le> n \<and> prefix pat (drop (n - Suc i) cs)"
    proof (cases "i < n")
      case True
      then have "n - i = Suc (n - Suc i)" by simp
      then show ?thesis using True by simp
    next
      case False
      then show ?thesis using \<open>\<not> prefix pat (c # cs)\<close> by auto
    qed
    then show ?thesis using False "2.IH"(2) [of n] "2.prems" by auto
  qed
qed

lemma match_indices_iff: "unbordered pat \<Longrightarrow> n \<in> set (match_indices s pat) \<longleftrightarrow> prefix pat (drop n s)"
  by (simp add: match_indices_def match_indices_from_iff)

lemma occurs_at:
  assumes "pat \<noteq> []"
  shows "(\<exists>n. prefix pat (drop n s) \<and> P n) \<longleftrightarrow> (\<exists>pre post. s = pre @ pat @ post \<and> P (length pre))"
proof
  assume "\<exists>n. prefix pat (drop n s) \<and> P n"
  then obtain n post where n: "drop n s = pat @ post" "P n" by (auto simp: prefix_def)
  then have "n < length s" using assms by (metis append_is_Nil_conv drop_all not_le)
  then have "s = take n s @ pat @ post" "P (length (take n s))" using n by (simp_all add: min_def flip: n(1))
  then show "\<exists>pre post. s = pre @ pat @ post \<and> P (length pre)" by blast
next
  assume "\<exists>pre post. s = pre @ pat @ post \<and> P (length pre)"
  then obtain pre post where "s = pre @ pat @ post" "P (length pre)" by blast
  then have "prefix pat (drop (length pre) s)" by simp
  with \<open>P (length pre)\<close> show "\<exists>n. prefix pat (drop n s) \<and> P n" by blast
qed

text \<open>The tokens and pipes the filters look for cannot overlap themselves.\<close>

definition command_tokens :: "string list" where
  "command_tokens = [''od '', ''dig '', ''nslookup '', ''host '', ''nc '', ''ncat '', ''netcat '']"

definition shells :: "string list" where
  "shells = [''sh'', ''bash'', ''zsh'', ''dash'', ''/bin/sh'', ''/bin/bash'']"

lemma command_tokens_unbordered: "list_all unbordered command_tokens"
  by code_simp

lemma pipes_unbordered: "list_all (\<lambda>sh. unbordered (''| '' @ sh) \<and> unbordered (''|'' @ sh)) shells"
  by code_simp


text \<open>
  Also: The token search of the injection filter is exact: for each of the commands the filter looks for,
  it succeeds if and only if the command occurs at the start of the line or after white space or a shell separator.
\<close>

theorem has_command_token_iff:
  assumes "token \<in> set command_tokens"
  shows "has_command_token lower token \<longleftrightarrow>
    (\<exists>pre post. lower = pre @ token @ post \<and> (pre = [] \<or> last pre \<in> token_separators))"
proof -
  have ub: "unbordered token" using assms command_tokens_unbordered by (auto simp: list_all_iff)
  have eq: "(length pre = 0 \<or> lower ! (length pre - 1) \<in> token_separators) \<longleftrightarrow> (pre = [] \<or> last pre \<in> token_separators)"
    if "lower = pre @ token @ post" for pre post using that by (cases "pre = []") (simp_all add: nth_append last_conv_nth)
  have "has_command_token lower token \<longleftrightarrow>
      (\<exists>n. prefix token (drop n lower) \<and> (n = 0 \<or> lower ! (n - 1) \<in> token_separators))"
    by (simp add: has_command_token_def list_ex_iff Bex_def match_indices_iff [OF ub])
  also have "\<dots> \<longleftrightarrow> (\<exists>pre post. lower = pre @ token @ post \<and> (length pre = 0 \<or> lower ! (length pre - 1) \<in> token_separators))"
    using ub by (intro occurs_at) (simp add: unbordered_def)
  also have "\<dots> \<longleftrightarrow> (\<exists>pre post. lower = pre @ token @ post \<and> (pre = [] \<or> last pre \<in> token_separators))" using eq by blast
  finally show ?thesis .
qed

theorem has_command_token_iff_witness:
  "has_command_token ''ls; nc host'' ''nc '' \<and> \<not> has_command_token ''sync now'' ''nc ''"
proof -
  have "''nc '' \<in> set command_tokens" by (simp add: command_tokens_def)
  note iff = has_command_token_iff [OF this]
  have "\<exists>pre post. ''ls; nc host'' = pre @ ''nc '' @ post \<and> (pre = [] \<or> last pre \<in> token_separators)"
    by (rule exI [of _ "''ls; ''"], rule exI [of _ "''host''"]) (simp add: token_separators_def)
  then have "has_command_token ''ls; nc host'' ''nc ''" by (simp only: iff)
  moreover have "\<not> has_command_token ''sync now'' ''nc ''" by code_simp
  ultimately show ?thesis by blast
qed

text \<open>
  Also: The pipe search is exact as well: it succeeds if and only if a shell follows a pipe, directly or after
  one blank, and the name of the shell ends there.
\<close>

theorem has_pipe_to_iff:
  assumes "shell \<in> set shells"
  shows "has_pipe_to lower shell \<longleftrightarrow>
    (\<exists>bar \<in> {''| '', ''|''}. \<exists>pre post. lower = pre @ bar @ shell @ post \<and> pipe_end post 0)"
proof -
  have ub: "unbordered (bar @ shell)" if "bar \<in> {''| '', ''|''}" for bar
    using that assms pipes_unbordered by (auto simp: list_all_iff)
  have eq: "list_ex (\<lambda>i. pipe_end lower (i + length (bar @ shell))) (match_indices lower (bar @ shell)) \<longleftrightarrow>
      (\<exists>pre post. lower = pre @ bar @ shell @ post \<and> pipe_end post 0)" if "bar \<in> {''| '', ''|''}" for bar
  proof -
    have "(\<exists>n. prefix (bar @ shell) (drop n lower) \<and> pipe_end lower (n + length (bar @ shell))) \<longleftrightarrow>
        (\<exists>pre post. lower = pre @ (bar @ shell) @ post \<and> pipe_end lower (length pre + length (bar @ shell)))"
      using that by (intro occurs_at) auto
    moreover have "pipe_end (pre @ (bar @ shell) @ post) (length pre + length (bar @ shell)) \<longleftrightarrow> pipe_end post 0" for pre post
      by (simp add: pipe_end_def nth_append)
    ultimately show ?thesis
      unfolding list_ex_iff Bex_def match_indices_iff [OF ub [OF that]] by (metis append_assoc)
  qed
  show ?thesis unfolding has_pipe_to_def using eq [of "''| ''"] eq [of "''|''"] by simp
qed

theorem has_pipe_to_iff_witness: "has_pipe_to ''echo x | sh'' ''sh''"
proof -
  have "''sh'' \<in> set shells" by (simp add: shells_def)
  note iff = has_pipe_to_iff [OF this]
  have "\<exists>bar \<in> {''| '', ''|''}. \<exists>pre post. ''echo x | sh'' = pre @ bar @ ''sh'' @ post \<and> pipe_end post 0"
    by (rule bexI [of _ "''| ''"], rule exI [of _ "''echo x ''"], rule exI [of _ "[]"]) (simp_all add: pipe_end_def)
  then show ?thesis by (simp only: iff)
qed


subsection \<open>What the tool does with a command\<close>



definition demo_shell_env :: "nat ShellEnv" where
  "demo_shell_env = \<lparr>sx_var = (\<lambda>v. if v = ''PATH'' then Some ''/bin'' else if v = ''OPENAI_API_KEY'' then Some ''sk-1'' else None),
     sx_current_dir = None, sx_spawn = (\<lambda>argv env dir t w. (Exited ''ok'' [] (Some 0), w + 1)),
     sx_sandbox = (\<lambda>cmd dir p t w. (Some (Inr (''boxed'', 0)), w)), sx_from_str = (\<lambda>_. None)\<rparr>"

definition boxed_shell :: ShellTool where
  "boxed_shell = shell_new\<lparr>sh_sandbox := Some \<lparr>sb_initialized = False, sb_enabled = True\<rparr>\<rparr>"



lemma map_of_fold_update: "map_of (fold (\<lambda>(k, v) env. AList.update k v env) xs env) k = (case map_of (rev xs) k of Some v \<Rightarrow> Some v | None \<Rightarrow> map_of env k)"
  by (induction xs arbitrary: env) (auto simp: map_of_update_if map_add_def split: option.splits)

lemma map_of_fold_vars:
  "map_of (fold (\<lambda>var env. case get var of Some val \<Rightarrow> AList.update var val env | None \<Rightarrow> env) vars env) k =
     (if k \<in> set vars \<and> get k \<noteq> None then get k else map_of env k)"
  by (induction vars arbitrary: env) (auto simp: map_of_update_if split: option.splits)


text \<open>
  Also: A command with one of the destructive patterns needs approval every time, however it is written in
  upper or lower case and whether the arguments are an object or a string that holds one.
\<close>

theorem destructive_always_asks:
  assumes "p \<in> set NEVER_AUTO_APPROVE_PATTERNS" and "contains (to_lowercase cmd) (to_lowercase p)"
    and "json_get ''command'' args = Some (JString cmd)"
    and "params = args \<or> (\<exists>s. params = JString s \<and> sx_from_str sx s = Some args)"
  shows "shell_requires_approval sx params = Always"
proof -
  have "requires_explicit_approval cmd" using assms(1, 2) by (auto simp: requires_explicit_approval_def list_ex_iff)
  then show ?thesis using assms(3, 4) by (auto simp: shell_requires_approval_def as_str_def json_get_def Let_def)
qed

theorem destructive_always_asks_witness:
  "shell_requires_approval demo_shell_env (JObject [(''command'', JString ''RM -RF build'')]) = Always"
proof (rule destructive_always_asks [where p = "''rm -rf''" and cmd = "''RM -RF build''"])
  show "contains (to_lowercase ''RM -RF build'') (to_lowercase ''rm -rf'')" by code_simp
qed (simp_all add: NEVER_AUTO_APPROVE_PATTERNS_def json_get_def)

text \<open>A pattern with an upper-case letter is never found in a command that has been mapped to lower case.\<close>

lemma upper_case_pattern_dead:
  assumes "c \<in> set pat" and "65 \<le> (of_char c :: nat)" and "(of_char c :: nat) \<le> 90"
  shows "\<not> contains (to_lowercase cmd) pat"
proof
  assume "contains (to_lowercase cmd) pat"
  then have "c \<in> set (to_lowercase cmd)" using assms(1) set_mono_sublist by blast
  then show False using to_lower_char_not_upper assms(2, 3) by (auto simp: to_lowercase_def)
qed

lemma chmod_pattern_dead: "\<not> contains (to_lowercase cmd) ''chmod -R 777 /''"
  by (rule upper_case_pattern_dead [where c = "CHR ''R''"]) simp_all

text \<open>
  A sandbox that is present but neither initialized nor enabled is not used, and the output says that it was.
\<close>

lemma sandboxed_flag:
  assumes "sh_sandbox sh = Some \<lparr>sb_initialized = False, sb_enabled = False\<rparr>"
    and "shell_execute sx sh params extra_env w = (Inr out, w')"
  shows "so_sandboxed out \<and> (\<exists>cmd dir t. execute_direct sx cmd dir t extra_env w = (Inr (so_output out, so_exit_code out), w'))"
  using assms
  by (auto simp: shell_execute_def execute_command_def use_sandbox_def Let_def split: sum.splits option.splits prod.splits)
    blast+

end
