(* ===== verification/Allowlist.thy ===== *)
theory Allowlist
  imports Net_Guard
begin

text \<open>
  Allowlists: the endpoints a WASM tool may call (\<^verbatim>\<open>src/tools/wasm/allowlist.rs\<close> and
  \<open>EndpointPattern\<close>, \<open>SecretsCapability\<close> of \<^verbatim>\<open>src/tools/wasm/capabilities.rs\<close>) and the domains the sandbox proxy
  lets through (\<^verbatim>\<open>src/sandbox/proxy/allowlist.rs\<close>). The lemmas say what an allowed request is, that paths
  are compared in a canonical form, and that the reason given for a refusal is the true one.

  The URL parser is that of the network guards; the decoder of percent-encoded text is an argument.
\<close>

subsection \<open>Paths\<close>

definition is_ascii_hexdigit :: "char \<Rightarrow> bool" where
  "is_ascii_hexdigit c =
     (let n = of_char c :: nat in (48 \<le> n \<and> n \<le> 57) \<or> (65 \<le> n \<and> n \<le> 70) \<or> (97 \<le> n \<and> n \<le> 102))"

text \<open>The loop over the bytes from position \<open>i\<close> on, as a recursion on the rest of the segment.\<close>

fun has_valid_percent_encoding :: "string \<Rightarrow> bool" where
  "has_valid_percent_encoding [] = True"
| "has_valid_percent_encoding (c # cs) =
     (if c = CHR ''%''
      then (case cs of
              a # b # rest \<Rightarrow> is_ascii_hexdigit a \<and> is_ascii_hexdigit b \<and> has_valid_percent_encoding rest
            | _ \<Rightarrow> False)
      else has_valid_percent_encoding cs)"

definition path_segments :: "string \<Rightarrow> string list" where
  "path_segments path = split_on (\<lambda>c. c = CHR ''/'') path"

text \<open>The loop over the raw segments with the stack of segments kept so far.\<close>

fun normalize_segments :: "(string \<Rightarrow> string option) \<Rightarrow> string list \<Rightarrow> string list \<Rightarrow> string + string list" where
  "normalize_segments decode [] segments = Inr segments"
| "normalize_segments decode (raw # rest) segments =
     (if \<not> has_valid_percent_encoding raw then Inl (''Invalid percent-encoding in path segment: '' @ raw)
      else case decode raw of
          None \<Rightarrow> Inl (''Invalid percent-encoding in path segment: '' @ raw)
        | Some segment \<Rightarrow>
            if CHR ''/'' \<in> set segment \<or> CHR 0x5C \<in> set segment
            then Inl ''Path segment contains encoded path separator''
            else if segment = [] \<or> segment = ''.'' then normalize_segments decode rest segments
            else if segment = ''..'' then normalize_segments decode rest (butlast segments)
            else normalize_segments decode rest (segments @ [segment]))"

definition normalize_path :: "(string \<Rightarrow> string option) \<Rightarrow> string \<Rightarrow> string + string" where
  "normalize_path decode path =
     (case normalize_segments decode (path_segments path) [] of
        Inl e \<Rightarrow> Inl e
      | Inr segments \<Rightarrow>
          let result = ''/'' @ join ''/'' segments
          in Inr (if length path > 1 \<and> ends_with path ''/'' \<and> \<not> ends_with result ''/'' then result @ ''/'' else result))"

subsection \<open>Endpoints\<close>

record ParsedUrl =
  pu_scheme :: string
  pu_host :: string
  pu_path :: string

definition parse_url :: "NetEnv \<Rightarrow> (string \<Rightarrow> string option) \<Rightarrow> string \<Rightarrow> string + ParsedUrl" where
  "parse_url env decode url =
     (case ne_parse_url env url of
        Inl e \<Rightarrow> Inl (''URL parse failed: '' @ e)
      | Inr parsed \<Rightarrow>
          let scheme = to_lowercase (u_scheme parsed)
          in if scheme \<noteq> ''http'' \<and> scheme \<noteq> ''https'' then Inl (''Unsupported scheme: '' @ scheme)
             else if u_username parsed \<noteq> [] \<or> u_password parsed \<noteq> None
             then Inl ''URL contains userinfo (@) which is not allowed''
             else (case u_host_str parsed of
                None \<Rightarrow> Inl ''Empty host''
              | Some host \<Rightarrow>
                  (case normalize_path decode (u_path parsed) of
                     Inl e \<Rightarrow> Inl e
                   | Inr path \<Rightarrow> Inr \<lparr>pu_scheme = scheme, pu_host = to_lowercase (strip_brackets host), pu_path = path\<rparr>)))"

record EndpointPattern =
  ep_host :: string
  ep_path_prefix :: "string option"
  ep_methods :: "string list"

definition endpoint_host :: "string \<Rightarrow> EndpointPattern" where
  "endpoint_host host = \<lparr>ep_host = host, ep_path_prefix = None, ep_methods = []\<rparr>"

definition ep_host_matches :: "EndpointPattern \<Rightarrow> string \<Rightarrow> bool" where
  "ep_host_matches p url_host =
     (if ep_host p = url_host then True
      else case strip_prefix ''*.'' (ep_host p) of
          None \<Rightarrow> False
        | Some suf \<Rightarrow>
            if ends_with url_host suf \<and> length url_host > length suf
            then (let pre = take (length url_host - length suf) url_host in ends_with pre ''.'' \<or> pre = [])
            else False)"

definition ep_path_matches :: "EndpointPattern \<Rightarrow> string \<Rightarrow> bool" where
  "ep_path_matches p path = (case ep_path_prefix p of Some pre \<Rightarrow> starts_with path pre | None \<Rightarrow> True)"

definition ep_method_matches :: "EndpointPattern \<Rightarrow> string \<Rightarrow> bool" where
  "ep_method_matches p m =
     (ep_methods p = [] \<or> list_ex (\<lambda>m'. to_uppercase m' = to_uppercase m) (ep_methods p))"

definition ep_matches :: "EndpointPattern \<Rightarrow> string \<Rightarrow> string \<Rightarrow> string \<Rightarrow> bool" where
  "ep_matches p url_host url_path m = (ep_host_matches p url_host \<and> ep_path_matches p url_path \<and> ep_method_matches p m)"

datatype DenyReason =
    InvalidUrl string | HostNotAllowed string | PathNotAllowed string string | MethodNotAllowed string string
  | EmptyAllowlist | InsecureScheme string

datatype AllowlistResult = EndpointAllowed | EndpointDenied DenyReason

record AllowlistValidator =
  av_patterns :: "EndpointPattern list"
  av_require_https :: bool

definition validator_new :: "EndpointPattern list \<Rightarrow> AllowlistValidator" where
  "validator_new patterns = \<lparr>av_patterns = patterns, av_require_https = True\<rparr>"

definition allow_http :: "AllowlistValidator \<Rightarrow> AllowlistValidator" where
  "allow_http v = v\<lparr>av_require_https := False\<rparr>"

definition validate :: "NetEnv \<Rightarrow> (string \<Rightarrow> string option) \<Rightarrow> AllowlistValidator \<Rightarrow> string \<Rightarrow> string \<Rightarrow> AllowlistResult" where
  "validate env decode v url m =
     (if av_patterns v = [] then EndpointDenied EmptyAllowlist
      else case parse_url env decode url of
          Inl e \<Rightarrow> EndpointDenied (InvalidUrl e)
        | Inr parsed \<Rightarrow>
            if av_require_https v \<and> pu_scheme parsed \<noteq> ''https'' then EndpointDenied (InsecureScheme (pu_scheme parsed))
            else if list_ex (\<lambda>p. ep_matches p (pu_host parsed) (pu_path parsed) m) (av_patterns v) then EndpointAllowed
            else let host_matches = filter (\<lambda>p. ep_host_matches p (pu_host parsed)) (av_patterns v)
                 in if host_matches = [] then EndpointDenied (HostNotAllowed (pu_host parsed))
                    else let path_matches = filter (\<lambda>p. ep_path_prefix p = None \<or>
                           starts_with (pu_path parsed) (case ep_path_prefix p of Some pre \<Rightarrow> pre | None \<Rightarrow> [])) host_matches
                         in if path_matches = [] then EndpointDenied (PathNotAllowed (pu_host parsed) (pu_path parsed))
                            else EndpointDenied (MethodNotAllowed m (pu_host parsed)))"

definition host_allowed :: "AllowlistValidator \<Rightarrow> string \<Rightarrow> bool" where
  "host_allowed v host = list_ex (\<lambda>p. ep_host_matches p host) (av_patterns v)"

definition secret_allowed :: "string list \<Rightarrow> string \<Rightarrow> bool" where
  "secret_allowed allowed_names name =
     list_ex (\<lambda>pattern. pattern = name \<or>
       (case strip_suffix ''*'' pattern of Some pre \<Rightarrow> starts_with name pre | None \<Rightarrow> False)) allowed_names"

subsection \<open>Domains\<close>

record DomainPattern =
  dp_pattern :: string
  dp_is_wildcard :: bool
  dp_base_domain :: string

definition domain_pattern_new :: "string \<Rightarrow> DomainPattern" where
  "domain_pattern_new pattern =
     (let wild = starts_with pattern ''*.''
      in \<lparr>dp_pattern = pattern, dp_is_wildcard = wild,
          dp_base_domain = to_lowercase (if wild then drop 2 pattern else pattern)\<rparr>)"

definition domain_matches :: "DomainPattern \<Rightarrow> string \<Rightarrow> bool" where
  "domain_matches p host =
     (let host_lower = to_lowercase host
      in if dp_is_wildcard p then host_lower = dp_base_domain p \<or> ends_with host_lower (''.'' @ dp_base_domain p)
         else host_lower = dp_base_domain p)"

datatype DomainValidationResult = DomainAllowed | DomainDenied string

definition domain_allowlist_new :: "string list \<Rightarrow> DomainPattern list" where
  "domain_allowlist_new domains = map domain_pattern_new domains"

definition domain_add :: "string \<Rightarrow> DomainPattern list \<Rightarrow> DomainPattern list" where
  "domain_add pattern patterns = patterns @ [domain_pattern_new pattern]"

definition domain_is_allowed :: "DomainPattern list \<Rightarrow> string \<Rightarrow> DomainValidationResult" where
  "domain_is_allowed patterns host =
     (if patterns = [] then DomainDenied ''empty allowlist''
      else if list_ex (\<lambda>p. domain_matches p host) patterns then DomainAllowed
      else DomainDenied (''host '' @ [CHR 0x27] @ host @ [CHR 0x27] @ '' not in allowlist: ['' @
        join '', '' (map dp_pattern patterns) @ '']''))"

definition proxy_extract_host :: "NetEnv \<Rightarrow> string \<Rightarrow> string option" where
  "proxy_extract_host env url =
     (case ne_parse_url env url of
        Inl _ \<Rightarrow> None
      | Inr parsed \<Rightarrow>
          if u_scheme parsed \<notin> {''http'', ''https''} then None
          else map_option (\<lambda>h. to_lowercase (strip_brackets h)) (u_host_str parsed))"

subsection \<open>Canonical paths\<close>

definition canonical_segment :: "string \<Rightarrow> bool" where
  "canonical_segment s = (s \<noteq> [] \<and> s \<noteq> ''.'' \<and> s \<noteq> ''..'' \<and> CHR ''/'' \<notin> set s \<and> CHR 0x5C \<notin> set s)"

lemma normalize_segments_canonical:
  "normalize_segments decode raws st = Inr segs \<Longrightarrow> list_all canonical_segment st \<Longrightarrow> list_all canonical_segment segs"
proof (induction decode raws st rule: normalize_segments.induct)
  case (2 decode raw rest segments)
  have "list_all canonical_segment (butlast segments)" using "2.prems"(2) by (auto simp: list_all_iff dest: in_set_butlastD)
  moreover have "canonical_segment s" if "s \<noteq> []" "s \<noteq> ''.''" "s \<noteq> ''..''" "CHR ''/'' \<notin> set s" "CHR 0x5C \<notin> set s" for s
    using that by (simp add: canonical_segment_def)
  ultimately show ?case using 2 by (auto split: if_splits option.splits)
qed simp

lemma canonical_no_slash: "canonical_segment s \<Longrightarrow> list_all (\<lambda>c. c \<noteq> CHR ''/'') s"
  by (auto simp: canonical_segment_def list_all_iff)

lemma path_segments_join:
  "list_all canonical_segment segs \<Longrightarrow> segs \<noteq> [] \<Longrightarrow> path_segments (join ''/'' segs @ post) =
     butlast segs @ path_segments (last segs @ post)"
proof (induction segs)
  case (Cons w ws)
  show ?case
  proof (cases ws)
    case (Cons v vs)
    have "path_segments (join ''/'' (w # ws) @ post) = w # path_segments (join ''/'' ws @ post)"
      using split_on_append_sep [OF canonical_no_slash, of w "CHR ''/''"] Cons.prems Cons by (simp add: path_segments_def)
    then show ?thesis using Cons.IH Cons.prems Cons by simp
  qed simp
qed simp


text \<open>
  Also: A path is compared with the allowed prefixes in canonical form: if \<open>normalize_path\<close> accepts a path
  then its result is absolute and none of its segments is \<open>.\<close> or \<open>..\<close>, or hides a separator.
\<close>

theorem normalize_path_canonical:
  assumes "normalize_path decode path = Inr q"
  shows "starts_with q ''/'' \<and> (\<forall>s \<in> set (path_segments q). s = [] \<or> canonical_segment s)"
proof -
  obtain segs where segs: "normalize_segments decode (path_segments path) [] = Inr segs"
    and q: "q = ''/'' @ join ''/'' segs \<or> q = ''/'' @ join ''/'' segs @ ''/''"
    using assms by (auto simp: normalize_path_def Let_def split: sum.splits if_splits)
  have can: "list_all canonical_segment segs" using normalize_segments_canonical [OF segs] by simp
  have "set (path_segments (join ''/'' segs @ post)) \<subseteq> insert [] (set segs)" if "post = [] \<or> post = ''/''" for post
  proof (cases "segs = []")
    case True
    then show ?thesis using that by (auto simp: path_segments_def)
  next
    case False
    have "path_segments (last segs @ post) = (if post = [] then [last segs] else [last segs, []])"
      using that False can split_on_append_sep [OF canonical_no_slash, of "last segs" "CHR ''/''" "[]"]
        split_on_none [OF canonical_no_slash, of "last segs"]
      by (auto simp: path_segments_def list_all_iff)
    then show ?thesis using False path_segments_join [OF can False, of post]
      by (auto dest: in_set_butlastD)
  qed
  from this [of "[]"] this [of "''/''"] q
  have "set (path_segments q) \<subseteq> insert [] (set segs)" by (auto simp: path_segments_def)
  then show ?thesis using q can by (auto simp: list_all_iff)
qed

theorem normalize_path_canonical_witness:
  "\<not> (\<exists>s \<in> set (path_segments ''/admin''). s = ''..'') \<and> normalize_path Some ''/v1/../admin'' = Inr ''/admin''"
proof -
  have n: "normalize_path Some ''/v1/../admin'' = Inr ''/admin''" by code_simp
  show ?thesis using normalize_path_canonical [OF n] n by (auto simp: canonical_segment_def)
qed

subsection \<open>Allowed requests\<close>

text \<open>The host of a pattern, or a proper subdomain of the base of a wildcard.\<close>

lemma ep_host_matches_iff:
  "ep_host_matches p h \<longleftrightarrow> h = ep_host p \<or> (\<exists>base sub. ep_host p = ''*.'' @ base \<and> h = sub @ ''.'' @ base)"
proof (cases "h = ep_host p")
  case False
  have "ep_host_matches p h \<longleftrightarrow> (\<exists>base. ep_host p = ''*.'' @ base \<and> suffix base h \<and> length base < length h \<and>
      suffix ''.'' (take (length h - length base) h))"
    using False by (auto simp: ep_host_matches_def strip_prefix_def prefix_def Let_def)
  also have "\<dots> \<longleftrightarrow> (\<exists>base sub. ep_host p = ''*.'' @ base \<and> h = sub @ ''.'' @ base)"
    by (auto simp: suffix_def)
  finally show ?thesis using False by simp
qed (simp add: ep_host_matches_def)

text \<open>
  Property C21. What the allowlist of a WASM tool lets through: an allowed URL parses, uses https where that is
  required, carries no user name or password, and some pattern names its host, or a domain it is a
  proper subdomain of, together with a prefix of its canonical path and its method.
\<close>

theorem allowlist_sound:
  assumes "validate env decode v url m = EndpointAllowed"
  shows "\<exists>u host path p. ne_parse_url env url = Inr u \<and> u_username u = [] \<and> u_password u = None \<and>
    (av_require_https v \<longrightarrow> to_lowercase (u_scheme u) = ''https'') \<and> u_host_str u = Some host \<and>
    normalize_path decode (u_path u) = Inr path \<and> p \<in> set (av_patterns v) \<and>
    (let h = to_lowercase (strip_brackets host)
     in h = ep_host p \<or> (\<exists>base sub. ep_host p = ''*.'' @ base \<and> h = sub @ ''.'' @ base)) \<and>
    (\<forall>pre. ep_path_prefix p = Some pre \<longrightarrow> starts_with path pre) \<and>
    (ep_methods p = [] \<or> (\<exists>m' \<in> set (ep_methods p). to_uppercase m' = to_uppercase m))"
proof -
  obtain parsed p where parsed: "parse_url env decode url = Inr parsed" "av_require_https v \<longrightarrow> pu_scheme parsed = ''https''"
    and p: "p \<in> set (av_patterns v)" "ep_matches p (pu_host parsed) (pu_path parsed) m"
    using assms by (auto simp: validate_def list_ex_iff Let_def split: if_splits sum.splits)
  obtain u host where u: "ne_parse_url env url = Inr u" "u_username u = []" "u_password u = None" "u_host_str u = Some host"
    "normalize_path decode (u_path u) = Inr (pu_path parsed)" "pu_scheme parsed = to_lowercase (u_scheme u)"
    "pu_host parsed = to_lowercase (strip_brackets host)"
    using parsed(1) by (auto simp: parse_url_def Let_def split: if_splits sum.splits option.splits)
  have "ep_path_prefix p = Some pre \<longrightarrow> starts_with (pu_path parsed) pre" for pre
    using p(2) by (auto simp: ep_matches_def ep_path_matches_def)
  moreover have "ep_methods p = [] \<or> (\<exists>m' \<in> set (ep_methods p). to_uppercase m' = to_uppercase m)"
    using p(2) by (auto simp: ep_matches_def ep_method_matches_def list_ex_iff)
  moreover have "ep_host_matches p (to_lowercase (strip_brackets host))" using p(2) u(7) by (simp add: ep_matches_def)
  ultimately show ?thesis using u p(1) parsed(2) unfolding Let_def ep_host_matches_iff by metis
qed

text \<open>
  Also: A refusal gives the true reason: the host is named only if no pattern has it, the path only if some
  pattern has the host but none of these the path, the method only if some pattern has host and path.
\<close>

theorem allowlist_reason:
  assumes "validate env decode v url m = EndpointDenied r" and "parse_url env decode url = Inr u"
  shows "case r of
      EmptyAllowlist \<Rightarrow> av_patterns v = []
    | InvalidUrl e \<Rightarrow> False
    | InsecureScheme s \<Rightarrow> av_require_https v \<and> s = pu_scheme u \<and> s \<noteq> ''https''
    | HostNotAllowed h \<Rightarrow> h = pu_host u \<and> \<not> host_allowed v h
    | PathNotAllowed h path \<Rightarrow> h = pu_host u \<and> path = pu_path u \<and> host_allowed v h \<and>
        \<not> (\<exists>p \<in> set (av_patterns v). ep_host_matches p h \<and> ep_path_matches p path)
    | MethodNotAllowed m' h \<Rightarrow> m' = m \<and> h = pu_host u \<and>
        (\<exists>p \<in> set (av_patterns v). ep_host_matches p h \<and> ep_path_matches p (pu_path u)) \<and>
        \<not> (\<exists>p \<in> set (av_patterns v). ep_matches p h (pu_path u) m)"
proof -
  have path: "(ep_path_prefix p = None \<or> starts_with (pu_path u) (case ep_path_prefix p of Some pre \<Rightarrow> pre | None \<Rightarrow> [])) \<longleftrightarrow>
      ep_path_matches p (pu_path u)" for p by (auto simp: ep_path_matches_def split: option.split)
  show ?thesis using assms(1) unfolding validate_def assms(2) sum.case path
    by (fastforce simp: host_allowed_def list_ex_iff filter_empty_conv Let_def split: if_splits)
qed


definition demo_patterns :: "EndpointPattern list" where
  "demo_patterns = [\<lparr>ep_host = ''*.com'', ep_path_prefix = Some ''/'', ep_methods = [''get'']\<rparr>]"

lemma demo_parse: "parse_url (demo_net []) Some ''u'' = Inr \<lparr>pu_scheme = ''https'', pu_host = ''example.com'', pu_path = ''/''\<rparr>"
  by code_simp

lemma demo_host: "ep_host_matches \<lparr>ep_host = ''*.com'', ep_path_prefix = Some ''/'', ep_methods = [''get'']\<rparr> ''example.com''"
  by code_simp

theorem allowlist_sound_witness:
  "\<exists>u path. ne_parse_url (demo_net []) ''u'' = Inr u \<and> normalize_path Some (u_path u) = Inr path \<and> starts_with path ''/''"
proof -
  have "to_uppercase ''get'' = to_uppercase ''GET''" by code_simp
  then have "validate (demo_net []) Some (validator_new demo_patterns) ''u'' ''GET'' = EndpointAllowed"
    using demo_host by (simp add: validate_def demo_parse validator_new_def demo_patterns_def ep_matches_def
        ep_path_matches_def ep_method_matches_def)
  from allowlist_sound [OF this] show ?thesis by (auto simp: validator_new_def demo_patterns_def)
qed

theorem allowlist_reason_witness: "host_allowed (validator_new demo_patterns) ''example.com'' \<and>
    \<not> ep_method_matches (hd demo_patterns) ''POST''"
proof -
  have m: "to_uppercase ''get'' \<noteq> to_uppercase ''POST''" by code_simp
  then have "validate (demo_net []) Some (validator_new demo_patterns) ''u'' ''POST'' = EndpointDenied (MethodNotAllowed ''POST'' ''example.com'')"
    using demo_host by (simp add: validate_def demo_parse validator_new_def demo_patterns_def ep_matches_def
        ep_path_matches_def ep_method_matches_def)
  from allowlist_reason [OF this demo_parse] m show ?thesis
    by (auto simp: validator_new_def demo_patterns_def host_allowed_def ep_method_matches_def)
qed

text \<open>
  Also: The proxy lets a host through exactly if, up to the case of letters, it is one of the listed domains
  or, for a domain listed with a wildcard, that domain itself or a subdomain of it.
\<close>

theorem domain_allowlist_spec:
  "domain_is_allowed (domain_allowlist_new domains) host = DomainAllowed \<longleftrightarrow>
     (\<exists>d \<in> set domains. let h = to_lowercase host in
        (case strip_prefix ''*.'' d of
           None \<Rightarrow> h = to_lowercase d
         | Some base \<Rightarrow> h = to_lowercase base \<or> (\<exists>sub. h = sub @ ''.'' @ to_lowercase base)))"
proof -
  have "domain_matches (domain_pattern_new d) host \<longleftrightarrow> (let h = to_lowercase host in
        (case strip_prefix ''*.'' d of
           None \<Rightarrow> h = to_lowercase d
         | Some base \<Rightarrow> h = to_lowercase base \<or> (\<exists>sub. h = sub @ ''.'' @ to_lowercase base)))" for d
    by (simp add: domain_matches_def domain_pattern_new_def strip_prefix_def suffix_def Let_def numeral_2_eq_2)
  then show ?thesis
    by (cases domains) (auto simp: domain_is_allowed_def domain_allowlist_new_def list_ex_iff)
qed

text \<open>The patterns of endpoints, unlike those of domains, are not mapped to lower case: one with a capital letter matches nothing.\<close>

lemma capital_pattern_dead:
  assumes "c \<in> set (drop 2 (ep_host p))" and "65 \<le> (of_char c :: nat)" and "(of_char c :: nat) \<le> 90"
    and "parse_url env decode url = Inr u"
  shows "\<not> ep_host_matches p (pu_host u)"
proof
  assume m: "ep_host_matches p (pu_host u)"
  obtain h where h: "pu_host u = to_lowercase h"
    using assms(4) by (auto simp: parse_url_def Let_def split: if_splits sum.splits option.splits)
  have "c \<in> set (pu_host u)" using m assms(1) unfolding ep_host_matches_iff by (auto dest: in_set_dropD)
  then show False using to_lower_char_not_upper assms(2, 3) by (auto simp: h to_lowercase_def)
qed

end
