(* ===== verification/Path_Utils.thy ===== *)
theory Path_Utils
  imports Tool
begin

text \<open>
  The paths file tools accept (\<^verbatim>\<open>src/tools/builtin/path_utils.rs\<close>, and \<open>validate_save_to_path\<close> of
  \<^verbatim>\<open>src/tools/builtin/http.rs\<close>). The lemmas say that an accepted path has no traversal left in it and that
  the file it leads to, through whatever symbolic links, is inside the base directory.

  A path is the list of its components, as \<open>Path::components\<close> gives them on a Unix system. The file system is an
  argument: what exists, what \<open>canonicalize\<close> resolves a path to, the current directory. One call sees one
  state of the file system.
\<close>

subsection \<open>Paths\<close>

datatype Component = RootDir | CurDir | ParentDir | Normal string

type_synonym path = "Component list"

fun component_of :: "string \<Rightarrow> Component" where
  "component_of s = (if s = ''..'' then ParentDir else Normal s)"

definition components :: "string \<Rightarrow> path" where
  "components s =
     (let segs = split_on (\<lambda>c. c = CHR ''/'') s
      in (if starts_with s ''/'' then [RootDir] else if hd segs = ''.'' then [CurDir] else []) @
         map component_of (filter (\<lambda>seg. seg \<noteq> [] \<and> seg \<noteq> ''.'') segs))"

definition is_absolute :: "path \<Rightarrow> bool" where
  "is_absolute p = (p \<noteq> [] \<and> hd p = RootDir)"

definition path_join :: "path \<Rightarrow> path \<Rightarrow> path" where
  "path_join base p =
     (if is_absolute p then p else if base = [] then p else base @ filter (\<lambda>c. c \<noteq> CurDir) p)"

definition file_name :: "path \<Rightarrow> string option" where
  "file_name p = (if p = [] then None else case last p of Normal n \<Rightarrow> Some n | _ \<Rightarrow> None)"

definition path_parent :: "path \<Rightarrow> path option" where
  "path_parent p = (if p = [] \<or> last p = RootDir then None else Some (butlast p))"

fun normalize_step :: "Component \<Rightarrow> path \<Rightarrow> path" where
  "normalize_step ParentDir acc = (case acc of [] \<Rightarrow> acc | _ \<Rightarrow> (case last acc of Normal _ \<Rightarrow> butlast acc | _ \<Rightarrow> acc))"
| "normalize_step CurDir acc = acc"
| "normalize_step other acc = acc @ [other]"

definition normalize_lexical :: "path \<Rightarrow> path" where
  "normalize_lexical p = fold normalize_step p []"

subsection \<open>Validation\<close>

record FsEnv =
  fs_canonicalize :: "path \<Rightarrow> path option"
  fs_exists :: "path \<Rightarrow> bool"
  fs_current_dir :: "path option"

definition canonicalize_or :: "FsEnv \<Rightarrow> path \<Rightarrow> path \<Rightarrow> path" where
  "canonicalize_or fs p fallback = (case fs_canonicalize fs p of Some q \<Rightarrow> q | None \<Rightarrow> fallback)"

definition is_path_safe_minimal :: "string \<Rightarrow> bool" where
  "is_path_safe_minimal path =
     (CHR 0x00 \<notin> set path \<and>
      (let lower = to_lowercase path in \<not> (contains lower ''%2e'' \<or> contains lower ''%2f'' \<or> contains lower ''%5c'')))"

definition is_path_safe_basic :: "string \<Rightarrow> bool" where
  "is_path_safe_basic path =
     (\<not> contains path ''..'' \<and> CHR 0x00 \<notin> set path \<and>
      (let lower = to_lowercase path in \<not> (contains lower ''%2e'' \<or> contains lower ''%2f'' \<or> contains lower ''%5c'')))"

text \<open>The walk up to the nearest existing ancestor, with the names below it.\<close>

function nearest_existing :: "FsEnv \<Rightarrow> path \<Rightarrow> path \<Rightarrow> string list \<Rightarrow> path" where
  "nearest_existing fs resolved ancestor tail =
     (if fs_exists fs ancestor then canonicalize_or fs ancestor ancestor @ map Normal tail
      else let tail = (case file_name ancestor of Some name \<Rightarrow> name # tail | None \<Rightarrow> tail)
           in case path_parent ancestor of
               Some parent \<Rightarrow> nearest_existing fs resolved parent tail
             | None \<Rightarrow> resolved)"
  by pat_completeness auto

termination
  by (relation "measure (\<lambda>(_, _, ancestor, _). length ancestor)") (auto simp: path_parent_def split: if_splits)

declare nearest_existing.simps [simp del]

definition check_path :: "FsEnv \<Rightarrow> path \<Rightarrow> path" where
  "check_path fs resolved =
     (if fs_exists fs resolved then canonicalize_or fs resolved resolved
      else nearest_existing fs resolved resolved [])"

definition resolve_path :: "FsEnv \<Rightarrow> path \<Rightarrow> path option \<Rightarrow> path" where
  "resolve_path fs path base_dir =
     (if is_absolute path then canonicalize_or fs path (normalize_lexical path)
      else case base_dir of
          Some base \<Rightarrow> let joined = path_join base path in canonicalize_or fs joined (normalize_lexical joined)
        | None \<Rightarrow>
            normalize_lexical (path_join (case fs_current_dir fs of Some d \<Rightarrow> d | None \<Rightarrow> components ''.'') path))"

definition validate_path :: "FsEnv \<Rightarrow> string \<Rightarrow> path option \<Rightarrow> ToolError + path" where
  "validate_path fs path_str base_dir =
     (if \<not> is_path_safe_minimal path_str
      then Inl (NotAuthorized (''Path contains forbidden characters or sequences: '' @ path_str))
      else let resolved = resolve_path fs (components path_str) base_dir
           in case base_dir of
               None \<Rightarrow> Inr resolved
             | Some base \<Rightarrow>
                 if prefix (canonicalize_or fs base (normalize_lexical base)) (check_path fs resolved) then Inr resolved
                 else Inl (NotAuthorized (''Path escapes sandbox: '' @ path_str)))"

text \<open>\<open>create_dir_all\<close> is an argument: the error it gives, if it fails.\<close>

definition validate_save_to_path :: "FsEnv \<Rightarrow> (path \<Rightarrow> string option) \<Rightarrow> string \<Rightarrow> ToolError + path" where
  "validate_save_to_path fs create_dir_all save_to =
     (if \<not> starts_with save_to ''/tmp/'' then Inl (InvalidParameters ''save_to path must be under /tmp/'')
      else case validate_path fs save_to (Some (components ''/tmp'')) of
          Inl e \<Rightarrow> Inl e
        | Inr validated \<Rightarrow>
            (case Option.bind (path_parent validated) create_dir_all of
               Some e \<Rightarrow> Inl (ExecutionFailed (''failed to create directory: '' @ e))
             | None \<Rightarrow> Inr validated))"

subsection \<open>Lexical normalization\<close>

text \<open>A path without traversal: at most a root, then names only.\<close>

definition plain :: "path \<Rightarrow> bool" where
  "plain p = (ParentDir \<notin> set p \<and> CurDir \<notin> set p)"

lemma normalize_step_plain: "plain acc \<Longrightarrow> plain (normalize_step c acc)"
  by (cases c) (auto simp: plain_def split: list.split Component.split dest: in_set_butlastD)

lemma normalize_fold_plain: "plain acc \<Longrightarrow> plain (fold normalize_step p acc)"
  by (induction p arbitrary: acc) (simp_all add: normalize_step_plain)

lemma normalize_lexical_plain [simp]: "plain (normalize_lexical p)"
  unfolding normalize_lexical_def by (rule normalize_fold_plain) (simp add: plain_def)

lemma normalize_fold_id: "plain p \<Longrightarrow> fold normalize_step p acc = acc @ p"
proof (induction p arbitrary: acc)
  case (Cons c p)
  then show ?case by (cases c) (auto simp: plain_def)
qed simp

text \<open>
  Also: Normalization removes every \<open>.\<close> and \<open>..\<close>, leaves a path that has none as it is, and is idempotent.
\<close>

theorem normalize_lexical_spec:
  "plain (normalize_lexical p) \<and> (plain p \<longrightarrow> normalize_lexical p = p) \<and>
   normalize_lexical (normalize_lexical p) = normalize_lexical p"
  using normalize_fold_id [of _ "[]"] normalize_lexical_plain [of p] unfolding normalize_lexical_def by simp

theorem normalize_lexical_spec_witness: "normalize_lexical (components ''/a/b'') = components ''/a/b''"
proof -
  have "plain (components ''/a/b'')" by code_simp
  then show ?thesis using normalize_lexical_spec [of "components ''/a/b''"] by simp
qed

subsection \<open>Containment\<close>

lemma nearest_existing_at:
  assumes "fs_exists fs d" and "fs_canonicalize fs d = Some q"
    and "\<And>k. k < length ns \<Longrightarrow> \<not> fs_exists fs (d @ map Normal (take (Suc k) ns))"
  shows "nearest_existing fs r (d @ map Normal ns) tail = q @ map Normal (ns @ tail)"
  using assms(3)
proof (induction ns arbitrary: tail rule: rev_induct)
  case Nil
  then show ?case using assms(1, 2) by (subst nearest_existing.simps) (simp add: canonicalize_or_def)
next
  case (snoc n ns)
  have "\<not> fs_exists fs (d @ map Normal (ns @ [n]))" using snoc.prems [of "length ns"] by simp
  moreover have "\<not> fs_exists fs (d @ map Normal (take (Suc k) ns))" if "k < length ns" for k
    using snoc.prems [of k] that by simp
  ultimately show ?case using snoc.IH [of "n # tail"]
    by (subst nearest_existing.simps) (simp add: file_name_def path_parent_def Let_def butlast_append)
qed

text \<open>The directory an accepted path must stay in.\<close>

definition sandbox_root :: "FsEnv \<Rightarrow> path \<Rightarrow> path" where
  "sandbox_root fs base = canonicalize_or fs base (normalize_lexical base)"


text \<open>
  Also: An accepted path has no traversal left in it, given that \<open>canonicalize\<close> gives paths without one, as
  it is documented to do.
\<close>

theorem validated_path_plain:
  assumes "\<And>p q. fs_canonicalize fs p = Some q \<Longrightarrow> plain q"
    and "validate_path fs s base_dir = Inr r"
  shows "plain r"
proof -
  have "r = resolve_path fs (components s) base_dir"
    using assms(2) by (auto simp: validate_path_def Let_def split: if_splits option.splits)
  then show ?thesis using assms(1)
    by (auto simp: resolve_path_def canonicalize_or_def Let_def split: option.splits)
qed

text \<open>A file system with a directory \<open>/ws\<close> and, in it, a symbolic link \<open>link\<close> to \<open>/etc\<close>.\<close>

definition demo_fs :: FsEnv where
  "demo_fs =
     \<lparr>fs_canonicalize = (\<lambda>p. if p = components ''/ws'' then Some p
        else if p = components ''/ws/link'' \<or> p = components ''/etc'' then Some (components ''/etc'') else None),
      fs_exists = (\<lambda>p. p \<in> {components ''/ws'', components ''/ws/link'', components ''/etc''}),
      fs_current_dir = None\<rparr>"

lemma demo_accepts: "validate_path demo_fs ''a/../b/new.txt'' (Some (components ''/ws'')) = Inr (components ''/ws/b/new.txt'')"
  by code_simp

lemma demo_refuses_link:
  "validate_path demo_fs ''link/passwd'' (Some (components ''/ws'')) = Inl (NotAuthorized ''Path escapes sandbox: link/passwd'')"
  by code_simp


theorem validated_path_plain_witness: "plain (components ''/ws/b/new.txt'')"
proof (rule validated_path_plain [OF _ demo_accepts])
  have "plain (components ''/ws'')" "plain (components ''/etc'')" by code_simp+
  then show "plain q" if "fs_canonicalize demo_fs p = Some q" for p q using that by (auto simp: demo_fs_def split: if_splits)
qed

text \<open>
  Also: A file the HTTP tool is asked to save goes under \<open>/tmp\<close>: an existing target resolves to a file there.
\<close>

theorem save_to_contained:
  assumes "validate_save_to_path fs create_dir_all s = Inr r" and "fs_exists fs r" and "fs_canonicalize fs r = Some q"
  shows "prefix (sandbox_root fs (components ''/tmp'')) q"
proof -
  have "validate_path fs s (Some (components ''/tmp'')) = Inr r"
    using assms(1) by (auto simp: validate_save_to_path_def split: if_splits sum.splits option.splits)
  then show ?thesis using assms(2, 3)
    by (auto simp: validate_path_def check_path_def canonicalize_or_def sandbox_root_def Let_def split: if_splits option.splits)
qed


theorem save_to_contained_witness: "prefix (components ''/tmp'') (components ''/tmp/x'')"
proof -
  let ?fs = "\<lparr>fs_canonicalize = Some, fs_exists = (\<lambda>_. True), fs_current_dir = None\<rparr>"
  have "validate_save_to_path ?fs (\<lambda>_. None) ''/tmp/x'' = Inr (components ''/tmp/x'')" by code_simp
  from save_to_contained [OF this] show ?thesis by (simp add: sandbox_root_def canonicalize_or_def)
qed

end
