(* ===== verification/Skills.thy ===== *)
theory Skills
  imports Hooks
begin

text \<open>
  Skills: trust, limits and names (\<^verbatim>\<open>src/skills/mod.rs\<close>), the selection of skills for a message
  (\<^verbatim>\<open>src/skills/selector.rs\<close>) and the restriction of tools by trust (\<^verbatim>\<open>src/skills/attenuation.rs\<close>). The
  lemmas bound what the prompt of skills may take, what a skill can score, and which tools are offered
  to the model while a skill that is not trusted is active.

  Regular expressions are arguments, as for hooks. \<open>usize\<close> is 64 bits wide and its multiplication wraps, as in a
  release build; the estimate of tokens, a quarter of the length in floating point, is exact for the
  lengths a skill file can have. The characters \<open>is_alphanumeric\<close> looks at are those of the ASCII
  range, every other byte being taken for a letter.
\<close>

subsection \<open>Trust and manifests\<close>

datatype SkillTrust = Installed | Trusted

instantiation SkillTrust :: linorder
begin

definition less_eq_SkillTrust :: "SkillTrust \<Rightarrow> SkillTrust \<Rightarrow> bool" where
  "less_eq_SkillTrust a b = (a = Installed \<or> b = Trusted)"

definition less_SkillTrust :: "SkillTrust \<Rightarrow> SkillTrust \<Rightarrow> bool" where
  "less_SkillTrust a b = (a = Installed \<and> b = Trusted)"

instance
proof
  fix a b c :: SkillTrust
  show "a < b \<longleftrightarrow> a \<le> b \<and> \<not> b \<le> a" by (cases a; cases b) (simp_all add: less_eq_SkillTrust_def less_SkillTrust_def)
  show "a \<le> a" by (cases a) (simp_all add: less_eq_SkillTrust_def)
  show "a \<le> b \<Longrightarrow> b \<le> c \<Longrightarrow> a \<le> c" by (cases a; cases b; cases c) (simp_all add: less_eq_SkillTrust_def)
  show "a \<le> b \<Longrightarrow> b \<le> a \<Longrightarrow> a = b" by (cases a; cases b) (simp_all add: less_eq_SkillTrust_def)
  show "a \<le> b \<or> b \<le> a" by (cases a; cases b) (simp_all add: less_eq_SkillTrust_def)
qed

end

record ActivationCriteria =
  ac_keywords :: "string list"
  ac_exclude_keywords :: "string list"
  ac_patterns :: "string list"
  ac_tags :: "string list"
  ac_max_context_tokens :: u64

definition enforce_limits :: "ActivationCriteria \<Rightarrow> ActivationCriteria" where
  "enforce_limits ac =
     \<lparr>ac_keywords = take 20 (filter (\<lambda>k. length k \<ge> 3) (ac_keywords ac)),
      ac_exclude_keywords = take 20 (filter (\<lambda>k. length k \<ge> 3) (ac_exclude_keywords ac)),
      ac_patterns = take 5 (ac_patterns ac),
      ac_tags = take 10 (filter (\<lambda>t. length t \<ge> 3) (ac_tags ac)),
      ac_max_context_tokens = ac_max_context_tokens ac\<rparr>"

record LoadedSkill =
  ls_name :: string
  ls_version :: string
  ls_activation :: ActivationCriteria
  ls_prompt_content :: string
  ls_trust :: SkillTrust
  ls_compiled_patterns :: "Regex list"
  ls_lowercased_keywords :: "string list"
  ls_lowercased_exclude_keywords :: "string list"
  ls_lowercased_tags :: "string list"

definition compile_patterns :: "(string \<Rightarrow> string + Regex) \<Rightarrow> string list \<Rightarrow> Regex list" where
  "compile_patterns regex patterns = concat (map (\<lambda>p. case regex p of Inr re \<Rightarrow> [re] | Inl _ \<Rightarrow> []) patterns)"

definition is_ascii_alnum :: "char \<Rightarrow> bool" where
  "is_ascii_alnum c =
     (let n = of_char c :: nat in (48 \<le> n \<and> n \<le> 57) \<or> (65 \<le> n \<and> n \<le> 90) \<or> (97 \<le> n \<and> n \<le> 122))"

text \<open>The regular expression \<open>^[a-zA-Z0-9][a-zA-Z0-9._-]{0,63}$\<close>.\<close>

definition validate_skill_name :: "string \<Rightarrow> bool" where
  "validate_skill_name name =
     (case name of
        [] \<Rightarrow> False
      | c # cs \<Rightarrow> is_ascii_alnum c \<and> length cs \<le> 63 \<and>
          list_all (\<lambda>c. is_ascii_alnum c \<or> c \<in> {CHR ''.'', CHR ''_'', CHR ''-''}) cs)"

definition replace_char :: "char \<Rightarrow> string \<Rightarrow> string \<Rightarrow> string" where
  "replace_char c r s = concat (map (\<lambda>x. if x = c then r else [x]) s)"

definition escape_xml_attr :: "string \<Rightarrow> string" where
  "escape_xml_attr s =
     replace_char (CHR ''>'') ''&gt;'' (replace_char (CHR ''<'') ''&lt;'' (replace_char (CHR 0x27) ''&apos;''
       (replace_char (CHR 0x22) ''&quot;'' (replace_char (CHR ''&'') ''&amp;'' s))))"

fun replace_crlf :: "string \<Rightarrow> string" where
  "replace_crlf (c # d # cs) =
     (if c = CHR 0x0D \<and> d = CHR 0x0A then CHR 0x0A # replace_crlf cs else c # replace_crlf (d # cs))"
| "replace_crlf cs = cs"

definition normalize_line_endings :: "string \<Rightarrow> string" where
  "normalize_line_endings content = replace_char (CHR 0x0D) [CHR 0x0A] (replace_crlf content)"

subsection \<open>Selection\<close>

definition is_alphanumeric :: "char \<Rightarrow> bool" where
  "is_alphanumeric c = (is_ascii_alnum c \<or> (of_char c :: nat) \<ge> 128)"

definition trim_word :: "string \<Rightarrow> string" where
  "trim_word w = rev (dropWhile (\<lambda>c. \<not> is_alphanumeric c) (rev (dropWhile (\<lambda>c. \<not> is_alphanumeric c) w)))"

definition keyword_points :: "string \<Rightarrow> string \<Rightarrow> nat" where
  "keyword_points message_lower kw =
     (if list_ex (\<lambda>word. trim_word word = kw) (split_whitespace message_lower) then 10
      else if contains message_lower kw then 5 else 0)"

definition score_skill :: "LoadedSkill \<Rightarrow> string \<Rightarrow> string \<Rightarrow> nat" where
  "score_skill skill message_lower message_original =
     (if list_ex (contains message_lower) (ls_lowercased_exclude_keywords skill) then 0
      else min (sum_list (map (keyword_points message_lower) (ls_lowercased_keywords skill))) 30 +
           min (sum_list (map (\<lambda>tag. if contains message_lower tag then 3 else 0) (ls_lowercased_tags skill))) 15 +
           min (sum_list (map (\<lambda>re. if rx_is_match re message_original then 20 else 0) (ls_compiled_patterns skill))) 40)"

definition approx_tokens :: "LoadedSkill \<Rightarrow> nat" where
  "approx_tokens skill = length (ls_prompt_content skill) div 4"

definition token_cost :: "LoadedSkill \<Rightarrow> nat" where
  "token_cost skill =
     (let declared = ac_max_context_tokens (ls_activation skill);
          raw = (if approx_tokens skill > unat (declared * 2) then approx_tokens skill else unat declared)
      in max raw 1)"

text \<open>The loop over the scored skills: candidates and budget left.\<close>

fun fill_budget :: "nat \<Rightarrow> nat \<Rightarrow> LoadedSkill list \<Rightarrow> LoadedSkill list" where
  "fill_budget candidates budget [] = []"
| "fill_budget candidates budget (skill # rest) =
     (if candidates = 0 then []
      else if token_cost skill \<le> budget
      then skill # fill_budget (candidates - 1) (budget - token_cost skill) rest
      else fill_budget candidates budget rest)"

definition prefilter_skills :: "string \<Rightarrow> LoadedSkill list \<Rightarrow> nat \<Rightarrow> nat \<Rightarrow> LoadedSkill list" where
  "prefilter_skills message available_skills max_candidates max_context_tokens =
     (if available_skills = [] \<or> message = [] then []
      else let lower = to_lowercase message;
               scored = filter (\<lambda>skill. score_skill skill lower message > 0) available_skills;
               scored = sort_key (\<lambda>skill. - int (score_skill skill lower message)) scored
           in fill_budget max_candidates max_context_tokens scored)"

subsection \<open>Attenuation\<close>

definition READ_ONLY_TOOLS :: "string list" where
  "READ_ONLY_TOOLS = [''memory_search'', ''memory_read'', ''memory_tree'', ''time'', ''echo'', ''json'', ''skill_list'', ''skill_search'']"

record AttenuationResult =
  ar_tools :: "ToolDefinition list"
  ar_min_trust :: SkillTrust
  ar_explanation :: string
  ar_removed_tools :: "string list"

definition attenuate_tools :: "ToolDefinition list \<Rightarrow> LoadedSkill list \<Rightarrow> AttenuationResult" where
  "attenuate_tools tools active_skills =
     (if active_skills = []
      then \<lparr>ar_tools = tools, ar_min_trust = Trusted, ar_explanation = ''No skills active, all tools available'', ar_removed_tools = []\<rparr>
      else let min_trust = Min (set (map ls_trust active_skills))
           in case min_trust of
               Trusted \<Rightarrow>
                 \<lparr>ar_tools = tools, ar_min_trust = min_trust,
                  ar_explanation = ''All active skills are trusted (full trust), all tools available'', ar_removed_tools = []\<rparr>
             | Installed \<Rightarrow>
                 let kept = filter (\<lambda>t. td_name t \<in> set READ_ONLY_TOOLS) tools;
                     removed = map td_name (filter (\<lambda>t. td_name t \<notin> set READ_ONLY_TOOLS) tools)
                 in \<lparr>ar_tools = kept, ar_min_trust = min_trust,
                     ar_explanation = ''Installed skill present: restricted to read-only tools, removed '' @
                       show_nat (length removed) @ '' tool(s): '' @ join '', '' removed,
                     ar_removed_tools = removed\<rparr>)"

subsection \<open>What skills may take\<close>

text \<open>
  Also: However a skill stuffs its manifest with keywords, tags and patterns, it scores at most 85 points, and
  a skill with an excluded keyword in the message scores none.
\<close>

theorem score_skill_bounds:
  "score_skill skill lower message \<le> 85 \<and>
   (list_ex (contains lower) (ls_lowercased_exclude_keywords skill) \<longrightarrow> score_skill skill lower message = 0)"
proof -
  have "min a 30 + min b 15 + min c 40 \<le> 85" for a b c :: nat by linarith
  then show ?thesis unfolding score_skill_def by simp
qed

theorem score_skill_bounds_witness:
  "score_skill \<lparr>ls_name = ''s'', ls_version = ''1'', ls_activation = \<lparr>ac_keywords = [], ac_exclude_keywords = [''no''],
     ac_patterns = [], ac_tags = [], ac_max_context_tokens = 10\<rparr>, ls_prompt_content = [], ls_trust = Trusted,
     ls_compiled_patterns = [], ls_lowercased_keywords = [''write''], ls_lowercased_exclude_keywords = [''no''],
     ls_lowercased_tags = []\<rparr> ''no write'' ''no write'' = 0" (is "score_skill ?s _ _ = 0")
proof -
  have "contains ''no write'' ''no''" by code_simp
  then have "list_ex (contains ''no write'') (ls_lowercased_exclude_keywords ?s)" by simp
  then show ?thesis using score_skill_bounds [of ?s "''no write''" "''no write''"] by blast
qed

lemma fill_budget_cost: "sum_list (map token_cost (fill_budget n b skills)) \<le> b"
proof (induction n b skills rule: fill_budget.induct)
  case (2 n b skill rest)
  show ?case
  proof (cases "n \<noteq> 0 \<and> token_cost skill \<le> b")
    case True
    then have "sum_list (map token_cost (fill_budget (n - 1) (b - token_cost skill) rest)) \<le> b - token_cost skill"
      using 2 by simp
    then show ?thesis using True by (simp add: le_diff_conv2 add.commute)
  next
    case False
    then show ?thesis using 2 by auto
  qed
qed simp

lemma length_fill_budget: "length (fill_budget n b skills) \<le> n"
  by (induction n b skills rule: fill_budget.induct) auto

lemma fill_budget_subseq: "subseq (fill_budget n b skills) skills"
  by (induction n b skills rule: fill_budget.induct) auto

lemma prefilter_eq:
  "\<exists>scored. prefilter_skills message available n b = fill_budget n b scored \<and> set scored \<subseteq> set available \<and>
     (\<forall>s \<in> set scored. 0 < score_skill s (to_lowercase message) message) \<and>
     sorted (map (\<lambda>s. - int (score_skill s (to_lowercase message) message)) scored)"
proof (cases "available = [] \<or> message = []")
  case True
  then show ?thesis by (intro exI [where x = "[]"]) (auto simp: prefilter_skills_def)
next
  case False
  then show ?thesis
    by (intro exI [where x = "sort_key (\<lambda>s. - int (score_skill s (to_lowercase message) message))
          (filter (\<lambda>s. score_skill s (to_lowercase message) message > 0) available)"])
       (auto simp: prefilter_skills_def Let_def)
qed

lemma subseq_set: "subseq xs ys \<Longrightarrow> set xs \<subseteq> set ys"
  by (induction rule: list_emb.induct) auto

lemma sorted_wrt_subseq: "sorted_wrt P ys \<Longrightarrow> subseq xs ys \<Longrightarrow> sorted_wrt P xs"
proof (induction ys arbitrary: xs)
  case (Cons y ys)
  show ?case
  proof (cases xs)
    case (Cons x xs')
    then show ?thesis using Cons.IH Cons.prems subseq_set by (cases "x = y") (fastforce simp: subseq_Cons2_iff)+
  qed simp
qed (auto dest: subseq_set)

text \<open>
  Also: Selection respects both limits: the selected skills are available ones that match the message, no
  more of them than allowed, best score first, and their costs together stay within the budget.
\<close>

theorem prefilter_within_budget:
  defines "score \<equiv> \<lambda>message s. score_skill s (to_lowercase message) message"
  shows "set (prefilter_skills message available n b) \<subseteq> {s \<in> set available. 0 < score message s} \<and>
    length (prefilter_skills message available n b) \<le> n \<and>
    sorted_wrt (\<lambda>s t. score message s \<ge> score message t) (prefilter_skills message available n b) \<and>
    sum_list (map token_cost (prefilter_skills message available n b)) \<le> b"
proof -
  obtain scored where eq: "prefilter_skills message available n b = fill_budget n b scored"
    and scored: "set scored \<subseteq> set available" "\<forall>s \<in> set scored. 0 < score message s"
      "sorted (map (\<lambda>s. - int (score message s)) scored)"
    using prefilter_eq [of message available n b] unfolding score_def by blast
  have "set (fill_budget n b scored) \<subseteq> set scored" using fill_budget_subseq [of n b scored] by (rule subseq_set)
  moreover have "sorted_wrt (\<lambda>s t. score message s \<ge> score message t) scored" using scored(3) by (simp add: sorted_map)
  then have "sorted_wrt (\<lambda>s t. score message s \<ge> score message t) (fill_budget n b scored)"
    using fill_budget_subseq [of n b scored] by (rule sorted_wrt_subseq)
  ultimately show ?thesis using scored by (auto simp: eq fill_budget_cost length_fill_budget)
qed

text \<open>
  Also: The prompts themselves stay within twice the budget: a skill may understate the size of its prompt by a
  factor of two at most, unless it declares so large a number that doubling it wraps around.
\<close>

theorem prefilter_prompt_size:
  assumes "\<forall>s \<in> set available. unat (ac_max_context_tokens (ls_activation s)) < 2 ^ 63"
  shows "sum_list (map approx_tokens (prefilter_skills message available n b)) \<le> 2 * b"
proof -
  obtain scored where eq: "prefilter_skills message available n b = fill_budget n b scored" "set scored \<subseteq> set available"
    using prefilter_eq by blast
  have size: "approx_tokens s \<le> 2 * token_cost s" if "s \<in> set available" for s
  proof -
    have "unat (ac_max_context_tokens (ls_activation s) * 2) = 2 * unat (ac_max_context_tokens (ls_activation s))"
      using assms that by (simp add: unat_word_ariths)
    then show ?thesis by (simp add: token_cost_def Let_def max_def)
  qed
  have "set (fill_budget n b scored) \<subseteq> set available"
    using subseq_set [OF fill_budget_subseq [of n b scored]] eq(2) by blast
  then have "sum_list (map approx_tokens (fill_budget n b scored)) \<le> sum_list (map (\<lambda>s. 2 * token_cost s) (fill_budget n b scored))"
    by (intro sum_list_mono) (use size in auto)
  also have "\<dots> = 2 * sum_list (map token_cost (fill_budget n b scored))" by (simp add: sum_list_const_mult)
  finally show ?thesis using fill_budget_cost [of n b scored] by (simp add: eq(1))
qed


definition demo_skill :: "SkillTrust \<Rightarrow> LoadedSkill" where
  "demo_skill trust = \<lparr>ls_name = ''writer'', ls_version = ''1.0'', ls_activation = \<lparr>ac_keywords = [''write''],
     ac_exclude_keywords = [], ac_patterns = [], ac_tags = [], ac_max_context_tokens = 10\<rparr>, ls_prompt_content = ''Be brief.'',
     ls_trust = trust, ls_compiled_patterns = [], ls_lowercased_keywords = [''write''], ls_lowercased_exclude_keywords = [],
     ls_lowercased_tags = []\<rparr>"

theorem prefilter_prompt_size_witness:
  "sum_list (map approx_tokens (prefilter_skills ''Write'' [demo_skill Trusted] 3 100)) \<le> 200"
  using prefilter_prompt_size [of "[demo_skill Trusted]" "''Write''" 3 100] by (simp add: demo_skill_def)

subsection \<open>What skills may do\<close>

lemma min_trust_Installed: "skills \<noteq> [] \<Longrightarrow> Min (set (map ls_trust skills)) = Installed \<longleftrightarrow> (\<exists>s \<in> set skills. ls_trust s = Installed)"
proof -
  assume ne: "skills \<noteq> []"
  have "Min (set (map ls_trust skills)) \<in> set (map ls_trust skills)" using ne by (intro Min_in) auto
  moreover have "Min (set (map ls_trust skills)) \<le> ls_trust s" if "s \<in> set skills" for s using that by (intro Min_le) auto
  ultimately show ?thesis by (force simp: less_eq_SkillTrust_def)
qed

lemma attenuate_tools_eq:
  "ar_tools (attenuate_tools tools skills) =
     (if \<exists>s \<in> set skills. ls_trust s = Installed then filter (\<lambda>t. td_name t \<in> set READ_ONLY_TOOLS) tools else tools)"
  using min_trust_Installed [of skills]
  by (cases "Min (set (map ls_trust skills))") (auto simp: attenuate_tools_def Let_def)

lemma attenuate_removed_eq:
  "ar_removed_tools (attenuate_tools tools skills) =
     (if \<exists>s \<in> set skills. ls_trust s = Installed then map td_name (filter (\<lambda>t. td_name t \<notin> set READ_ONLY_TOOLS) tools) else [])"
  using min_trust_Installed [of skills]
  by (cases "Min (set (map ls_trust skills))") (auto simp: attenuate_tools_def Let_def)

text \<open>
  Also: While a skill that is not trusted is active, the model is offered read-only tools only; every tool is
  either kept, in order, or reported as removed; and activating further skills never gives a tool back.
\<close>

theorem attenuation_spec:
  "((\<exists>s \<in> set skills. ls_trust s = Installed) \<longrightarrow>
      (\<forall>t \<in> set (ar_tools (attenuate_tools tools skills)). td_name t \<in> set READ_ONLY_TOOLS)) \<and>
   ((\<forall>s \<in> set skills. ls_trust s = Trusted) \<longrightarrow> ar_tools (attenuate_tools tools skills) = tools) \<and>
   set (map td_name (ar_tools (attenuate_tools tools skills))) \<union> set (ar_removed_tools (attenuate_tools tools skills)) =
     set (map td_name tools) \<and>
   subseq (ar_tools (attenuate_tools tools (skills @ others))) (ar_tools (attenuate_tools tools skills))"
proof (intro conjI)
  let ?inst = "\<lambda>skills. \<exists>s \<in> set skills. ls_trust s = Installed"
  have trusted: "(\<forall>s \<in> set skills. ls_trust s = Trusted) \<Longrightarrow> \<not> ?inst skills" by auto
  show "?inst skills \<longrightarrow> (\<forall>t \<in> set (ar_tools (attenuate_tools tools skills)). td_name t \<in> set READ_ONLY_TOOLS)"
    by (simp add: attenuate_tools_eq)
  show "(\<forall>s \<in> set skills. ls_trust s = Trusted) \<longrightarrow> ar_tools (attenuate_tools tools skills) = tools"
    using trusted by (simp add: attenuate_tools_eq)
  show "set (map td_name (ar_tools (attenuate_tools tools skills))) \<union> set (ar_removed_tools (attenuate_tools tools skills)) =
      set (map td_name tools)"
    by (cases "?inst skills") (auto simp: attenuate_tools_eq attenuate_removed_eq)
  show "subseq (ar_tools (attenuate_tools tools (skills @ others))) (ar_tools (attenuate_tools tools skills))"
    by (cases "?inst skills"; cases "?inst others") (simp_all add: attenuate_tools_eq bex_Un subseq_filter_left)
qed

theorem attenuation_spec_witness:
  "ar_tools (attenuate_tools [\<lparr>td_name = ''shell'', td_description = [], td_parameters = JNull\<rparr>] [demo_skill Trusted, demo_skill Installed]) = []"
  (is "ar_tools (attenuate_tools [?t] ?skills) = []")
proof -
  have "\<exists>s \<in> set ?skills. ls_trust s = Installed" by (simp add: demo_skill_def)
  then have only: "\<forall>t \<in> set (ar_tools (attenuate_tools [?t] ?skills)). td_name t \<in> set READ_ONLY_TOOLS"
    using attenuation_spec [of ?skills "[?t]" "[]"] by blast
  have "set (ar_tools (attenuate_tools [?t] ?skills)) = {}"
  proof (rule equals0I)
    fix t assume t: "t \<in> set (ar_tools (attenuate_tools [?t] ?skills))"
    then have "t = ?t" by (simp add: attenuate_tools_eq split: if_splits)
    then show False using bspec [OF only t] by (simp add: READ_ONLY_TOOLS_def)
  qed
  then show ?thesis by simp
qed

subsection \<open>Escaping\<close>

text \<open>The five replacements are one pass over the text.\<close>

definition escape_char :: "char \<Rightarrow> string" where
  "escape_char c =
     (if c = CHR ''&'' then ''&amp;'' else if c = CHR 0x22 then ''&quot;'' else if c = CHR 0x27 then ''&apos;''
      else if c = CHR ''<'' then ''&lt;'' else if c = CHR ''>'' then ''&gt;'' else [c])"

lemma replace_char_simps [simp]:
  "replace_char c r [] = []" "replace_char c r (x # xs) = (if x = c then r else [x]) @ replace_char c r xs"
  by (simp_all add: replace_char_def)

lemma replace_char_append: "replace_char c r (xs @ ys) = replace_char c r xs @ replace_char c r ys"
  by (simp add: replace_char_def)

lemma escape_xml_attr_eq: "escape_xml_attr s = concat (map escape_char s)"
  by (induction s) (auto simp: escape_xml_attr_def escape_char_def replace_char_append)

text \<open>The reader's side: the entities back to characters.\<close>

fun unescape :: "string \<Rightarrow> string" where
  "unescape [] = []"
| "unescape (c # cs) =
     (if prefix ''&amp;'' (c # cs) then CHR ''&'' # unescape (drop 4 cs)
      else if prefix ''&quot;'' (c # cs) then CHR 0x22 # unescape (drop 5 cs)
      else if prefix ''&apos;'' (c # cs) then CHR 0x27 # unescape (drop 5 cs)
      else if prefix ''&lt;'' (c # cs) then CHR ''<'' # unescape (drop 3 cs)
      else if prefix ''&gt;'' (c # cs) then CHR ''>'' # unescape (drop 3 cs)
      else c # unescape cs)"

text \<open>
  Also: An escaped name or version cannot leave the attribute it is put in, having no quotes and no
  angle brackets, and reading the entities back gives the original text.
\<close>

theorem escape_xml_attr_roundtrip:
  "set (escape_xml_attr s) \<inter> {CHR 0x22, CHR 0x27, CHR ''<'', CHR ''>''} = {} \<and> unescape (escape_xml_attr s) = s"
proof
  show "set (escape_xml_attr s) \<inter> {CHR 0x22, CHR 0x27, CHR ''<'', CHR ''>''} = {}"
    by (auto simp: escape_xml_attr_eq escape_char_def split: if_splits)
  show "unescape (escape_xml_attr s) = s"
    by (induction s) (auto simp: escape_xml_attr_eq escape_char_def)
qed

lemma replace_crlf_no_pair: "replace_char (CHR 0x0D) [CHR 0x0A] (replace_crlf s) = s" if "CHR 0x0D \<notin> set s"
  using that by (induction s rule: replace_crlf.induct) auto

text \<open>
  Also: Normalized text has no carriage return and is left alone by a second normalization, so that the hash
  of a skill does not depend on how its lines end.
\<close>

theorem normalize_line_endings_spec:
  "CHR 0x0D \<notin> set (normalize_line_endings s) \<and>
   normalize_line_endings (normalize_line_endings s) = normalize_line_endings s"
proof -
  have "CHR 0x0D \<notin> set (normalize_line_endings s)" by (auto simp: normalize_line_endings_def replace_char_def)
  then show ?thesis using replace_crlf_no_pair [of "normalize_line_endings s"] unfolding normalize_line_endings_def by simp
qed


subsection \<open>Escaping the content\<close>

text \<open>
  The regular expression \<open>(?i)</?[\s\x00]*skill\<close> on ASCII text. A match has one angle bracket, its first character,
  so that replacing all matches from left to right is replacing every bracket with a tag after it.
\<close>

definition tag_gap :: "char \<Rightarrow> bool" where
  "tag_gap c = (is_whitespace c \<or> c = CHR 0x00)"

definition skill_tag_follows :: "string \<Rightarrow> bool" where
  "skill_tag_follows cs =
     (let rest = dropWhile tag_gap (case cs of c # r \<Rightarrow> if c = CHR ''/'' then r else cs | [] \<Rightarrow> [])
      in prefix ''skill'' (to_lowercase rest))"

fun escape_skill_content :: "string \<Rightarrow> string" where
  "escape_skill_content [] = []"
| "escape_skill_content (c # cs) =
     (if c = CHR ''<'' \<and> skill_tag_follows cs then ''&lt;'' @ escape_skill_content cs else c # escape_skill_content cs)"

fun has_skill_tag :: "string \<Rightarrow> bool" where
  "has_skill_tag [] = False"
| "has_skill_tag (c # cs) = (c = CHR ''<'' \<and> skill_tag_follows cs \<or> has_skill_tag cs)"

lemma tag_gap_special [simp]: "\<not> tag_gap (CHR ''<'')" "\<not> tag_gap (CHR ''&'')"
  by (simp_all add: tag_gap_def is_whitespace_def)

lemma dropWhile_escape: "dropWhile tag_gap (escape_skill_content s) = escape_skill_content (dropWhile tag_gap s)"
  by (induction s) auto

lemma prefix_escape:
  "prefix p (to_lowercase (escape_skill_content s)) \<Longrightarrow> CHR ''&'' \<notin> set p \<Longrightarrow> prefix p (to_lowercase s)"
proof (induction s arbitrary: p)
  case (Cons c s)
  have amp: "to_lower_char (CHR ''&'') = CHR ''&''" by (simp add: to_lower_char_def)
  show ?case using Cons by (cases p) (auto simp: to_lowercase_def amp split: if_splits)
qed (simp add: to_lowercase_def)

lemma tag_follows_escape: "skill_tag_follows (escape_skill_content s) \<Longrightarrow> skill_tag_follows s"
proof -
  assume tag: "skill_tag_follows (escape_skill_content s)"
  have pre: "prefix ''skill'' (to_lowercase (escape_skill_content (dropWhile tag_gap r))) \<Longrightarrow>
      prefix ''skill'' (to_lowercase (dropWhile tag_gap r))" for r
    by (rule prefix_escape) auto
  have amp: "\<not> skill_tag_follows (''&lt;'' @ r)" for r
    by (simp add: skill_tag_follows_def to_lowercase_def to_lower_char_def)
  show ?thesis
  proof (cases s)
    case (Cons c r)
    then show ?thesis using tag amp [of "escape_skill_content r"] pre [of r] pre [of "c # r"]
      by (simp add: skill_tag_follows_def Let_def dropWhile_escape split: if_splits)
  qed (use tag in simp)
qed

lemma no_tag_escape: "\<not> has_skill_tag (escape_skill_content s)"
  by (induction s) (auto dest: tag_follows_escape)

lemma escape_no_tag: "\<not> has_skill_tag s \<Longrightarrow> escape_skill_content s = s"
  by (induction s) auto



end
