(* ===== verification/Skill_Chat.thy ===== *)
theory Skill_Chat
  imports Skills Dispatcher
begin

text \<open>
  Skills in a chat turn: what the attenuation of \<^verbatim>\<open>src/skills/attenuation.rs\<close> guarantees of the requests the
  chat delegate of \<^verbatim>\<open>src/agent/dispatcher.rs\<close> sends to the model, and what it does not guarantee of the calls
  that come back. The contract of a loop delegate is interpreted with an invariant on the tools on offer.
\<close>

subsection \<open>The tools on offer\<close>

definition offered :: "ChatTurn \<Rightarrow> ToolDefinition set" where
  "offered ct = (\<Union>defs. set (ct_attenuate ct defs))"

definition offer_inv :: "ChatTurn \<Rightarrow> ReasoningContext \<times> 's \<Rightarrow> bool" where
  "offer_inv ct st = (set (rx_available_tools (fst st)) \<subseteq> offered ct)"

lemma post_call_keeps_offer:
  "rx_available_tools (fst (snd (post_call env now tid slots item (a, rc, cs)))) = rx_available_tools rc"
  by (auto simp: post_call_def Let_def split: prod.splits PreflightOutcome.splits option.splits sum.splits)

lemma post_fold_keeps_offer:
  "rx_available_tools (fst (snd (fold (post_call env now tid slots) items (a, rc, cs)))) = rx_available_tools rc"
proof (induction items arbitrary: a rc cs)
  case (Cons item items)
  obtain a' rc' cs' where p: "post_call env now tid slots item (a, rc, cs) = (a', rc', cs')" using prod_cases3 by blast
  then show ?case using Cons.IH [of a' rc' cs'] post_call_keeps_offer [of env now tid slots item a rc cs] by simp
qed simp

lemma chat_execute_keeps_offer:
  assumes "chat_execute_tool_calls env now new_id tz tid calls content st = (r, st')"
  shows "rx_available_tools (fst st') = rx_available_tools (fst st)"
proof -
  obtain rc cs where st: "st = (rc, cs)" by (cases st)
  show ?thesis using assms
    by (auto simp: chat_execute_tool_calls_def st Let_def split: prod.splits option.splits
        dest!: arg_cong [where f = "\<lambda>x. rx_available_tools (fst (snd x))"] simp: post_fold_keeps_offer)
qed

lemma respond_or_compact_offer:
  "respond_or_compact re rc w = (r, rc', w') \<Longrightarrow> set (rx_available_tools rc') \<subseteq> set (rx_available_tools rc)"
  by (auto simp: respond_or_compact_def Let_def split: prod.splits sum.splits LlmError.splits if_splits)

lemma chat_call_offer:
  assumes "offer_inv ct st" and "chat_call_llm pr re st = (r, st')"
  shows "offer_inv ct st'"
proof -
  obtain rc cs where st: "st = (rc, cs)" by (cases st)
  obtain a cg where c: "check_allowed (pr_dec pr) (pr_tr pr) (pr_now pr (cs_world cs)) (cs_guard cs) = (a, cg)" by fastforce
  obtain x rc1 w1 where x: "respond_or_compact re rc (cs_world cs) = (x, rc1, w1)" using prod_cases3 by blast
  show ?thesis using assms st c x respond_or_compact_offer [OF x]
    by (cases a; cases x) (auto simp: chat_call_llm_def offer_inv_def)
qed

lemma chat_before_offer:
  assumes "chat_before_llm_call env (ct_attenuate ct) p1 p2 m i st = (r, st')"
  shows "offer_inv ct st' \<and> r = None"
  using assms by (cases st) (auto simp: chat_before_llm_call_def offer_inv_def offered_def Let_def split: if_splits)

lemma offer_inv_simps [simp]:
  "offer_inv ct (push_message m st) = offer_inv ct st" "offer_inv ct (rc, s) = (set (rx_available_tools rc) \<subseteq> offered ct)"
  by (simp_all add: offer_inv_def push_message_def split: prod.split)

lemma chat_execute_offer:
  "offer_inv ct st \<Longrightarrow> chat_execute_tool_calls env now new_id tz tid calls content st = (r, st') \<Longrightarrow> offer_inv ct st'"
  by (simp add: offer_inv_def chat_execute_keeps_offer)

interpretation chat_offer: loop_delegate "chat_delegate env pr ct re" "offer_inv ct" "\<lambda>_. True"
  by (unfold_locales, unfold chat_delegate_def LoopDelegate.simps)
     (auto dest: chat_before_offer chat_signals_cases chat_call_offer chat_execute_offer simp del: push_message_simps)


lemma respond_offer_cong:
  assumes same: "\<And>q w. set (tr_tools q) \<subseteq> A \<Longrightarrow> t q w = re_complete_with_tools re q w"
    and "set (rx_available_tools rc) \<subseteq> A"
  shows "respond_with_tools (re\<lparr>re_complete_with_tools := t\<rparr>) rc w = respond_with_tools re rc w"
proof -
  let ?re = "re\<lparr>re_complete_with_tools := t\<rparr>"
  have m: "request_messages ?re rc = request_messages re rc" "tool_answer ?re = tool_answer re" "final_text ?re = final_text re"
    by (simp_all add: fun_eq_iff request_messages_def tool_answer_def final_text_def Let_def split: option.split)
  have "re_complete_with_tools ?re (tool_completion_request_new ms (if rx_force_text rc then [] else rx_available_tools rc)
        \<lparr>tr_max_tokens := a, tr_temperature := b, tr_tool_choice := e, tr_metadata := d\<rparr>) w =
      re_complete_with_tools re (tool_completion_request_new ms (if rx_force_text rc then [] else rx_available_tools rc)
        \<lparr>tr_max_tokens := a, tr_temperature := b, tr_tool_choice := e, tr_metadata := d\<rparr>) w" for ms a b d e
    using same assms(2) by (simp add: tool_completion_request_new_def)
  then show ?thesis unfolding respond_with_tools_def m Let_def by simp
qed

lemma chat_call_offer_cong:
  assumes same: "\<And>q w. set (tr_tools q) \<subseteq> offered ct \<Longrightarrow> t q w = re_complete_with_tools re q w" and "offer_inv ct st"
  shows "chat_call_llm pr (re\<lparr>re_complete_with_tools := t\<rparr>) st = chat_call_llm pr re st"
proof -
  obtain rc cs where st: "st = (rc, cs)" by (cases st)
  have ok: "set (rx_available_tools rc) \<subseteq> offered ct" using assms(2) st by simp
  note cong = respond_offer_cong [of "offered ct", OF same]
  have eq: "respond_or_compact (re\<lparr>re_complete_with_tools := t\<rparr>) rc w = respond_or_compact re rc w" for w
    unfolding respond_or_compact_def cong [OF _ ok] by (simp add: Let_def cong ok split: prod.split sum.split LlmError.split)
  show ?thesis unfolding chat_call_llm_def st prod.case eq ..
qed

lemma chat_loop_offer_cong:
  assumes same: "\<And>q w. set (tr_tools q) \<subseteq> offered ct \<Longrightarrow> t q w = re_complete_with_tools re q w"
    and inv: "set (rx_available_tools rc) \<subseteq> offered ct"
  shows "run_chat_loop env pr ct (re\<lparr>re_complete_with_tools := t\<rparr>) rc cs = run_chat_loop env pr ct re rc cs"
proof -
  let ?re = "re\<lparr>re_complete_with_tools := t\<rparr>"
  have d: "chat_delegate env pr ct ?re = (chat_delegate env pr ct re)\<lparr>ld_call_llm := \<lambda>_. chat_call_llm pr ?re\<rparr>"
    by (simp add: chat_delegate_def)
  have start: "offer_inv ct (rc, cs)" using inv by simp
  have "run_agentic_loop (chat_delegate env pr ct ?re) config (rc, cs) =
      run_agentic_loop (chat_delegate env pr ct re) config (rc, cs)" for config
    unfolding run_agentic_loop_def d
    by (rule chat_offer.loop_from_cong [OF start]) (use chat_call_offer_cong [of ct t re, OF same] in \<open>simp add: chat_delegate_def\<close>)
  then show ?thesis by (simp add: run_chat_loop_def)
qed

subsection \<open>An untrusted skill\<close>

definition with_skills :: "LoadedSkill list \<Rightarrow> ChatTurn \<Rightarrow> ChatTurn" where
  "with_skills skills ct = ct\<lparr>ct_attenuate := \<lambda>defs. ar_tools (attenuate_tools defs skills)\<rparr>"

text \<open>
  Property C13. While a skill that is not trusted is active, no request of the whole turn offers the model a tool outside
  the read-only list: two models that differ only on requests that offer another tool lead to the same turn, from any
  context whose tools went through the attenuation, whatever tools are registered or removed meanwhile.
\<close>

theorem untrusted_skill_offers_read_only:
  assumes "s \<in> set skills" and "ls_trust s = Installed" and "rx_available_tools rc = ar_tools (attenuate_tools defs skills)"
    and "\<And>q w. (\<forall>t \<in> set (tr_tools q). td_name t \<in> set READ_ONLY_TOOLS) \<Longrightarrow> complete_with_tools' q w = re_complete_with_tools re q w"
  shows "run_chat_loop env pr (with_skills skills ct) (re\<lparr>re_complete_with_tools := complete_with_tools'\<rparr>) rc cs =
    run_chat_loop env pr (with_skills skills ct) re rc cs"
proof (rule chat_loop_offer_cong)
  have "\<exists>s \<in> set skills. ls_trust s = Installed" using assms(1,2) by blast
  then have off: "offered (with_skills skills ct) \<subseteq> {t. td_name t \<in> set READ_ONLY_TOOLS}"
    by (auto simp: offered_def with_skills_def attenuate_tools_eq)
  show "set (rx_available_tools rc) \<subseteq> offered (with_skills skills ct)"
    by (auto simp: assms(3) offered_def with_skills_def)
  show "complete_with_tools' q w = re_complete_with_tools re q w" if "set (tr_tools q) \<subseteq> offered (with_skills skills ct)" for q w
    by (rule assms(4)) (use that off in blast)
qed

theorem untrusted_skill_offers_read_only_witness:
  "run_chat_loop demo_env demo_pricing (with_skills [demo_skill Installed] demo_turn)
     (demo_reasoner\<lparr>re_complete_with_tools := (\<lambda>q w. if \<exists>t \<in> set (tr_tools q). td_name t \<notin> set READ_ONLY_TOOLS
        then (Inl (Http ''never''), w) else re_complete_with_tools demo_reasoner q w)\<rparr>) reasoning_context_new demo_chat =
   run_chat_loop demo_env demo_pricing (with_skills [demo_skill Installed] demo_turn) demo_reasoner reasoning_context_new demo_chat"
  by (rule untrusted_skill_offers_read_only [where s = "demo_skill Installed" and defs = "[]"])
     (auto simp: demo_skill_def reasoning_context_new_def attenuate_tools_eq)

text \<open>
  The calls that come back are another matter: executing them does not look at the tools that were on offer, nor at
  the skills, so that a model that names a tool it was not offered has it executed like any other.
\<close>

definition reoffer :: "ToolDefinition list \<Rightarrow> 'a \<times> ReasoningContext \<times> 's \<Rightarrow> 'a \<times> ReasoningContext \<times> 's" where
  "reoffer tools st = (case st of (a, rc, s) \<Rightarrow> (a, rc\<lparr>rx_available_tools := tools\<rparr>, s))"

lemma post_call_reoffer:
  "post_call env now tid slots item (reoffer tools st) = reoffer tools (post_call env now tid slots item st)"
  by (cases st) (auto simp: post_call_def reoffer_def Let_def split: prod.split PreflightOutcome.split option.split sum.split)

lemma post_fold_reoffer:
  "fold (post_call env now tid slots) items (reoffer tools st) = reoffer tools (fold (post_call env now tid slots) items st)"
  by (induction items arbitrary: st) (simp_all add: post_call_reoffer)

lemma execution_ignores_offer:
  "snd (snd (chat_execute_tool_calls env now new_id tz tid calls content (rc\<lparr>rx_available_tools := tools\<rparr>, cs))) =
   snd (snd (chat_execute_tool_calls env now new_id tz tid calls content (rc, cs)))"
proof -
  have start: "(None, rc\<lparr>rx_available_tools := tools, rx_messages := ms\<rparr>, s) = reoffer tools (None, rc\<lparr>rx_messages := ms\<rparr>, s)"
    for ms :: "ChatMessage list" and s :: "('a, 'b) ChatState"
    by (simp add: reoffer_def)
  show ?thesis
    by (simp add: chat_execute_tool_calls_def Let_def start post_fold_reoffer split: prod.split option.split)
       (auto simp: reoffer_def split: prod.splits)
qed

end
