(* ===== verification/Pairing.thy ===== *)
theory Pairing
  imports Tool "HOL-Library.List_Lexorder" "HOL-Library.Char_ord" "HOL-Library.Countable"
begin

text \<open>
  The pairing store (\<^verbatim>\<open>src/pairing/store.rs\<close>): pending requests with one-time codes, the list of senders that may
  talk to a channel, and the limit on wrong codes, kept in three JSON files per channel. The state is the content of
  the files; an operation takes it and returns it with its result. A missing file is an error of its own, other I/O errors
  are left out, and the file locks are taken at their word: an operation runs alone. The JSON codec, the
  format of time stamps and the random generator are arguments; the clock is read once per operation.
\<close>

datatype PairingStoreError = InvalidChannel string | InvalidPath string | ApproveRateLimited

record UpsertResult =
  ur_code :: string
  ur_created :: bool

record PairingRequest =
  pq_id :: string
  pq_code :: string
  pq_created_at :: string
  pq_last_seen_at :: string
  pq_meta :: "json option"

text \<open>The codec of the three files and of time stamps.\<close>

record PairingCodec =
  pc_requests_to :: "PairingRequest list \<Rightarrow> string"
  pc_requests_from :: "string \<Rightarrow> PairingRequest list option"
  pc_allow_to :: "string list \<Rightarrow> string"
  pc_allow_from :: "string \<Rightarrow> string list option"
  pc_attempts_to :: "u64 list \<Rightarrow> string"
  pc_attempts_from :: "string \<Rightarrow> u64 list option"
  pc_parse_rfc3339 :: "string \<Rightarrow> int option"
  pc_to_rfc3339 :: "u64 \<Rightarrow> string"

text \<open>What is documented of the JSON codec: it reads back what it wrote, and the empty text is not JSON.\<close>

definition codec_ok :: "PairingCodec \<Rightarrow> bool" where
  "codec_ok pc =
     ((\<forall>rs. pc_requests_from pc (pc_requests_to pc rs) = Some rs) \<and> pc_requests_from pc [] = None \<and>
      (\<forall>xs. pc_allow_from pc (pc_allow_to pc xs) = Some xs) \<and> pc_allow_from pc [] = None \<and>
      (\<forall>ts. pc_attempts_from pc (pc_attempts_to pc ts) = Some ts) \<and> pc_attempts_from pc [] = None)"

type_synonym files = "string \<rightharpoonup> string"

subsection \<open>Paths\<close>

fun replace_dots :: "string \<Rightarrow> string" where
  "replace_dots (c # d # cs) =
     (if c = CHR ''.'' \<and> d = CHR ''.'' then CHR ''_'' # replace_dots cs else c # replace_dots (d # cs))"
| "replace_dots cs = cs"

definition unsafe_chars :: "char set" where
  "unsafe_chars = {CHR 0x5C, CHR ''/'', CHR '':'', CHR ''*'', CHR ''?'', CHR 0x22, CHR ''<'', CHR ''>'', CHR ''|''}"

definition safe_channel_key :: "string \<Rightarrow> PairingStoreError + string" where
  "safe_channel_key channel =
     (let raw = to_lowercase (trim channel)
      in if raw = [] then Inl (InvalidChannel ''empty'')
         else let safe = replace_dots (map (\<lambda>c. if c \<in> unsafe_chars then CHR ''_'' else c) raw)
              in if safe = [] \<or> safe = ''_'' then Inl (InvalidChannel channel) else Inr safe)"

definition join_path :: "string \<Rightarrow> string \<Rightarrow> string" where
  "join_path base_dir name = base_dir @ ''/'' @ name"

definition pairing_path :: "string \<Rightarrow> string \<Rightarrow> PairingStoreError + string" where
  "pairing_path base_dir channel =
     (case safe_channel_key channel of Inl e \<Rightarrow> Inl e | Inr key \<Rightarrow> Inr (join_path base_dir (key @ ''-pairing.json'')))"

definition allow_from_path :: "string \<Rightarrow> string \<Rightarrow> PairingStoreError + string" where
  "allow_from_path base_dir channel =
     (case safe_channel_key channel of Inl e \<Rightarrow> Inl e | Inr key \<Rightarrow> Inr (join_path base_dir (key @ ''-allowFrom.json'')))"

definition approve_attempts_path :: "string \<Rightarrow> string \<Rightarrow> PairingStoreError + string" where
  "approve_attempts_path base_dir channel =
     (case safe_channel_key channel of Inl e \<Rightarrow> Inl e | Inr key \<Rightarrow> Inr (join_path base_dir (key @ ''-approve-attempts.json'')))"

subsection \<open>Time\<close>

definition digits_value :: "string \<Rightarrow> nat" where
  "digits_value ds = foldl (\<lambda>n c. n * 10 + (of_char c - 48)) 0 ds"

definition parse_u64 :: "string \<Rightarrow> u64 option" where
  "parse_u64 s =
     (let ds = (case s of c # r \<Rightarrow> if c = CHR ''+'' then r else s | [] \<Rightarrow> [])
      in if ds \<noteq> [] \<and> list_all (\<lambda>c. 48 \<le> (of_char c :: nat) \<and> (of_char c :: nat) \<le> 57) ds \<and> digits_value ds < 2 ^ 64
         then Some (of_nat (digits_value ds)) else None)"

definition parse_timestamp :: "PairingCodec \<Rightarrow> string \<Rightarrow> u64 option" where
  "parse_timestamp pc v = (case pc_parse_rfc3339 pc v of Some t \<Rightarrow> Some (of_int t) | None \<Rightarrow> parse_u64 v)"

definition PAIRING_PENDING_TTL_SECS :: u64 where
  "PAIRING_PENDING_TTL_SECS = 15 * 60"

definition is_expired :: "PairingCodec \<Rightarrow> PairingRequest \<Rightarrow> u64 \<Rightarrow> bool" where
  "is_expired pc req now_secs =
     (let created = (case parse_timestamp pc (pq_created_at req) of Some t \<Rightarrow> t | None \<Rightarrow> 0)
      in saturating_sub now_secs created > PAIRING_PENDING_TTL_SECS)"

subsection \<open>Codes\<close>

text \<open>\<open>draw r n\<close> is \<open>gen_range(0..n)\<close>.\<close>

type_synonym 'r generator = "'r \<Rightarrow> nat \<Rightarrow> nat \<times> 'r"

definition PAIRING_ALPHABET :: string where
  "PAIRING_ALPHABET = ''ABCDEFGHJKLMNPQRSTUVWXYZ23456789''"

fun draw_chars :: "'r generator \<Rightarrow> nat \<Rightarrow> 'r \<Rightarrow> string \<times> 'r" where
  "draw_chars draw 0 r = ([], r)"
| "draw_chars draw (Suc k) r =
     (let (idx, r) = draw r (length PAIRING_ALPHABET); (cs, r) = draw_chars draw k r
      in (PAIRING_ALPHABET ! idx # cs, r))"

definition PAIRING_CODE_LENGTH :: nat where
  "PAIRING_CODE_LENGTH = 8"

definition random_code :: "'r generator \<Rightarrow> 'r \<Rightarrow> string \<times> 'r" where
  "random_code draw r = draw_chars draw PAIRING_CODE_LENGTH r"

text \<open>The format \<open>{:04}\<close>.\<close>

definition pad4 :: "nat \<Rightarrow> string" where
  "pad4 n = replicate (4 - length (show_nat n)) (CHR ''0'') @ show_nat n"

fun try_codes :: "'r generator \<Rightarrow> string set \<Rightarrow> nat \<Rightarrow> 'r \<Rightarrow> string \<times> 'r" where
  "try_codes draw existing 0 r =
     (let (code, r) = random_code draw r; (n, r) = draw r 10000 in (code @ pad4 n, r))"
| "try_codes draw existing (Suc k) r =
     (let (code, r) = random_code draw r in if code \<notin> existing then (code, r) else try_codes draw existing k r)"

definition generate_unique_code :: "'r generator \<Rightarrow> string set \<Rightarrow> 'r \<Rightarrow> string \<times> 'r" where
  "generate_unique_code draw existing r = try_codes draw existing 500 r"

subsection \<open>Pending requests\<close>

definition load_requests :: "PairingCodec \<Rightarrow> string \<Rightarrow> PairingRequest list" where
  "load_requests pc content = (case pc_requests_from pc content of Some rs \<Rightarrow> rs | None \<Rightarrow> [])"

definition write_pairing_file :: "PairingCodec \<Rightarrow> string \<Rightarrow> PairingRequest list \<Rightarrow> files \<Rightarrow> files" where
  "write_pairing_file pc path requests fs = fs(path \<mapsto> pc_requests_to pc requests)"

definition list_pending ::
    "PairingCodec \<Rightarrow> string \<Rightarrow> u64 \<Rightarrow> string \<Rightarrow> files \<Rightarrow> (PairingStoreError + PairingRequest list) \<times> files" where
  "list_pending pc base_dir now channel fs =
     (case pairing_path base_dir channel of
        Inl e \<Rightarrow> (Inl e, fs)
      | Inr path \<Rightarrow>
          (case fs path of
             None \<Rightarrow> (Inr [], fs)
           | Some content \<Rightarrow>
               (let all = load_requests pc content;
                    requests = filter (\<lambda>r. \<not> is_expired pc r now) all;
                    fs = (if length requests \<noteq> length all then write_pairing_file pc path requests fs else fs)
                in (Inr (sort_key pq_created_at requests), fs))))"

text \<open>Opening a file to write creates it.\<close>

definition open_create :: "string \<Rightarrow> files \<Rightarrow> files" where
  "open_create path fs = (case fs path of None \<Rightarrow> fs(path \<mapsto> []) | Some _ \<Rightarrow> fs)"

definition content_of :: "string \<Rightarrow> files \<Rightarrow> string" where
  "content_of path fs = (case fs path of Some c \<Rightarrow> c | None \<Rightarrow> [])"

definition PAIRING_PENDING_MAX :: nat where
  "PAIRING_PENDING_MAX = 3"

definition upsert_request ::
    "PairingCodec \<Rightarrow> string \<Rightarrow> u64 \<Rightarrow> 'r generator \<Rightarrow> string \<Rightarrow> string \<Rightarrow> json option \<Rightarrow> 'r \<times> files \<Rightarrow>
       (PairingStoreError + UpsertResult) \<times> 'r \<times> files" where
  "upsert_request pc base_dir now_secs draw channel sender meta st =
     (case st of (r, fs) \<Rightarrow>
       (case pairing_path base_dir channel of
          Inl e \<Rightarrow> (Inl e, r, fs)
        | Inr path \<Rightarrow>
            (let fs = open_create path fs;
                 requests = load_requests pc (content_of path fs);
                 now = pc_to_rfc3339 pc now_secs;
                 sender = trim sender
             in if sender = [] then (Inl (InvalidChannel ''empty id''), r, fs)
                else let requests = filter (\<lambda>q. \<not> is_expired pc q now_secs) requests;
                         existing_codes = set (map (to_uppercase \<circ> pq_code) requests)
                     in case position (\<lambda>q. pq_id q = sender) requests of
                          Some idx \<Rightarrow>
                            (let req = requests ! idx;
                                 (code, r) = (if pq_code req = [] then generate_unique_code draw existing_codes r
                                              else (pq_code req, r));
                                 req = req\<lparr>pq_last_seen_at := now, pq_code := code,
                                           pq_meta := (case meta of Some m \<Rightarrow> Some m | None \<Rightarrow> pq_meta req)\<rparr>
                             in (Inr \<lparr>ur_code = code, ur_created = False\<rparr>, r,
                                 write_pairing_file pc path (requests[idx := req]) fs))
                        | None \<Rightarrow>
                            (if length requests \<ge> PAIRING_PENDING_MAX
                             then (Inr \<lparr>ur_code = [], ur_created = False\<rparr>, r, fs)
                             else let (code, r) = generate_unique_code draw existing_codes r;
                                      q = \<lparr>pq_id = sender, pq_code = code, pq_created_at = now, pq_last_seen_at = now,
                                           pq_meta = meta\<rparr>
                                  in (Inr \<lparr>ur_code = code, ur_created = True\<rparr>, r,
                                      write_pairing_file pc path (requests @ [q]) fs)))))"

subsection \<open>Wrong codes\<close>

definition PAIRING_APPROVE_RATE_LIMIT :: nat where
  "PAIRING_APPROVE_RATE_LIMIT = 10"

definition PAIRING_APPROVE_RATE_WINDOW_SECS :: u64 where
  "PAIRING_APPROVE_RATE_WINDOW_SECS = 5 * 60"

definition load_attempts :: "PairingCodec \<Rightarrow> string \<Rightarrow> u64 list" where
  "load_attempts pc content = (case pc_attempts_from pc content of Some ts \<Rightarrow> ts | None \<Rightarrow> [])"

definition recent :: "u64 \<Rightarrow> u64 list \<Rightarrow> u64 list" where
  "recent now failed_at = filter (\<lambda>t. t \<ge> saturating_sub now PAIRING_APPROVE_RATE_WINDOW_SECS) failed_at"

definition is_approve_rate_limited ::
    "PairingCodec \<Rightarrow> string \<Rightarrow> u64 \<Rightarrow> string \<Rightarrow> files \<Rightarrow> PairingStoreError + bool" where
  "is_approve_rate_limited pc base_dir now channel fs =
     (case approve_attempts_path base_dir channel of
        Inl e \<Rightarrow> Inl e
      | Inr path \<Rightarrow>
          (case fs path of
             None \<Rightarrow> Inr False
           | Some content \<Rightarrow> Inr (length (recent now (load_attempts pc content)) \<ge> PAIRING_APPROVE_RATE_LIMIT)))"

definition record_failed_approve ::
    "PairingCodec \<Rightarrow> string \<Rightarrow> u64 \<Rightarrow> string \<Rightarrow> files \<Rightarrow> (PairingStoreError + unit) \<times> files" where
  "record_failed_approve pc base_dir now channel fs =
     (case approve_attempts_path base_dir channel of
        Inl e \<Rightarrow> (Inl e, fs)
      | Inr path \<Rightarrow>
          (let fs = open_create path fs;
               failed_at = recent now (load_attempts pc (content_of path fs) @ [now])
           in (Inr (), fs(path \<mapsto> pc_attempts_to pc failed_at))))"

subsection \<open>Approval\<close>

definition load_allow :: "PairingCodec \<Rightarrow> string \<Rightarrow> string list" where
  "load_allow pc content = (case pc_allow_from pc content of Some xs \<Rightarrow> xs | None \<Rightarrow> [])"

text \<open>The file is opened with \<open>truncate(true)\<close>, before it is read.\<close>

definition add_allow_from ::
    "PairingCodec \<Rightarrow> string \<Rightarrow> string \<Rightarrow> string \<Rightarrow> files \<Rightarrow> (PairingStoreError + unit) \<times> files" where
  "add_allow_from pc base_dir channel entry fs =
     (let entry = trim entry
      in if entry = [] then (Inr (), fs)
         else case allow_from_path base_dir channel of
                Inl e \<Rightarrow> (Inl e, fs)
              | Inr path \<Rightarrow>
                  (let fs = fs(path \<mapsto> []);
                       allow = load_allow pc (content_of path fs)
                   in if list_ex (\<lambda>e. to_lowercase e = to_lowercase entry) allow then (Inr (), fs)
                      else (Inr (), fs(path \<mapsto> pc_allow_to pc (allow @ [entry])))))"

definition approve ::
    "PairingCodec \<Rightarrow> string \<Rightarrow> u64 \<Rightarrow> string \<Rightarrow> string \<Rightarrow> files \<Rightarrow> (PairingStoreError + PairingRequest option) \<times> files" where
  "approve pc base_dir now_secs channel code fs =
     (let code = to_uppercase (trim code)
      in if code = [] then (Inr None, fs)
         else case is_approve_rate_limited pc base_dir now_secs channel fs of
                Inl e \<Rightarrow> (Inl e, fs)
              | Inr True \<Rightarrow> (Inl ApproveRateLimited, fs)
              | Inr False \<Rightarrow>
                  (case pairing_path base_dir channel of
                     Inl e \<Rightarrow> (Inl e, fs)
                   | Inr path \<Rightarrow>
                       (case fs path of
                          None \<Rightarrow> (Inl (InvalidChannel ''no pairing file''), fs)
                        | Some content \<Rightarrow>
                            (let requests = filter (\<lambda>q. \<not> is_expired pc q now_secs) (load_requests pc content)
                             in case position (\<lambda>q. to_uppercase (pq_code q) = code) requests of
                                  None \<Rightarrow>
                                    (case record_failed_approve pc base_dir now_secs channel fs of
                                       (Inl e, fs) \<Rightarrow> (Inl e, fs)
                                     | (Inr _, fs) \<Rightarrow> (Inr None, fs))
                                | Some i \<Rightarrow>
                                    (let entry = requests ! i;
                                         fs = write_pairing_file pc path (take i requests @ drop (Suc i) requests) fs
                                     in case add_allow_from pc base_dir channel (pq_id entry) fs of
                                          (Inl e, fs) \<Rightarrow> (Inl e, fs)
                                        | (Inr _, fs) \<Rightarrow> (Inr (Some entry), fs))))))"

definition read_allow_from :: "PairingCodec \<Rightarrow> string \<Rightarrow> string \<Rightarrow> files \<Rightarrow> PairingStoreError + string list" where
  "read_allow_from pc base_dir channel fs =
     (case allow_from_path base_dir channel of
        Inl e \<Rightarrow> Inl e
      | Inr path \<Rightarrow> (case fs path of None \<Rightarrow> Inr [] | Some content \<Rightarrow> Inr (load_allow pc content)))"

definition is_sender_allowed ::
    "PairingCodec \<Rightarrow> string \<Rightarrow> string \<Rightarrow> string \<Rightarrow> string option \<Rightarrow> files \<Rightarrow> PairingStoreError + bool" where
  "is_sender_allowed pc base_dir channel sender username fs =
     (case read_allow_from pc base_dir channel fs of
        Inl e \<Rightarrow> Inl e
      | Inr allow \<Rightarrow>
          Inr (list_ex (\<lambda>e. trim e = trim sender) allow \<or>
               (case username of
                  None \<Rightarrow> False
                | Some u \<Rightarrow>
                    (let u = to_lowercase (trim u);
                         u_norm = (case strip_prefix ''@'' u of Some v \<Rightarrow> v | None \<Rightarrow> u)
                     in list_ex (\<lambda>e. to_lowercase (trim e) = u \<or> to_lowercase (trim e) = ''@'' @ u_norm) allow))))"


subsection \<open>The files of a channel\<close>

lemma replace_dots_hd: "replace_dots (c # cs) = CHR ''.'' # r \<Longrightarrow> c = CHR ''.''"
  by (cases cs) (auto split: if_splits)

lemma replace_dots_no_pair: "\<not> sublist ''..'' (replace_dots s)"
proof (induction s rule: replace_dots.induct)
  case (1 c d cs)
  show ?case
  proof (cases "c = CHR ''.'' \<and> d = CHR ''.''")
    case True
    then show ?thesis using 1(1) by (auto simp: sublist_Cons_right)
  next
    case False
    then show ?thesis using 1(2) replace_dots_hd [of d cs]
      by (auto simp: sublist_Cons_right prefix_def)
  qed
qed (auto simp: sublist_Cons_right)

lemma set_replace_dots: "set (replace_dots s) \<subseteq> insert (CHR ''_'') (set s)"
  by (induction s rule: replace_dots.induct) auto

text \<open>
  Also: The name of a channel cannot lead out of the directory of the store: the key its files are named after
  is not empty and has no separator, no character special to a file system and no parent step.
\<close>

theorem channel_key_safe:
  assumes "safe_channel_key channel = Inr key"
  shows "key \<noteq> [] \<and> set key \<inter> unsafe_chars = {} \<and> \<not> sublist ''..'' key"
proof -
  obtain raw where key: "key = replace_dots (map (\<lambda>c. if c \<in> unsafe_chars then CHR ''_'' else c) raw)" "key \<noteq> []"
    using assms by (auto simp: safe_channel_key_def Let_def split: if_splits)
  have "CHR ''_'' \<notin> unsafe_chars" by (simp add: unsafe_chars_def)
  then have "set key \<inter> unsafe_chars = {}"
    using set_replace_dots [of "map (\<lambda>c. if c \<in> unsafe_chars then CHR ''_'' else c) raw"] unfolding key(1)
    by (auto split: if_splits)
  then show ?thesis using key replace_dots_no_pair by simp
qed

theorem channel_key_safe_witness: "\<not> sublist ''..'' ''____etc''"
proof -
  have "safe_channel_key '' ../../ETC'' = Inr ''____etc''" by code_simp
  from channel_key_safe [OF this] show ?thesis by blast
qed


text \<open>The three kinds of files are apart, for all channels.\<close>

lemma names_apart:
  "x @ ''-pairing.json'' \<noteq> y @ ''-allowFrom.json''" "x @ ''-pairing.json'' \<noteq> y @ ''-approve-attempts.json''"
  "x @ ''-allowFrom.json'' \<noteq> y @ ''-approve-attempts.json''"
proof -
  have "(u @ [a]) @ ''.json'' \<noteq> (v @ [b]) @ ''.json''" if "a \<noteq> b" for u v :: string and a b
    using that by simp
  from this [of "CHR ''g''" "CHR ''m''" "x @ ''-pairin''" "y @ ''-allowFro''"]
    this [of "CHR ''g''" "CHR ''s''" "x @ ''-pairin''" "y @ ''-approve-attempt''"]
    this [of "CHR ''m''" "CHR ''s''" "x @ ''-allowFro''" "y @ ''-approve-attempt''"]
  show "x @ ''-pairing.json'' \<noteq> y @ ''-allowFrom.json''" "x @ ''-pairing.json'' \<noteq> y @ ''-approve-attempts.json''"
    "x @ ''-allowFrom.json'' \<noteq> y @ ''-approve-attempts.json''" by simp_all
qed

lemma path_cases:
  "pairing_path base_dir ch = map_sum id (\<lambda>k. join_path base_dir (k @ ''-pairing.json'')) (safe_channel_key ch)"
  "allow_from_path base_dir ch = map_sum id (\<lambda>k. join_path base_dir (k @ ''-allowFrom.json'')) (safe_channel_key ch)"
  "approve_attempts_path base_dir ch = map_sum id (\<lambda>k. join_path base_dir (k @ ''-approve-attempts.json'')) (safe_channel_key ch)"
  by (simp_all add: pairing_path_def allow_from_path_def approve_attempts_path_def split: sum.split)

text \<open>The lists of allowed senders and the wrong codes, of all channels at once.\<close>

definition allow_files :: "string \<Rightarrow> files \<Rightarrow> files" where
  "allow_files base_dir fs = fs |` {p. \<exists>ch. allow_from_path base_dir ch = Inr p}"

definition attempt_files :: "string \<Rightarrow> files \<Rightarrow> files" where
  "attempt_files base_dir fs = fs |` {p. \<exists>ch. approve_attempts_path base_dir ch = Inr p}"

lemma paths_pairwise:
  "pairing_path base_dir c1 = Inr p \<Longrightarrow> allow_from_path base_dir c2 \<noteq> Inr p"
  "pairing_path base_dir c1 = Inr p \<Longrightarrow> approve_attempts_path base_dir c2 \<noteq> Inr p"
  "allow_from_path base_dir c1 = Inr p \<Longrightarrow> approve_attempts_path base_dir c2 \<noteq> Inr p"
  using names_apart [symmetric]
  by (auto simp: path_cases join_path_def map_sum_def simp del: append.simps split: sum.splits)

lemma restrict_upd: "p \<notin> S \<Longrightarrow> fs(p \<mapsto> c) |` S = fs |` S"
  by (auto simp: restrict_map_def fun_eq_iff)

lemma allow_files_upd:
  "pairing_path base_dir ch = Inr p \<Longrightarrow> allow_files base_dir (fs(p \<mapsto> c)) = allow_files base_dir fs"
  "approve_attempts_path base_dir ch = Inr p \<Longrightarrow> allow_files base_dir (fs(p \<mapsto> c)) = allow_files base_dir fs"
  by (auto simp: allow_files_def restrict_upd dest: paths_pairwise)

lemma attempt_files_upd:
  "pairing_path base_dir ch = Inr p \<Longrightarrow> attempt_files base_dir (fs(p \<mapsto> c)) = attempt_files base_dir fs"
  "allow_from_path base_dir ch = Inr p \<Longrightarrow> attempt_files base_dir (fs(p \<mapsto> c)) = attempt_files base_dir fs"
  by (auto simp: attempt_files_def restrict_upd dest: paths_pairwise)

lemma read_allow_from_files: "allow_files base_dir fs = allow_files base_dir fs' \<Longrightarrow> read_allow_from pc base_dir ch fs = read_allow_from pc base_dir ch fs'"
  by (fastforce simp: read_allow_from_def allow_files_def restrict_map_def fun_eq_iff split: sum.splits if_splits)

lemmas file_ops = open_create_def write_pairing_file_def allow_files_upd attempt_files_upd

lemma list_pending_frame:
  "allow_files base_dir (snd (list_pending pc base_dir now ch fs)) = allow_files base_dir fs"
  "attempt_files base_dir (snd (list_pending pc base_dir now ch fs)) = attempt_files base_dir fs"
  by (auto simp: list_pending_def Let_def file_ops split: sum.split option.split)

lemma upsert_frame:
  "allow_files base_dir (snd (snd (upsert_request pc base_dir now draw ch s m (r, fs)))) = allow_files base_dir fs"
  "attempt_files base_dir (snd (snd (upsert_request pc base_dir now draw ch s m (r, fs)))) = attempt_files base_dir fs"
  by (auto simp: upsert_request_def Let_def file_ops split: sum.split option.split prod.split)

lemma record_failed_frame:
  "allow_files base_dir (snd (record_failed_approve pc base_dir now ch fs)) = allow_files base_dir fs"
  by (auto simp: record_failed_approve_def Let_def file_ops split: sum.split option.split)

lemma add_allow_frame:
  "attempt_files base_dir (snd (add_allow_from pc base_dir ch e fs)) = attempt_files base_dir fs"
  by (auto simp: add_allow_from_def Let_def file_ops split: sum.split option.split)

text \<open>How an approval that finds the code goes.\<close>

lemma approve_Some:
  assumes "approve pc base_dir now ch code fs = (Inr (Some entry), fs')"
  obtains path requests i fs1 where "pairing_path base_dir ch = Inr path"
    and "requests = filter (\<lambda>q. \<not> is_expired pc q now) (load_requests pc (content_of path fs))"
    and "i < length requests" and "entry = requests ! i" and "to_uppercase (pq_code entry) = to_uppercase (trim code)"
    and "to_uppercase (trim code) \<noteq> []" and "is_approve_rate_limited pc base_dir now ch fs = Inr False"
    and "add_allow_from pc base_dir ch (pq_id entry) (write_pairing_file pc path (take i requests @ drop (Suc i) requests) fs) = (Inr (), fs')"
  using assms
  by (auto simp: approve_def Let_def content_of_def dest!: position_SomeD split: if_splits sum.splits bool.splits option.splits prod.splits)

lemma add_allow_error: "add_allow_from pc base_dir ch e fs = (Inl err, fs') \<Longrightarrow> fs' = fs"
  by (auto simp: add_allow_from_def Let_def split: if_splits sum.splits)

lemma approve_other:
  assumes "approve pc base_dir now ch code fs = (res, fs')" and "\<And>entry. res \<noteq> Inr (Some entry)"
  shows "allow_files base_dir fs' = allow_files base_dir fs"
proof -
  note frame = record_failed_frame [of base_dir pc now ch fs]
  show ?thesis using assms
    by (auto simp: approve_def Let_def write_pairing_file_def allow_files_upd dest!: add_allow_error
        dest: arg_cong [where f = "allow_files base_dir \<circ> snd"] simp: frame
        split: if_splits sum.splits bool.splits option.splits prod.splits)
qed


subsection \<open>Only a code pairs\<close>

text \<open>The operations on the store, with the clock they see.\<close>

datatype pairing_op = OpList string | OpUpsert string string "json option" | OpApprove string string

fun pairing_exec :: "PairingCodec \<Rightarrow> string \<Rightarrow> 'r generator \<Rightarrow> u64 \<times> pairing_op \<Rightarrow> 'r \<times> files \<Rightarrow> 'r \<times> files" where
  "pairing_exec pc base_dir draw (now, OpList ch) (r, fs) = (r, snd (list_pending pc base_dir now ch fs))"
| "pairing_exec pc base_dir draw (now, OpUpsert ch s m) (r, fs) = snd (upsert_request pc base_dir now draw ch s m (r, fs))"
| "pairing_exec pc base_dir draw (now, OpApprove ch code) (r, fs) = (r, snd (approve pc base_dir now ch code fs))"

lemma approve_attempt_files:
  assumes "approve pc base_dir now ch code fs = (res, fs')"
  shows "attempt_files base_dir fs' =
    (if res = Inr None \<and> trim code \<noteq> [] then attempt_files base_dir (snd (record_failed_approve pc base_dir now ch fs))
     else attempt_files base_dir fs)"
proof -
  have up: "to_uppercase s = [] \<longleftrightarrow> s = []" for s by (simp add: to_uppercase_def)
  have add: "add_allow_from pc base_dir ch e g = (x, fs') \<Longrightarrow> attempt_files base_dir fs' = attempt_files base_dir g" for e x g
    using add_allow_frame [of base_dir pc ch e g] by simp
  have rec: "record_failed_approve pc base_dir now ch fs = (Inl e, g) \<Longrightarrow> g = fs" for e g
    by (auto simp: record_failed_approve_def Let_def split: sum.splits)
  show ?thesis using assms
    by (auto simp: approve_def Let_def write_pairing_file_def attempt_files_upd up dest!: add rec
        split: if_splits sum.splits bool.splits option.splits prod.splits)
qed

lemma read_allow_other:
  assumes "allow_from_path base_dir ch' \<noteq> allow_from_path base_dir ch"
  shows "read_allow_from pc base_dir ch' (snd (add_allow_from pc base_dir ch e fs)) = read_allow_from pc base_dir ch' fs"
  using assms by (auto simp: read_allow_from_def add_allow_from_def Let_def split: sum.split)

text \<open>
  Property C16. The list of allowed senders changes only through a code: whatever operation runs, the list of a channel
  stays as it was, unless an approval presented the code of a request that was pending for that channel (or one with
  the same files), not older than fifteen minutes, while wrong codes had not used up the limit.
\<close>

theorem pairing_needs_code:
  assumes "read_allow_from pc base_dir ch (snd (pairing_exec pc base_dir draw (now, oper) (r, fs))) \<noteq> read_allow_from pc base_dir ch fs"
  shows "\<exists>ch' code path entry. oper = OpApprove ch' code \<and> allow_from_path base_dir ch' = allow_from_path base_dir ch \<and>
    pairing_path base_dir ch' = Inr path \<and> entry \<in> set (load_requests pc (content_of path fs)) \<and>
    \<not> is_expired pc entry now \<and> to_uppercase (pq_code entry) = to_uppercase (trim code) \<and> trim code \<noteq> [] \<and>
    is_approve_rate_limited pc base_dir now ch' fs = Inr False"
proof -
  have changed: "allow_files base_dir (snd (pairing_exec pc base_dir draw (now, oper) (r, fs))) \<noteq> allow_files base_dir fs"
    using assms read_allow_from_files by blast
  then obtain ch' code where oper: "oper = OpApprove ch' code"
    by (cases oper) (auto simp: list_pending_frame upsert_frame)
  obtain res fs' where run: "approve pc base_dir now ch' code fs = (res, fs')" by (cases "approve pc base_dir now ch' code fs")
  with changed oper have "\<not> (\<forall>entry. res \<noteq> Inr (Some entry))" using approve_other [OF run] by auto
  then obtain entry where res: "res = Inr (Some entry)" by blast
  from approve_Some [OF run [unfolded res]] obtain path requests i where ok: "pairing_path base_dir ch' = Inr path"
      "requests = filter (\<lambda>q. \<not> is_expired pc q now) (load_requests pc (content_of path fs))" "i < length requests"
      "entry = requests ! i" "to_uppercase (pq_code entry) = to_uppercase (trim code)" "to_uppercase (trim code) \<noteq> []"
      "is_approve_rate_limited pc base_dir now ch' fs = Inr False"
    and add: "add_allow_from pc base_dir ch' (pq_id entry) (write_pairing_file pc path (take i requests @ drop (Suc i) requests) fs) = (Inr (), fs')"
    by metis
  have "entry \<in> set requests" using ok(3,4) by simp
  moreover have "allow_from_path base_dir ch' = allow_from_path base_dir ch"
  proof (rule ccontr)
    assume "allow_from_path base_dir ch' \<noteq> allow_from_path base_dir ch"
    then have "read_allow_from pc base_dir ch fs' =
        read_allow_from pc base_dir ch (write_pairing_file pc path (take i requests @ drop (Suc i) requests) fs)"
      using read_allow_other [of base_dir ch ch' pc "pq_id entry"] add by (metis snd_conv)
    also have "\<dots> = read_allow_from pc base_dir ch fs"
      by (rule read_allow_from_files) (simp add: write_pairing_file_def allow_files_upd(1) [OF ok(1)])
    finally show False using assms oper run by simp
  qed
  ultimately show ?thesis using oper ok by (auto simp: to_uppercase_def)
qed


text \<open>A codec: a value is written as its number, in unary. Time stamps are written in unary too, with one mark more.\<close>

instance json :: countable
  by countable_datatype

definition unary :: "'a::countable \<Rightarrow> string" where
  "unary x = replicate (Suc (to_nat x)) (CHR ''x'')"

definition from_unary :: "string \<Rightarrow> 'a::countable option" where
  "from_unary s = (if s = [] then None else Some (from_nat (length s - 1)))"

lemma from_unary [simp]: "from_unary (unary x) = Some x" "from_unary [] = None"
  by (simp_all add: from_unary_def unary_def)

definition request_tuple :: "PairingRequest \<Rightarrow> string \<times> string \<times> string \<times> string \<times> json option" where
  "request_tuple q = (pq_id q, pq_code q, pq_created_at q, pq_last_seen_at q, pq_meta q)"

definition tuple_request :: "string \<times> string \<times> string \<times> string \<times> json option \<Rightarrow> PairingRequest" where
  "tuple_request t = (case t of (i, c, a, l, m) \<Rightarrow>
     \<lparr>pq_id = i, pq_code = c, pq_created_at = a, pq_last_seen_at = l, pq_meta = m\<rparr>)"

lemma tuple_request [simp]: "tuple_request (request_tuple q) = q"
  by (simp add: tuple_request_def request_tuple_def)

definition demo_codec :: PairingCodec where
  "demo_codec = \<lparr>pc_requests_to = unary \<circ> map request_tuple,
     pc_requests_from = map_option (map tuple_request) \<circ> from_unary,
     pc_allow_to = unary, pc_allow_from = from_unary, pc_attempts_to = unary, pc_attempts_from = from_unary,
     pc_parse_rfc3339 = map_option int \<circ> from_unary, pc_to_rfc3339 = (\<lambda>t. unary (unat t))\<rparr>"

lemma demo_codec_ok: "codec_ok demo_codec"
  by (simp add: codec_ok_def demo_codec_def comp_def)

definition demo_request :: PairingRequest where
  "demo_request = \<lparr>pq_id = ''7'', pq_code = ''ABCDEFGH'', pq_created_at = pc_to_rfc3339 demo_codec 1000,
     pq_last_seen_at = [], pq_meta = None\<rparr>"

definition demo_files :: files where
  "demo_files = [''d/telegram-pairing.json'' \<mapsto> pc_requests_to demo_codec [demo_request],
     ''d/telegram-allowFrom.json'' \<mapsto> pc_allow_to demo_codec [''5'']]"

lemma demo_key: "safe_channel_key ''telegram'' = Inr ''telegram''"
  by code_simp

lemma demo_created: "is_expired demo_codec demo_request 1100 = False"
  by (simp add: is_expired_def parse_timestamp_def demo_request_def demo_codec_def saturating_sub_def
      PAIRING_PENDING_TTL_SECS_def Let_def word_le_nat_alt word_less_nat_alt)

lemma demo_limited: "is_approve_rate_limited demo_codec ''d'' now ''telegram'' demo_files = Inr False"
  by (simp add: is_approve_rate_limited_def path_cases demo_key join_path_def demo_files_def)

lemma demo_load: "load_requests demo_codec (pc_requests_to demo_codec rs) = rs" "load_allow demo_codec (pc_allow_to demo_codec xs) = xs"
  by (simp_all add: load_requests_def load_allow_def demo_codec_def comp_def)

lemma demo_approve:
  "approve demo_codec ''d'' 1100 ''telegram'' ''abcdefgh'' demo_files =
     (Inr (Some demo_request), demo_files(''d/telegram-pairing.json'' \<mapsto> pc_requests_to demo_codec [],
        ''d/telegram-allowFrom.json'' \<mapsto> pc_allow_to demo_codec [''7'']))"
proof -
  have code: "to_uppercase (trim ''abcdefgh'') = ''ABCDEFGH''" by code_simp
  have i: "trim ''7'' = ''7''" by code_simp
  have up: "to_uppercase ''ABCDEFGH'' = ''ABCDEFGH''" by code_simp
  have "pq_code demo_request = ''ABCDEFGH''" "pq_id demo_request = ''7''" by (simp_all add: demo_request_def)
  moreover have "pc_allow_from demo_codec [] = None" by (simp add: demo_codec_def)
  moreover have "demo_files ''d/telegram-pairing.json'' = Some (pc_requests_to demo_codec [demo_request])"
    by (simp add: demo_files_def)
  ultimately show ?thesis
    by (simp add: approve_def code demo_limited path_cases demo_key join_path_def demo_load demo_created up i
        add_allow_from_def write_pairing_file_def content_of_def load_allow_def Let_def)
qed


theorem pairing_needs_code_witness:
  "\<exists>ch' code path entry. OpApprove ''telegram'' ''abcdefgh'' = OpApprove ch' code \<and>
     allow_from_path ''d'' ch' = allow_from_path ''d'' ''telegram'' \<and> pairing_path ''d'' ch' = Inr path \<and>
     entry \<in> set (load_requests demo_codec (content_of path demo_files)) \<and> \<not> is_expired demo_codec entry 1100 \<and>
     to_uppercase (pq_code entry) = to_uppercase (trim code) \<and> trim code \<noteq> [] \<and>
     is_approve_rate_limited demo_codec ''d'' 1100 ch' demo_files = Inr False"
proof (rule pairing_needs_code [where draw = "\<lambda>r n. (0, r)" and r = "()"])
  show "read_allow_from demo_codec ''d'' ''telegram''
      (snd (pairing_exec demo_codec ''d'' (\<lambda>r n. (0, r)) (1100, OpApprove ''telegram'' ''abcdefgh'') ((), demo_files))) \<noteq>
    read_allow_from demo_codec ''d'' ''telegram'' demo_files"
    by (simp add: demo_approve read_allow_from_def path_cases demo_key join_path_def demo_load) (simp add: demo_files_def demo_load)
qed

text \<open>
  Also: An approval leaves the approved sender as the only one on the list. The file is truncated when it is
  opened, before the list is read from it: whoever was approved before has to pair again.
\<close>

theorem approval_forgets_others:
  assumes "codec_ok pc" and "approve pc base_dir now ch code fs = (Inr (Some entry), fs')" and "trim (pq_id entry) \<noteq> []"
  shows "read_allow_from pc base_dir ch fs' = Inr [trim (pq_id entry)]"
proof -
  obtain g where "add_allow_from pc base_dir ch (pq_id entry) g = (Inr (), fs')" using approve_Some [OF assms(2)] by metis
  with assms(1,3) show ?thesis
    by (auto simp: add_allow_from_def read_allow_from_def codec_ok_def load_allow_def content_of_def Let_def split: sum.splits)
qed

theorem approval_forgets_others_witness:
  "read_allow_from demo_codec ''d'' ''telegram'' demo_files = Inr [''5''] \<and>
   read_allow_from demo_codec ''d'' ''telegram'' (snd (approve demo_codec ''d'' 1100 ''telegram'' ''abcdefgh'' demo_files)) = Inr [''7'']"
proof
  show "read_allow_from demo_codec ''d'' ''telegram'' demo_files = Inr [''5'']"
    by (simp add: read_allow_from_def path_cases demo_key join_path_def) (simp add: demo_files_def demo_load)
  have t: "trim (pq_id demo_request) = ''7''" unfolding demo_request_def by code_simp
  show "read_allow_from demo_codec ''d'' ''telegram'' (snd (approve demo_codec ''d'' 1100 ''telegram'' ''abcdefgh'' demo_files)) = Inr [''7'']"
    using approval_forgets_others [OF demo_codec_ok demo_approve] t by (simp add: demo_approve)
qed

subsection \<open>Guessing\<close>

text \<open>The wrong codes a history presents for the files of \<open>key\<close>, by the time they were tried and looked up.\<close>

definition wrong_guess :: "PairingCodec \<Rightarrow> string \<Rightarrow> string \<Rightarrow> u64 \<times> pairing_op \<Rightarrow> files \<Rightarrow> bool" where
  "wrong_guess pc base_dir key x fs =
     (case x of
        (now, OpApprove ch code) \<Rightarrow> safe_channel_key ch = Inr key \<and> trim code \<noteq> [] \<and> fst (approve pc base_dir now ch code fs) = Inr None
      | _ \<Rightarrow> False)"

fun wrong_guesses :: "PairingCodec \<Rightarrow> string \<Rightarrow> 'r generator \<Rightarrow> string \<Rightarrow> (u64 \<times> pairing_op) list \<Rightarrow> 'r \<times> files \<Rightarrow> u64 list" where
  "wrong_guesses pc base_dir draw key [] st = []"
| "wrong_guesses pc base_dir draw key (x # xs) st =
     (if wrong_guess pc base_dir key x (snd st) then [fst x] else []) @
     wrong_guesses pc base_dir draw key xs (pairing_exec pc base_dir draw x st)"

definition failed_at :: "PairingCodec \<Rightarrow> string \<Rightarrow> string \<Rightarrow> files \<Rightarrow> u64 list" where
  "failed_at pc base_dir key fs = load_attempts pc (content_of (join_path base_dir (key @ ''-approve-attempts.json'')) fs)"

lemma failed_at_files:
  assumes "safe_channel_key ch = Inr key" and "attempt_files base_dir fs = attempt_files base_dir fs'"
  shows "failed_at pc base_dir key fs = failed_at pc base_dir key fs'"
proof -
  let ?p = "join_path base_dir (key @ ''-approve-attempts.json'')"
  have "approve_attempts_path base_dir ch = Inr ?p" by (simp add: path_cases assms(1))
  then have "fs ?p = fs' ?p" using fun_cong [OF assms(2), of ?p] by (auto simp: attempt_files_def restrict_map_def split: if_splits)
  then show ?thesis by (simp add: failed_at_def content_of_def)
qed


lemma recent_recent: "t \<le> now \<Longrightarrow> recent now (recent t xs) = recent now xs"
proof -
  assume "t \<le> now"
  then have "saturating_sub t PAIRING_APPROVE_RATE_WINDOW_SECS \<le> saturating_sub now PAIRING_APPROVE_RATE_WINDOW_SECS"
    by (simp add: word_le_nat_alt unat_saturating_sub diff_le_mono)
  then show ?thesis by (auto simp: recent_def intro: filter_cong)
qed

lemma recent_append: "recent now (xs @ ys) = recent now xs @ recent now ys"
  by (simp add: recent_def)

lemma approve_None:
  assumes "approve pc base_dir now ch code fs = (Inr None, fs')" and "trim code \<noteq> []"
  shows "is_approve_rate_limited pc base_dir now ch fs = Inr False" and
    "attempt_files base_dir fs' = attempt_files base_dir (snd (record_failed_approve pc base_dir now ch fs))"
proof -
  have "to_uppercase (trim code) \<noteq> []" using assms(2) by (simp add: to_uppercase_def)
  then show "is_approve_rate_limited pc base_dir now ch fs = Inr False" using assms(1)
    by (auto simp: approve_def Let_def split: if_splits sum.splits bool.splits)
  show "attempt_files base_dir fs' = attempt_files base_dir (snd (record_failed_approve pc base_dir now ch fs))"
    using approve_attempt_files [OF assms(1)] assms(2) by simp
qed

lemma record_failed_at:
  assumes "codec_ok pc" and "safe_channel_key ch = Inr k"
  shows "failed_at pc base_dir key (snd (record_failed_approve pc base_dir now ch fs)) =
    (if k = key then recent now (failed_at pc base_dir key fs @ [now]) else failed_at pc base_dir key fs)"
  using assms
  by (auto simp: record_failed_approve_def path_cases failed_at_def content_of_def open_create_def join_path_def codec_ok_def
      load_attempts_def Let_def split: option.split)

lemma exec_failed_at:
  assumes pc: "codec_ok pc" and key: "safe_channel_key c0 = Inr key"
  shows "failed_at pc base_dir key (snd (pairing_exec pc base_dir draw (now, oper) (r, fs))) =
      (if wrong_guess pc base_dir key (now, oper) fs then recent now (failed_at pc base_dir key fs @ [now]) else failed_at pc base_dir key fs)"
    and "wrong_guess pc base_dir key (now, oper) fs \<Longrightarrow> length (recent now (failed_at pc base_dir key fs)) < PAIRING_APPROVE_RATE_LIMIT"
proof -
  note same = failed_at_files [OF key]
  show "failed_at pc base_dir key (snd (pairing_exec pc base_dir draw (now, oper) (r, fs))) =
      (if wrong_guess pc base_dir key (now, oper) fs then recent now (failed_at pc base_dir key fs @ [now]) else failed_at pc base_dir key fs)"
  proof (cases oper)
    case (OpList ch)
    then show ?thesis by (simp add: wrong_guess_def same [OF list_pending_frame(2)])
  next
    case (OpUpsert ch s m)
    then show ?thesis by (simp add: wrong_guess_def same [OF upsert_frame(2)])
  next
    case (OpApprove ch code)
    obtain res fs' where run: "approve pc base_dir now ch code fs = (res, fs')" by (cases "approve pc base_dir now ch code fs")
    show ?thesis
    proof (cases "res = Inr None \<and> trim code \<noteq> []")
      case True
      then have n: "approve pc base_dir now ch code fs = (Inr None, fs')" and t: "trim code \<noteq> []" using run by auto
      obtain k where k: "safe_channel_key ch = Inr k"
        using approve_None(1) [OF n t] by (cases "safe_channel_key ch") (auto simp: is_approve_rate_limited_def path_cases)
      show ?thesis using same [OF approve_None(2) [OF n t], of pc] record_failed_at [OF pc k, of base_dir key now fs] OpApprove n t k
        by (simp add: wrong_guess_def)
    next
      case False
      then have "attempt_files base_dir fs' = attempt_files base_dir fs" using approve_attempt_files [OF run] by argo
      then show ?thesis using same [of base_dir fs' fs pc] OpApprove run False by (auto simp: wrong_guess_def)
    qed
  qed
  assume "wrong_guess pc base_dir key (now, oper) fs"
  then obtain ch code fs' where op: "oper = OpApprove ch code" "safe_channel_key ch = Inr key" "trim code \<noteq> []"
      "approve pc base_dir now ch code fs = (Inr None, fs')"
    by (cases oper) (auto simp: wrong_guess_def, metis prod.collapse)
  have "is_approve_rate_limited pc base_dir now ch fs = Inr False" by (rule approve_None(1) [OF op(4,3)])
  then show "length (recent now (failed_at pc base_dir key fs)) < PAIRING_APPROVE_RATE_LIMIT"
    using pc op(2) by (auto simp: is_approve_rate_limited_def path_cases failed_at_def content_of_def codec_ok_def load_attempts_def
        recent_def PAIRING_APPROVE_RATE_LIMIT_def split: option.splits)
qed

lemma wrong_guesses_log:
  assumes pc: "codec_ok pc" and key: "safe_channel_key c0 = Inr key" and "sorted (map fst xs)"
    and "\<forall>x \<in> set xs. recent (fst x) (failed_at pc base_dir key (snd st)) = recent (fst x) hist"
    and "i < length (wrong_guesses pc base_dir draw key xs st)"
  shows "length (recent (wrong_guesses pc base_dir draw key xs st ! i) (hist @ take i (wrong_guesses pc base_dir draw key xs st)))
      < PAIRING_APPROVE_RATE_LIMIT"
  using assms(3-)
proof (induction xs arbitrary: st hist i)
  case (Cons x xs)
  obtain now oper where x: "x = (now, oper)" by (cases x)
  obtain r fs where st: "st = (r, fs)" by (cases st)
  let ?st = "pairing_exec pc base_dir draw x st"
  let ?w = "wrong_guess pc base_dir key x fs"
  let ?hist = "if ?w then hist @ [now] else hist"
  have later: "now \<le> fst y" if "y \<in> set xs" for y using Cons.prems(1) that x by auto
  have old: "recent (fst y) (failed_at pc base_dir key fs) = recent (fst y) hist" if "y \<in> set (x # xs)" for y
    using Cons.prems(2) that st by auto
  have "recent (fst y) (failed_at pc base_dir key (snd ?st)) = recent (fst y) ?hist" if "y \<in> set xs" for y
    using old [of y] that recent_recent [OF later [OF that]]
    by (auto simp: exec_failed_at(1) [OF pc key] x st recent_append)
  then have IH: "j < length (wrong_guesses pc base_dir draw key xs ?st) \<Longrightarrow>
      length (recent (wrong_guesses pc base_dir draw key xs ?st ! j) (?hist @ take j (wrong_guesses pc base_dir draw key xs ?st)))
      < PAIRING_APPROVE_RATE_LIMIT" for j
    using Cons.IH [of ?st ?hist j] Cons.prems(1) by auto
  show ?case
  proof (cases ?w)
    case False
    then show ?thesis using IH [of i] Cons.prems(3) by (simp add: st)
  next
    case True
    then have "length (recent now hist) < PAIRING_APPROVE_RATE_LIMIT"
      using exec_failed_at(2) [OF pc key, of base_dir now oper fs] old [of x] x by simp
    then show ?thesis using IH [of "i - 1"] Cons.prems(3) True by (cases i) (auto simp: st x)
  qed
qed simp

lemma length_filter_mono: "(\<And>x. x \<in> set xs \<Longrightarrow> P x \<Longrightarrow> Q x) \<Longrightarrow> length (filter P xs) \<le> length (filter Q xs)"
  by (induction xs) (auto simp: le_SucI)

lemma log_window:
  assumes "\<forall>i < length G. length (recent (G ! i) (take i G)) < PAIRING_APPROVE_RATE_LIMIT"
  shows "length (filter (\<lambda>t. unat a \<le> unat t \<and> unat t \<le> unat a + 300) G) \<le> PAIRING_APPROVE_RATE_LIMIT"
  using assms
proof (induction G rule: rev_induct)
  case (snoc g G)
  let ?P = "\<lambda>t. unat a \<le> unat t \<and> unat t \<le> unat a + 300"
  have IH: "length (filter ?P G) \<le> PAIRING_APPROVE_RATE_LIMIT"
  proof (rule snoc.IH, intro allI impI)
    fix i assume "i < length G"
    then show "length (recent (G ! i) (take i G)) < PAIRING_APPROVE_RATE_LIMIT"
      using spec [OF snoc.prems, of i] by (simp add: nth_append)
  qed
  show ?case
  proof (cases "?P g")
    case True
    then have "length (filter ?P G) \<le> length (recent g G)"
      unfolding recent_def
      by (intro length_filter_mono) (auto simp: word_le_nat_alt unat_saturating_sub PAIRING_APPROVE_RATE_WINDOW_SECS_def)
    also have "\<dots> < PAIRING_APPROVE_RATE_LIMIT" using spec [OF snoc.prems, of "length G"] by simp
    finally show ?thesis using True by simp
  qed (use IH in auto)
qed simp




subsection \<open>Pairing works\<close>

lemma draw_chars_spec:
  assumes "\<And>r n. 0 < n \<Longrightarrow> fst (draw r n) < n"
  shows "length (fst (draw_chars draw k r)) = k \<and> set (fst (draw_chars draw k r)) \<subseteq> set PAIRING_ALPHABET"
proof (induction k arbitrary: r)
  case (Suc k)
  have "fst (draw r (length PAIRING_ALPHABET)) < length PAIRING_ALPHABET" by (rule assms) (simp add: PAIRING_ALPHABET_def)
  then show ?case using Suc [of "snd (draw r (length PAIRING_ALPHABET))"] by (auto simp: Let_def split: prod.split)
qed simp

lemma try_codes_spec:
  assumes "\<And>r n. 0 < n \<Longrightarrow> fst (draw r n) < n"
  shows "fst (try_codes draw existing k r) \<notin> existing \<or> length (fst (try_codes draw existing k r)) > PAIRING_CODE_LENGTH"
    and "fst (try_codes draw existing k r) \<noteq> []"
proof -
  have "length (fst (random_code draw r)) = PAIRING_CODE_LENGTH" for r
    using draw_chars_spec [of draw, OF assms] by (simp add: random_code_def)
  then have code: "random_code draw r = (c, r') \<Longrightarrow> length c = PAIRING_CODE_LENGTH" for r c r' by (metis fst_conv)
  have pad: "pad4 n \<noteq> []" for n by (auto simp: pad4_def)
  have "(fst (try_codes draw existing k r) \<notin> existing \<or> length (fst (try_codes draw existing k r)) > PAIRING_CODE_LENGTH) \<and>
      fst (try_codes draw existing k r) \<noteq> []"
    by (induction k arbitrary: r) (auto simp: Let_def pad PAIRING_CODE_LENGTH_def dest: code split: prod.split)
  then show "fst (try_codes draw existing k r) \<notin> existing \<or> length (fst (try_codes draw existing k r)) > PAIRING_CODE_LENGTH"
    "fst (try_codes draw existing k r) \<noteq> []" by auto
qed


lemma upsert_created:
  assumes "upsert_request pc base_dir now draw ch s m (r, fs) = (Inr res, r', fs')" and "ur_created res"
  obtains path requests where "pairing_path base_dir ch = Inr path"
    and "requests = filter (\<lambda>q. \<not> is_expired pc q now) (load_requests pc (content_of path (open_create path fs)))"
    and "length requests < PAIRING_PENDING_MAX" and "trim s \<noteq> []" and "\<forall>q \<in> set requests. pq_id q \<noteq> trim s"
    and "ur_code res = fst (generate_unique_code draw (set (map (to_uppercase \<circ> pq_code) requests)) r)"
    and "fs' = write_pairing_file pc path (requests @ [\<lparr>pq_id = trim s, pq_code = ur_code res,
           pq_created_at = pc_to_rfc3339 pc now, pq_last_seen_at = pc_to_rfc3339 pc now, pq_meta = m\<rparr>]) (open_create path fs)"
  using assms
  by (auto simp: upsert_request_def Let_def position_None split: if_splits sum.splits option.splits prod.splits)

lemma position_unique:
  assumes "x \<in> set xs" and "P x" and "\<And>y. y \<in> set xs \<Longrightarrow> P y \<Longrightarrow> y = x"
  obtains i where "position P xs = Some i" and "i < length xs" and "xs ! i = x"
proof (cases "position P xs")
  case None
  then show ?thesis using assms(1,2) by (auto simp: position_None)
next
  case (Some i)
  then show ?thesis using that position_SomeD [OF Some] assms(3) nth_mem by metis
qed

lemma alphabet_stable:
  assumes "set c \<subseteq> set PAIRING_ALPHABET"
  shows "to_uppercase (trim c) = c" and "to_uppercase c = c"
proof -
  have "\<forall>x \<in> set PAIRING_ALPHABET. to_upper_char x = x \<and> \<not> is_whitespace x" by code_simp
  then have "\<forall>x \<in> set c. to_upper_char x = x \<and> \<not> is_whitespace x" using assms by blast
  moreover from this have "trim c = c" by (intro trim_self) simp
  ultimately show "to_uppercase (trim c) = c" "to_uppercase c = c" by (simp_all add: to_uppercase_def map_idI)
qed


lemma try_codes_short:
  assumes draw: "\<And>r n. 0 < n \<Longrightarrow> fst (draw r n) < n"
    and "length (fst (try_codes draw existing k r)) = PAIRING_CODE_LENGTH"
  shows "set (fst (try_codes draw existing k r)) \<subseteq> set PAIRING_ALPHABET"
proof -
  have "length (fst (random_code draw r)) = PAIRING_CODE_LENGTH \<and> set (fst (random_code draw r)) \<subseteq> set PAIRING_ALPHABET" for r
    using draw_chars_spec [of draw, OF draw] by (simp add: random_code_def)
  then have code: "random_code draw r = (c, r') \<Longrightarrow> length c = PAIRING_CODE_LENGTH \<and> set c \<subseteq> set PAIRING_ALPHABET" for r c r'
    by (metis fst_conv)
  have pad: "pad4 n \<noteq> []" for n by (auto simp: pad4_def)
  show ?thesis using assms(2)
    by (induction k arbitrary: r) (auto simp: Let_def pad dest: code split: prod.splits if_splits)
qed

lemma approve_unique:
  assumes "codec_ok pc" and path: "pairing_path base_dir ch = Inr path"
    and fs: "fs path = Some (pc_requests_to pc requests)" and limit: "is_approve_rate_limited pc base_dir now ch fs = Inr False"
    and q: "q \<in> set requests" "\<not> is_expired pc q now" "to_uppercase (pq_code q) = to_uppercase (trim code)" "trim code \<noteq> []" "trim (pq_id q) \<noteq> []"
    and other: "\<And>q'. q' \<in> set requests \<Longrightarrow> to_uppercase (pq_code q') = to_uppercase (pq_code q) \<Longrightarrow> q' = q"
  shows "fst (approve pc base_dir now ch code fs) = Inr (Some q)"
proof -
  let ?live = "filter (\<lambda>q. \<not> is_expired pc q now) requests"
  let ?P = "\<lambda>q. to_uppercase (pq_code q) = to_uppercase (trim code)"
  have "q \<in> set ?live" using q(1,2) by simp
  moreover have "y = q" if "y \<in> set ?live" "?P y" for y using that q(3) other [of y] by simp
  ultimately obtain i where i: "position ?P ?live = Some i" "?live ! i = q" using q(3) position_unique [of q ?live ?P] by metis
  obtain a where a: "allow_from_path base_dir ch = Inr a" using path by (cases "safe_channel_key ch") (simp_all add: path_cases)
  have load: "load_requests pc (pc_requests_to pc requests) = requests" using assms(1) by (simp add: codec_ok_def load_requests_def)
  have ok: "fst (add_allow_from pc base_dir ch (pq_id q) g) = Inr ()" for g using a q(5) by (simp add: add_allow_from_def Let_def)
  have "to_uppercase (trim code) \<noteq> []" using q(4) by (simp add: to_uppercase_def)
  then show ?thesis using limit path fs i load ok [of "write_pairing_file pc path (take i ?live @ drop (Suc i) ?live) fs"]
    by (auto simp: approve_def Let_def split: prod.split sum.split)
qed

lemma fresh_not_expired:
  assumes "pc_parse_rfc3339 pc (pc_to_rfc3339 pc now) = Some (uint now)" and "unat now' \<le> unat now + 900"
    and "pq_created_at q = pc_to_rfc3339 pc now"
  shows "\<not> is_expired pc q now'"
  using assms
  by (simp add: is_expired_def parse_timestamp_def Let_def word_less_nat_alt unat_saturating_sub PAIRING_PENDING_TTL_SECS_def)

text \<open>
  Also: Pairing works: the code given for a new request is accepted at any time in the next fifteen minutes (as long
  as wrong codes have not used up the limit), in any case and with blanks around it, for the sender who asked and
  for no other, who is then allowed on the channel.
\<close>

theorem pairing_roundtrip:
  assumes "codec_ok pc" and draw: "\<And>r n. 0 < n \<Longrightarrow> fst (draw r n) < n"
    and clock: "pc_parse_rfc3339 pc (pc_to_rfc3339 pc now) = Some (uint now)" and "unat now' \<le> unat now + 900"
    and up: "upsert_request pc base_dir now draw ch s m (r, fs) = (Inr res, r', fs')" "ur_created res"
    and len: "length (ur_code res) = PAIRING_CODE_LENGTH"
    and limit: "is_approve_rate_limited pc base_dir now' ch fs' = Inr False"
    and code: "to_uppercase (trim code) = ur_code res"
  shows "\<exists>entry. fst (approve pc base_dir now' ch code fs') = Inr (Some entry) \<and> pq_id entry = trim s \<and>
    is_sender_allowed pc base_dir ch s None (snd (approve pc base_dir now' ch code fs')) = Inr True"
proof -
  obtain path requests where path: "pairing_path base_dir ch = Inr path" and id: "trim s \<noteq> []"
    and gen: "ur_code res = fst (generate_unique_code draw (set (map (to_uppercase \<circ> pq_code) requests)) r)"
    and fs': "fs' = write_pairing_file pc path (requests @ [\<lparr>pq_id = trim s, pq_code = ur_code res,
           pq_created_at = pc_to_rfc3339 pc now, pq_last_seen_at = pc_to_rfc3339 pc now, pq_meta = m\<rparr>]) (open_create path fs)"
      (is "_ = write_pairing_file pc path (requests @ [?q]) _")
    by (rule upsert_created [OF up])
  have new: "ur_code res \<notin> set (map (to_uppercase \<circ> pq_code) requests)" "ur_code res \<noteq> []"
    using try_codes_spec [of draw, OF draw] len unfolding gen generate_unique_code_def by (metis less_irrefl, metis)
  have "set (ur_code res) \<subseteq> set PAIRING_ALPHABET"
    using try_codes_short [of draw, OF draw] len unfolding gen generate_unique_code_def by metis
  then have upc: "to_uppercase (ur_code res) = ur_code res" by (rule alphabet_stable(2))
  have found: "fst (approve pc base_dir now' ch code fs') = Inr (Some ?q)"
  proof (rule approve_unique [OF assms(1) path _ limit])
    show "fs' path = Some (pc_requests_to pc (requests @ [?q]))" by (simp add: fs' write_pairing_file_def)
    show "\<not> is_expired pc ?q now'" by (rule fresh_not_expired [OF clock assms(4)]) simp
    show "to_uppercase (pq_code ?q) = to_uppercase (trim code)" using upc code by simp
    show "trim code \<noteq> []" using code new(2) by (auto simp: to_uppercase_def)
    show "q' = ?q" if "q' \<in> set (requests @ [?q])" "to_uppercase (pq_code q') = to_uppercase (pq_code ?q)" for q'
      using that new(1) upc by (auto simp: image_iff)
  qed (use id in simp_all)
  obtain g where run: "approve pc base_dir now' ch code fs' = (Inr (Some ?q), g)" using found by (metis prod.collapse)
  obtain g0 where add: "add_allow_from pc base_dir ch (trim s) g0 = (Inr (), g)"
    using approve_Some [OF run] by (metis PairingRequest.select_convs(1))
  have "read_allow_from pc base_dir ch g = Inr [trim s]"
    using add id assms(1)
    by (auto simp: add_allow_from_def read_allow_from_def codec_ok_def load_allow_def content_of_def Let_def split: sum.splits)
  then show ?thesis using run by (intro exI [where x = ?q]) (simp add: is_sender_allowed_def)
qed


definition low_draw :: "unit generator" where
  "low_draw r n = (0, r)"

lemma low_code: "generate_unique_code low_draw {} () = (''AAAAAAAA'', ())"
  unfolding generate_unique_code_def by code_simp

lemma demo_upsert:
  "upsert_request demo_codec ''d'' 1000 low_draw ''telegram'' ''7'' None ((), Map.empty) =
     (Inr \<lparr>ur_code = ''AAAAAAAA'', ur_created = True\<rparr>, (),
      [''d/telegram-pairing.json'' \<mapsto> pc_requests_to demo_codec [\<lparr>pq_id = ''7'', pq_code = ''AAAAAAAA'',
         pq_created_at = pc_to_rfc3339 demo_codec 1000, pq_last_seen_at = pc_to_rfc3339 demo_codec 1000, pq_meta = None\<rparr>]])"
proof -
  have t: "trim ''7'' = ''7''" by code_simp
  have "load_requests demo_codec [] = []" by (simp add: load_requests_def demo_codec_def)
  then show ?thesis
    by (simp add: upsert_request_def path_cases demo_key join_path_def open_create_def content_of_def t low_code
        PAIRING_PENDING_MAX_def write_pairing_file_def Let_def)
qed

theorem pairing_roundtrip_witness:
  "\<exists>entry. fst (approve demo_codec ''d'' 1500 ''telegram'' '' aaaaAAAA'' (snd (snd
       (upsert_request demo_codec ''d'' 1000 low_draw ''telegram'' ''7'' None ((), Map.empty))))) = Inr (Some entry) \<and>
     pq_id entry = trim ''7'' \<and>
     is_sender_allowed demo_codec ''d'' ''telegram'' ''7'' None (snd (approve demo_codec ''d'' 1500 ''telegram'' '' aaaaAAAA'' (snd (snd
       (upsert_request demo_codec ''d'' 1000 low_draw ''telegram'' ''7'' None ((), Map.empty)))))) = Inr True"
  unfolding demo_upsert snd_conv
proof (rule pairing_roundtrip [OF demo_codec_ok _ _ _ demo_upsert])
  show "to_uppercase (trim '' aaaaAAAA'') = ur_code \<lparr>ur_code = ''AAAAAAAA'', ur_created = True\<rparr>" by code_simp
qed (simp_all add: low_draw_def demo_codec_def PAIRING_CODE_LENGTH_def is_approve_rate_limited_def path_cases demo_key join_path_def)

text \<open>
  Also: A channel has at most three pending requests, one per sender: a request over the limit gets no code
  and is not stored, and a sender who asks again keeps the code given before.
\<close>

definition pending_ok :: "PairingRequest list \<Rightarrow> bool" where
  "pending_ok requests = (length requests \<le> PAIRING_PENDING_MAX \<and> distinct (map pq_id requests))"

lemma pending_ok_filter: "pending_ok rs \<Longrightarrow> pending_ok (filter P rs)"
  by (auto simp: pending_ok_def distinct_map_filter intro: le_trans [OF length_filter_le])

lemma pending_ok_update:
  "pending_ok rs \<Longrightarrow> i < length rs \<Longrightarrow> pq_id q = pq_id (rs ! i) \<Longrightarrow> pending_ok (rs[i := q])"
  by (simp add: pending_ok_def map_update) (metis list_update_id nth_map)

theorem pending_bounded:
  assumes "codec_ok pc" and "pairing_path base_dir ch = Inr path" and "pending_ok (load_requests pc (content_of path fs))"
    and "upsert_request pc base_dir now draw ch s m (r, fs) = (res, r', fs')"
  shows "pending_ok (load_requests pc (content_of path fs'))"
proof -
  let ?live = "filter (\<lambda>q. \<not> is_expired pc q now) (load_requests pc (content_of path fs))"
  have live: "pending_ok ?live" by (rule pending_ok_filter [OF assms(3)])
  have load: "load_requests pc (pc_requests_to pc rs) = rs" for rs using assms(1) by (simp add: codec_ok_def load_requests_def)
  have open_same: "content_of path (open_create path fs) = content_of path fs"
    by (simp add: content_of_def open_create_def split: option.split)
  have written: "content_of path (write_pairing_file pc path rs g) = pc_requests_to pc rs" for rs g
    by (simp add: content_of_def write_pairing_file_def)
  have new: "pending_ok (?live @ [q])" if "length ?live < PAIRING_PENDING_MAX" "\<forall>x \<in> set ?live. pq_id x \<noteq> pq_id q" for q
    using live that by (auto simp: pending_ok_def)
  have upd: "pending_ok (?live[i := (?live ! i)\<lparr>pq_last_seen_at := a, pq_code := b, pq_meta := c\<rparr>])"
    if "position P ?live = Some i" for P i a b c
    using pending_ok_update [OF live] position_SomeD [OF that] by simp
  show ?thesis
  proof (cases "trim s = []")
    case True
    then show ?thesis using assms(2-4) by (auto simp: upsert_request_def open_same Let_def)
  next
    case False
    show ?thesis
    proof (cases "position (\<lambda>q. pq_id q = trim s) ?live")
      case None
      then have "\<forall>x \<in> set ?live. pq_id x \<noteq> trim s" unfolding position_None .
      then have "pending_ok (?live @ [\<lparr>pq_id = trim s, pq_code = a, pq_created_at = b, pq_last_seen_at = c, pq_meta = d\<rparr>])"
        if "length ?live < PAIRING_PENDING_MAX" for a b c d using new that by simp
      then show ?thesis using assms(2-4) False None
        by (auto simp: upsert_request_def open_same written load Let_def split: if_splits prod.splits)
    next
      case (Some i)
      then show ?thesis using assms(2,4) False upd [OF Some]
        by (auto simp: upsert_request_def open_same written load Let_def split: prod.splits)
    qed
  qed
qed

theorem pending_bounded_witness:
  "pending_ok (load_requests demo_codec (content_of ''d/telegram-pairing.json''
     (snd (snd (upsert_request demo_codec ''d'' 1000 low_draw ''telegram'' ''7'' None ((), Map.empty))))))"
  by (rule pending_bounded [OF demo_codec_ok, of "''d''" "''telegram''" _ Map.empty 1000 low_draw "''7''" None "()"])
     (simp_all add: path_cases demo_key join_path_def content_of_def demo_upsert, simp add: load_requests_def demo_codec_def pending_ok_def)

end
