(* ===== verification/Worker_Auth.thy ===== *)
theory Worker_Auth
  imports Tool
begin

text \<open>
  Authentication of containers (\<^verbatim>\<open>src/orchestrator/auth.rs\<close>): a token and the granted credentials per job, and the
  middleware in front of every worker route. The store refines a specification that only knows which events
  happened to a job: a request is let through if and only if it shows the token of the last creation, and nothing
  has revoked it since. Random bytes and the parser of job ids are arguments; the header is given as text, if it is text.
\<close>

subsection \<open>Tokens\<close>

record CredentialGrant =
  cg_secret_name :: string
  cg_env_var :: string

record TokenStore =
  ts_tokens :: "(uuid \<times> string) list"
  ts_credential_grants :: "(uuid \<times> CredentialGrant list) list"

definition token_store_new :: TokenStore where
  "token_store_new = \<lparr>ts_tokens = [], ts_credential_grants = []\<rparr>"

text \<open>The format \<open>{b:02x}\<close>.\<close>

definition hex_digit :: "nat \<Rightarrow> char" where
  "hex_digit n = ''0123456789abcdef'' ! n"

definition hex_byte :: "8 word \<Rightarrow> string" where
  "hex_byte b = [hex_digit (unat b div 16), hex_digit (unat b mod 16)]"

definition generate_token :: "8 word list \<Rightarrow> string" where
  "generate_token bytes = fold (\<lambda>b s. s @ hex_byte b) bytes []"

definition create_token :: "8 word list \<Rightarrow> uuid \<Rightarrow> TokenStore \<Rightarrow> string \<times> TokenStore" where
  "create_token bytes job_id ts =
     (let token = generate_token bytes in (token, ts\<lparr>ts_tokens := AList.update job_id token (ts_tokens ts)\<rparr>))"

definition validate_token :: "uuid \<Rightarrow> string \<Rightarrow> TokenStore \<Rightarrow> bool" where
  "validate_token job_id token ts = (case map_of (ts_tokens ts) job_id of Some stored \<Rightarrow> stored = token | None \<Rightarrow> False)"

definition revoke_token :: "uuid \<Rightarrow> TokenStore \<Rightarrow> TokenStore" where
  "revoke_token job_id ts =
     ts\<lparr>ts_tokens := AList.delete job_id (ts_tokens ts),
        ts_credential_grants := AList.delete job_id (ts_credential_grants ts)\<rparr>"

definition active_token_count :: "TokenStore \<Rightarrow> nat" where
  "active_token_count ts = length (ts_tokens ts)"

definition store_grants :: "uuid \<Rightarrow> CredentialGrant list \<Rightarrow> TokenStore \<Rightarrow> TokenStore" where
  "store_grants job_id grants ts =
     (if grants = [] then ts
      else ts\<lparr>ts_credential_grants := AList.update job_id grants (ts_credential_grants ts)\<rparr>)"

definition get_grants :: "uuid \<Rightarrow> TokenStore \<Rightarrow> CredentialGrant list option" where
  "get_grants job_id ts = map_of (ts_credential_grants ts) job_id"

subsection \<open>The middleware\<close>

datatype StatusCode = OK | NO_CONTENT | BAD_REQUEST | UNAUTHORIZED | NOT_FOUND | INTERNAL_SERVER_ERROR | BAD_GATEWAY | SERVICE_UNAVAILABLE

definition extract_job_id_from_path :: "(string \<Rightarrow> uuid option) \<Rightarrow> string \<Rightarrow> uuid option" where
  "extract_job_id_from_path parse_uuid path =
     (let parts = split_on (\<lambda>c. c = CHR ''/'') (dropWhile (\<lambda>c. c = CHR ''/'') path)
      in if length parts \<ge> 2 \<and> parts ! 0 = ''worker'' then parse_uuid (parts ! 1) else None)"

text \<open>\<open>next_run\<close> is the handler behind the middleware.\<close>

definition worker_auth_middleware ::
    "(string \<Rightarrow> uuid option) \<Rightarrow> TokenStore \<Rightarrow> string \<Rightarrow> string option \<Rightarrow> 'r \<Rightarrow> StatusCode + 'r" where
  "worker_auth_middleware parse_uuid ts path authorization next_run =
     (case extract_job_id_from_path parse_uuid path of
        None \<Rightarrow> Inl BAD_REQUEST
      | Some job_id \<Rightarrow>
          (case Option.bind authorization (strip_prefix ''Bearer '') of
             None \<Rightarrow> Inl UNAUTHORIZED
           | Some token \<Rightarrow> if \<not> validate_token job_id token ts then Inl UNAUTHORIZED else Inr next_run))"

subsection \<open>Tokens are the random bytes\<close>

definition hex_value :: "char \<Rightarrow> nat" where
  "hex_value c = (let n = of_char c :: nat in if n \<ge> 97 then n - 87 else n - 48)"

fun token_bytes :: "string \<Rightarrow> 8 word list" where
  "token_bytes (c # d # cs) = of_nat (hex_value c * 16 + hex_value d) # token_bytes cs"
| "token_bytes _ = []"

lemma hex_value_digit: "n < 16 \<Longrightarrow> hex_value (hex_digit n) = n"
proof -
  have "\<forall>n \<in> set [0..<16]. hex_value (hex_digit n) = n" by code_simp
  then show "n < 16 \<Longrightarrow> hex_value (hex_digit n) = n" by simp
qed

lemma hex_byte_value: "of_nat (hex_value (hex_digit (unat b div 16)) * 16 + hex_value (hex_digit (unat b mod 16))) = (b :: 8 word)"
proof -
  have "unat b < 2 ^ LENGTH(8)" by (rule unsigned_less)
  then have "unat b < 256" by simp
  then have "unat b div 16 < 16" by linarith
  then have "hex_value (hex_digit (unat b div 16)) * 16 + hex_value (hex_digit (unat b mod 16)) = unat b"
    by (simp add: hex_value_digit)
  then show ?thesis by (simp only: of_nat_unat ucast_id)
qed

lemma generate_token_concat: "generate_token bytes = concat (map hex_byte bytes)"
proof -
  have "fold (\<lambda>b s. s @ hex_byte b) bytes acc = acc @ concat (map hex_byte bytes)" for acc
    by (induction bytes arbitrary: acc) auto
  then show ?thesis by (simp add: generate_token_def)
qed

lemma token_bytes_generate: "token_bytes (generate_token bytes) = bytes"
  unfolding generate_token_concat by (induction bytes) (simp_all add: hex_byte_def hex_byte_value del: of_nat_add of_nat_mult)

lemma length_generate_token: "length (generate_token bytes) = 2 * length bytes"
  unfolding generate_token_concat by (induction bytes) (simp_all add: hex_byte_def)

text \<open>
  Also: A token carries all of its randomness: the bytes can be read back from it, so that two tokens are equal
  only if all of their random bytes are, and thirty-two bytes give sixty-four characters.
\<close>

theorem token_roundtrip:
  "token_bytes (generate_token bytes) = bytes \<and> length (generate_token bytes) = 2 * length bytes \<and>
   (generate_token bytes = generate_token bytes') = (bytes = bytes')"
  using token_bytes_generate [of bytes] token_bytes_generate [of bytes'] length_generate_token by metis

subsection \<open>Refinement: who holds what\<close>

lemma middleware_eq:
  "worker_auth_middleware parse_uuid ts path authorization h =
     (if \<exists>j token. extract_job_id_from_path parse_uuid path = Some j \<and> authorization = Some (''Bearer '' @ token) \<and>
           map_of (ts_tokens ts) j = Some token
      then Inr h
      else if extract_job_id_from_path parse_uuid path = None then Inl BAD_REQUEST else Inl UNAUTHORIZED)"
proof (cases "extract_job_id_from_path parse_uuid path")
  case None
  then show ?thesis by (simp add: worker_auth_middleware_def)
next
  case (Some j)
  have strip: "strip_prefix ''Bearer '' a = Some t \<longleftrightarrow> a = ''Bearer '' @ t" for a t
    by (auto simp: strip_prefix_def prefix_def)
  show ?thesis
  proof (cases "Option.bind authorization (strip_prefix ''Bearer '')")
    case None
    then have "authorization \<noteq> Some (''Bearer '' @ t)" for t using strip [of "''Bearer '' @ t" t] by auto
    then show ?thesis using None Some by (simp add: worker_auth_middleware_def)
  next
    case (Some t)
    then have "authorization = Some (''Bearer '' @ t)" using strip by (auto simp: bind_eq_Some_conv)
    then show ?thesis using Some \<open>extract_job_id_from_path parse_uuid path = Some j\<close>
      by (auto simp: worker_auth_middleware_def validate_token_def split: option.split)
  qed
qed

datatype token_event = Issued uuid "8 word list" | Granted uuid "CredentialGrant list" | Revoked uuid

fun token_step :: "token_event \<Rightarrow> TokenStore \<Rightarrow> TokenStore" where
  "token_step (Issued j bytes) ts = snd (create_token bytes j ts)"
| "token_step (Granted j gs) ts = store_grants j gs ts"
| "token_step (Revoked j) ts = revoke_token j ts"

text \<open>The specification looks at the history of one job only, newest event first.\<close>

fun holder :: "uuid \<Rightarrow> token_event list \<Rightarrow> string option" where
  "holder j [] = None"
| "holder j (Issued k bytes # es) = (if k = j then Some (generate_token bytes) else holder j es)"
| "holder j (Revoked k # es) = (if k = j then None else holder j es)"
| "holder j (Granted _ _ # es) = holder j es"

fun granted :: "uuid \<Rightarrow> token_event list \<Rightarrow> CredentialGrant list option" where
  "granted j [] = None"
| "granted j (Granted k gs # es) = (if k = j \<and> gs \<noteq> [] then Some gs else granted j es)"
| "granted j (Revoked k # es) = (if k = j then None else granted j es)"
| "granted j (Issued _ _ # es) = granted j es"

definition token_history :: "token_event list \<Rightarrow> TokenStore" where
  "token_history es = fold token_step es token_store_new"

lemma token_history_snoc: "token_history (es @ [e]) = token_step e (token_history es)"
  by (simp add: token_history_def)

lemma history_refines:
  "map_of (ts_tokens (token_history es)) j = holder j (rev es) \<and> get_grants j (token_history es) = granted j (rev es)"
proof (induction es rule: rev_induct)
  case (snoc e es)
  then show ?case
    by (cases e) (auto simp: token_history_snoc create_token_def store_grants_def revoke_token_def get_grants_def
        Let_def update_conv' delete_conv')
qed (simp add: token_history_def token_store_new_def get_grants_def)

text \<open>
  Property C9. The token store refines the history of events: after any sequence of creations, grants and revocations
  of any jobs, the middleware lets a request through if and only if its path names a job and its header shows the token of
  the last creation for that very job with no revocation since; the credentials served are the last ones granted to
  that job since its last revocation.
\<close>

theorem worker_auth_refines:
  "((worker_auth_middleware parse_uuid (token_history es) path authorization h = Inr h) \<longleftrightarrow>
     (\<exists>j token. extract_job_id_from_path parse_uuid path = Some j \<and> authorization = Some (''Bearer '' @ token) \<and>
        holder j (rev es) = Some token)) \<and>
   get_grants k (token_history es) = granted k (rev es)"
  using history_refines [of es] by (simp add: middleware_eq)

end
