(* ===== verification/Job_Manager.thy ===== *)
theory Job_Manager
  imports Worker_Auth Path_Utils Context_Manager
begin

text \<open>
  Containers of sandboxed jobs: the manager that creates and stops them (\<^verbatim>\<open>src/orchestrator/job_manager.rs\<close>) and
  the reaper that removes orphans (\<^verbatim>\<open>src/orchestrator/reaper.rs\<close>). Docker is a record of the calls the code
  makes, on a world \<open>'w\<close> that any of them may change; the file system and the formats of ids, paths and times are
  arguments. Creating a container takes several steps, between which other tasks run: the operations are
  also the steps of a relation in which they interleave.
\<close>

subsection \<open>Data\<close>

datatype OrchestratorError =
    ContainerCreationFailed uuid string
  | ContainerNotFound uuid
  | InvalidContainerState uuid string
  | ApiError string
  | DockerError string

datatype JobMode = WorkerMode | ClaudeCode

record ContainerJobConfig =
  cj_image :: string
  cj_memory_limit_mb :: u64
  cj_cpu_shares :: u32
  cj_orchestrator_port :: "16 word"
  cj_claude_code_api_key :: "string option"
  cj_claude_code_oauth_token :: "string option"
  cj_claude_code_model :: string
  cj_claude_code_max_turns :: u32
  cj_claude_code_memory_limit_mb :: u64
  cj_claude_code_allowed_tools :: "string list"

datatype ContainerState = CsCreating | CsRunning | CsStopped | CsFailed

record CompletionResult =
  cr_success :: bool
  cr_message :: "string option"

record ContainerHandle =
  ch_job_id :: uuid
  ch_container_id :: string
  ch_state :: ContainerState
  ch_mode :: JobMode
  ch_created_at :: datetime
  ch_project_dir :: "path option"
  ch_task_description :: string
  ch_last_worker_status :: "string option"
  ch_worker_iteration :: u32
  ch_completion_result :: "CompletionResult option"

text \<open>What is asked of Docker: the configuration of a container and the options it is created with.\<close>

record ContainerSpec =
  cc_name :: string
  cc_image :: string
  cc_cmd :: "string list"
  cc_env :: "string list"
  cc_user :: string
  cc_working_dir :: string
  cc_labels :: "(string \<times> string) list"
  cc_binds :: "string list option"
  cc_memory :: int
  cc_cpu_shares :: int
  cc_network_mode :: string
  cc_extra_hosts :: "string list"
  cc_cap_drop :: "string list"
  cc_cap_add :: "string list"
  cc_security_opt :: "string list"
  cc_tmpfs :: "(string \<times> string) list"

record 'w Docker =
  dk_connect :: "'w \<Rightarrow> (string + unit) \<times> 'w"
  dk_create :: "ContainerSpec \<Rightarrow> 'w \<Rightarrow> (string + string) \<times> 'w"
  dk_start :: "string \<Rightarrow> 'w \<Rightarrow> (string + unit) \<times> 'w"
  dk_stop :: "string \<Rightarrow> nat \<Rightarrow> 'w \<Rightarrow> (string + unit) \<times> 'w"
  dk_remove :: "string \<Rightarrow> 'w \<Rightarrow> (string + unit) \<times> 'w"

record JobHost =
  jh_canonicalize :: "path \<Rightarrow> string + path"
  jh_create_dir_all :: "path \<Rightarrow> string option"
  jh_base_dir :: path
  jh_show_path :: "path \<Rightarrow> string"
  jh_show_uuid :: "uuid \<Rightarrow> string"
  jh_show_time :: "datetime \<Rightarrow> string"
  jh_linux :: bool

record 'w JobManager =
  jm_config :: ContainerJobConfig
  jm_token_store :: TokenStore
  jm_containers :: "(uuid \<times> ContainerHandle) list"
  jm_docker :: bool
  jm_world :: 'w

definition job_manager_new :: "ContainerJobConfig \<Rightarrow> TokenStore \<Rightarrow> 'w \<Rightarrow> 'w JobManager" where
  "job_manager_new config ts w =
     \<lparr>jm_config = config, jm_token_store = ts, jm_containers = [], jm_docker = False, jm_world = w\<rparr>"

definition on_handle :: "uuid \<Rightarrow> (ContainerHandle \<Rightarrow> ContainerHandle) \<Rightarrow> 'w JobManager \<Rightarrow> 'w JobManager" where
  "on_handle job_id f jm =
     (case map_of (jm_containers jm) job_id of
        None \<Rightarrow> jm
      | Some h \<Rightarrow> jm\<lparr>jm_containers := AList.update job_id (f h) (jm_containers jm)\<rparr>)"

subsection \<open>Bind mounts\<close>

definition validate_bind_mount_path :: "JobHost \<Rightarrow> path \<Rightarrow> uuid \<Rightarrow> OrchestratorError + path" where
  "validate_bind_mount_path jh dir job_id =
     (let failed = (\<lambda>reason. Inl (ContainerCreationFailed job_id reason));
          projects_base = path_join (jh_base_dir jh) (components ''projects'')
      in case jh_canonicalize jh dir of
           Inl e \<Rightarrow> failed (''failed to canonicalize project dir '' @ jh_show_path jh dir @ '': '' @ e)
         | Inr canonical \<Rightarrow>
             if \<not> is_absolute projects_base
             then failed ''base directory is not absolute; cannot safely validate bind mounts''
             else case jh_create_dir_all jh projects_base of
                    Some e \<Rightarrow> failed (''failed to create projects base '' @ jh_show_path jh projects_base @ '': '' @ e)
                  | None \<Rightarrow>
                      (case jh_canonicalize jh projects_base of
                         Inl e \<Rightarrow> failed (''failed to canonicalize projects base '' @ jh_show_path jh projects_base @ '': '' @ e)
                       | Inr canonical_base \<Rightarrow>
                           if \<not> prefix canonical_base canonical
                           then failed (''project directory '' @ jh_show_path jh canonical @ '' is outside allowed base '' @
                             jh_show_path jh canonical_base)
                           else Inr canonical))"

subsection \<open>Creating a container\<close>

definition get_docker :: "'w Docker \<Rightarrow> 'w JobManager \<Rightarrow> (OrchestratorError + unit) \<times> 'w JobManager" where
  "get_docker dk jm =
     (if jm_docker jm then (Inr (), jm)
      else case dk_connect dk (jm_world jm) of
             (Inl e, w) \<Rightarrow> (Inl (DockerError e), jm\<lparr>jm_world := w\<rparr>)
           | (Inr _, w) \<Rightarrow> (Inr (), jm\<lparr>jm_world := w, jm_docker := True\<rparr>))"

definition orchestrator_url :: "JobHost \<Rightarrow> ContainerJobConfig \<Rightarrow> string" where
  "orchestrator_url jh config =
     ''http://'' @ (if jh_linux jh then ''172.17.0.1'' else ''host.docker.internal'') @ '':'' @
     show_nat (unat (cj_orchestrator_port config))"

definition claude_env :: "ContainerJobConfig \<Rightarrow> JobMode \<Rightarrow> string list" where
  "claude_env config mode =
     (if mode = ClaudeCode
      then (case cj_claude_code_api_key config of
              Some api_key \<Rightarrow> [''ANTHROPIC_API_KEY='' @ api_key]
            | None \<Rightarrow> (case cj_claude_code_oauth_token config of
                         Some oauth_token \<Rightarrow> [''CLAUDE_CODE_OAUTH_TOKEN='' @ oauth_token]
                       | None \<Rightarrow> [])) @
           (if cj_claude_code_allowed_tools config \<noteq> []
            then [''CLAUDE_CODE_ALLOWED_TOOLS='' @ join '','' (cj_claude_code_allowed_tools config)] else [])
      else [])"

definition container_cmd :: "JobHost \<Rightarrow> ContainerJobConfig \<Rightarrow> uuid \<Rightarrow> JobMode \<Rightarrow> string list" where
  "container_cmd jh config job_id mode =
     (case mode of
        WorkerMode \<Rightarrow> [''worker'', ''--job-id'', jh_show_uuid jh job_id, ''--orchestrator-url'', orchestrator_url jh config]
      | ClaudeCode \<Rightarrow> [''claude-bridge'', ''--job-id'', jh_show_uuid jh job_id, ''--orchestrator-url'', orchestrator_url jh config,
          ''--max-turns'', show_nat (unat (cj_claude_code_max_turns config)), ''--model'', cj_claude_code_model config])"

definition container_spec ::
    "JobHost \<Rightarrow> ContainerJobConfig \<Rightarrow> datetime \<Rightarrow> uuid \<Rightarrow> string \<Rightarrow> path option \<Rightarrow> JobMode \<Rightarrow> OrchestratorError + ContainerSpec" where
  "container_spec jh config now job_id token project_dir mode =
     (case (case project_dir of
              None \<Rightarrow> Inr None
            | Some dir \<Rightarrow> (case validate_bind_mount_path jh dir job_id of Inl e \<Rightarrow> Inl e | Inr canonical \<Rightarrow> Inr (Some canonical))) of
        Inl e \<Rightarrow> Inl e
      | Inr bind \<Rightarrow>
          (let memory_mb = (case mode of ClaudeCode \<Rightarrow> cj_claude_code_memory_limit_mb config | WorkerMode \<Rightarrow> cj_memory_limit_mb config)
           in Inr \<lparr>cc_name = (case mode of WorkerMode \<Rightarrow> ''ironclaw-worker-'' | ClaudeCode \<Rightarrow> ''ironclaw-claude-'') @ jh_show_uuid jh job_id,
                   cc_image = cj_image config,
                   cc_cmd = container_cmd jh config job_id mode,
                   cc_env = [''IRONCLAW_WORKER_TOKEN='' @ token, ''IRONCLAW_JOB_ID='' @ jh_show_uuid jh job_id,
                             ''IRONCLAW_ORCHESTRATOR_URL='' @ orchestrator_url jh config] @
                            (case bind of Some _ \<Rightarrow> [''IRONCLAW_WORKSPACE=/workspace''] | None \<Rightarrow> []) @ claude_env config mode,
                   cc_user = ''1000:1000'',
                   cc_working_dir = ''/workspace'',
                   cc_labels = [(''ironclaw.job_id'', jh_show_uuid jh job_id), (''ironclaw.created_at'', jh_show_time jh now)],
                   cc_binds = (case bind of Some canonical \<Rightarrow> Some [jh_show_path jh canonical @ '':/workspace:rw''] | None \<Rightarrow> None),
                   cc_memory = sint (memory_mb * 1024 * 1024),
                   cc_cpu_shares = uint (cj_cpu_shares config),
                   cc_network_mode = ''bridge'',
                   cc_extra_hosts = [''host.docker.internal:host-gateway''],
                   cc_cap_drop = [''ALL''],
                   cc_cap_add = [''CHOWN''],
                   cc_security_opt = [''no-new-privileges:true''],
                   cc_tmpfs = [(''/tmp'', ''size=512M'')]\<rparr>))"

text \<open>From the connection to the start of the container; the result is its id.\<close>

definition launch ::
    "JobHost \<Rightarrow> 'w Docker \<Rightarrow> datetime \<Rightarrow> uuid \<Rightarrow> string \<Rightarrow> path option \<Rightarrow> JobMode \<Rightarrow> 'w JobManager \<Rightarrow>
       (OrchestratorError + string) \<times> 'w JobManager" where
  "launch jh dk now job_id token project_dir mode jm =
     (case get_docker dk jm of
        (Inl e, jm) \<Rightarrow> (Inl e, jm)
      | (Inr _, jm) \<Rightarrow>
          (case container_spec jh (jm_config jm) now job_id token project_dir mode of
             Inl e \<Rightarrow> (Inl e, jm)
           | Inr spec \<Rightarrow>
               (case dk_create dk spec (jm_world jm) of
                  (Inl e, w) \<Rightarrow> (Inl (ContainerCreationFailed job_id e), jm\<lparr>jm_world := w\<rparr>)
                | (Inr container_id, w) \<Rightarrow>
                    (case dk_start dk container_id w of
                       (Inl e, w) \<Rightarrow> (Inl (ContainerCreationFailed job_id (''failed to start container: '' @ e)), jm\<lparr>jm_world := w\<rparr>)
                     | (Inr _, w) \<Rightarrow> (Inr container_id, jm\<lparr>jm_world := w\<rparr>)))))"

definition mark_running :: "uuid \<Rightarrow> string \<Rightarrow> 'w JobManager \<Rightarrow> 'w JobManager" where
  "mark_running job_id container_id jm = on_handle job_id (\<lambda>h. h\<lparr>ch_container_id := container_id, ch_state := CsRunning\<rparr>) jm"

definition create_job_inner ::
    "JobHost \<Rightarrow> 'w Docker \<Rightarrow> datetime \<Rightarrow> uuid \<Rightarrow> string \<Rightarrow> path option \<Rightarrow> JobMode \<Rightarrow> 'w JobManager \<Rightarrow>
       (OrchestratorError + unit) \<times> 'w JobManager" where
  "create_job_inner jh dk now job_id token project_dir mode jm =
     (case launch jh dk now job_id token project_dir mode jm of
        (Inl e, jm) \<Rightarrow> (Inl e, jm)
      | (Inr container_id, jm) \<Rightarrow> (Inr (), mark_running job_id container_id jm))"

text \<open>The token, the grants and the handle are recorded first; a failure takes them back.\<close>

definition register_job ::
    "datetime \<Rightarrow> 8 word list \<Rightarrow> uuid \<Rightarrow> string \<Rightarrow> path option \<Rightarrow> JobMode \<Rightarrow> CredentialGrant list \<Rightarrow> 'w JobManager \<Rightarrow>
       string \<times> 'w JobManager" where
  "register_job now bytes job_id task project_dir mode credential_grants jm =
     (let (token, ts) = create_token bytes job_id (jm_token_store jm);
          ts = store_grants job_id credential_grants ts;
          handle = \<lparr>ch_job_id = job_id, ch_container_id = [], ch_state = CsCreating, ch_mode = mode, ch_created_at = now,
                    ch_project_dir = project_dir, ch_task_description = task, ch_last_worker_status = None,
                    ch_worker_iteration = 0, ch_completion_result = None\<rparr>
      in (token, jm\<lparr>jm_token_store := ts, jm_containers := AList.update job_id handle (jm_containers jm)\<rparr>))"

definition unregister_job :: "uuid \<Rightarrow> 'w JobManager \<Rightarrow> 'w JobManager" where
  "unregister_job job_id jm =
     jm\<lparr>jm_token_store := revoke_token job_id (jm_token_store jm), jm_containers := AList.delete job_id (jm_containers jm)\<rparr>"

definition container_create_job ::
    "JobHost \<Rightarrow> 'w Docker \<Rightarrow> datetime \<Rightarrow> 8 word list \<Rightarrow> uuid \<Rightarrow> string \<Rightarrow> path option \<Rightarrow> JobMode \<Rightarrow> CredentialGrant list \<Rightarrow>
     'w JobManager \<Rightarrow> (OrchestratorError + string) \<times> 'w JobManager" where
  "container_create_job jh dk now bytes job_id task project_dir mode credential_grants jm =
     (let (token, jm) = register_job now bytes job_id task project_dir mode credential_grants jm
      in case create_job_inner jh dk now job_id token project_dir mode jm of
           (Inr _, jm) \<Rightarrow> (Inr token, jm)
         | (Inl e, jm) \<Rightarrow> (Inl e, unregister_job job_id jm))"

subsection \<open>Stopping a container\<close>

text \<open>Errors of stopping and removing are logged only.\<close>

definition stop_and_remove :: "'w Docker \<Rightarrow> string \<Rightarrow> nat \<Rightarrow> 'w \<Rightarrow> 'w" where
  "stop_and_remove dk container_id grace w = snd (dk_remove dk container_id (snd (dk_stop dk container_id grace w)))"

definition stop_job :: "'w Docker \<Rightarrow> uuid \<Rightarrow> 'w JobManager \<Rightarrow> (OrchestratorError + unit) \<times> 'w JobManager" where
  "stop_job dk job_id jm =
     (case map_of (jm_containers jm) job_id of
        None \<Rightarrow> (Inl (ContainerNotFound job_id), jm)
      | Some h \<Rightarrow>
          if ch_container_id h = []
          then (Inl (InvalidContainerState job_id ''creating (no container ID yet)''), jm)
          else case get_docker dk jm of
                 (Inl e, jm) \<Rightarrow> (Inl e, jm)
               | (Inr _, jm) \<Rightarrow>
                   (let jm = jm\<lparr>jm_world := stop_and_remove dk (ch_container_id h) 10 (jm_world jm)\<rparr>;
                        jm = on_handle job_id (\<lambda>h. h\<lparr>ch_state := CsStopped\<rparr>) jm
                    in (Inr (), jm\<lparr>jm_token_store := revoke_token job_id (jm_token_store jm)\<rparr>)))"

definition complete_job :: "'w Docker \<Rightarrow> uuid \<Rightarrow> CompletionResult \<Rightarrow> 'w JobManager \<Rightarrow> (OrchestratorError + unit) \<times> 'w JobManager" where
  "complete_job dk job_id result jm =
     (let jm = on_handle job_id (\<lambda>h. h\<lparr>ch_completion_result := Some result, ch_state := CsStopped\<rparr>) jm;
          jm = (case map_of (jm_containers jm) job_id of
                  None \<Rightarrow> jm
                | Some h \<Rightarrow>
                    if ch_container_id h = [] then jm
                    else case get_docker dk jm of
                           (Inl _, jm) \<Rightarrow> jm
                         | (Inr _, jm) \<Rightarrow> jm\<lparr>jm_world := stop_and_remove dk (ch_container_id h) 5 (jm_world jm)\<rparr>)
      in (Inr (), jm\<lparr>jm_token_store := revoke_token job_id (jm_token_store jm)\<rparr>))"

definition cleanup_job :: "uuid \<Rightarrow> 'w JobManager \<Rightarrow> 'w JobManager" where
  "cleanup_job job_id jm = jm\<lparr>jm_containers := AList.delete job_id (jm_containers jm)\<rparr>"

definition update_worker_status :: "uuid \<Rightarrow> string option \<Rightarrow> u32 \<Rightarrow> 'w JobManager \<Rightarrow> 'w JobManager" where
  "update_worker_status job_id message iteration jm =
     on_handle job_id (\<lambda>h. h\<lparr>ch_last_worker_status := message, ch_worker_iteration := iteration\<rparr>) jm"

definition get_handle :: "uuid \<Rightarrow> 'w JobManager \<Rightarrow> ContainerHandle option" where
  "get_handle job_id jm = map_of (jm_containers jm) job_id"

definition list_jobs :: "'w JobManager \<Rightarrow> ContainerHandle list" where
  "list_jobs jm = map snd (jm_containers jm)"

subsection \<open>The reaper\<close>

text \<open>The container was found by its label; \<open>reap_container\<close> first tries the manager, then Docker.\<close>

definition reap_container :: "'w Docker \<Rightarrow> string \<Rightarrow> uuid \<Rightarrow> 'w JobManager \<Rightarrow> 'w JobManager" where
  "reap_container dk container_id job_id jm =
     (case stop_job dk job_id jm of
        (Inr _, jm) \<Rightarrow> jm
      | (Inl _, jm) \<Rightarrow> jm\<lparr>jm_world := stop_and_remove dk container_id 10 (jm_world jm)\<rparr>)"

definition reap_due :: "'d ContextManager \<Rightarrow> datetime \<Rightarrow> datetime \<Rightarrow> uuid \<Rightarrow> datetime \<Rightarrow> bool" where
  "reap_due contexts now threshold job_id created_at =
     (\<not> now - created_at < threshold \<and>
      \<not> (case get_context job_id contexts of Inr ctx \<Rightarrow> is_active (jc_state ctx) | Inl _ \<Rightarrow> False))"

text \<open>The scan over the containers Docker lists; \<open>listed\<close> is \<open>Inl\<close> if the list could not be had.\<close>

definition scan_and_reap ::
    "'w Docker \<Rightarrow> 'd ContextManager \<Rightarrow> datetime \<Rightarrow> datetime \<Rightarrow> string + (string \<times> uuid \<times> datetime) list \<Rightarrow> 'w JobManager \<Rightarrow> 'w JobManager" where
  "scan_and_reap dk contexts now threshold listed jm =
     (case listed of
        Inl _ \<Rightarrow> jm
      | Inr containers \<Rightarrow>
          fold (\<lambda>(container_id, job_id, created_at) jm.
            if reap_due contexts now threshold job_id created_at then reap_container dk container_id job_id jm else jm) containers jm)"


subsection \<open>Steps\<close>

lemma on_handle_frame [frame_simps]:
  "jm_token_store (on_handle j f jm) = jm_token_store jm" "jm_docker (on_handle j f jm) = jm_docker jm"
  "jm_world (on_handle j f jm) = jm_world jm" "jm_config (on_handle j f jm) = jm_config jm"
  by (simp_all add: on_handle_def split: option.split)

lemma handle_on_handle [simp]:
  "map_of (jm_containers (on_handle j f jm)) k = (if k = j then map_option f (map_of (jm_containers jm) j) else map_of (jm_containers jm) k)"
  by (simp add: on_handle_def update_conv' split: option.split)

lemma get_docker_frame:
  assumes "get_docker dk jm = (r, jm')"
  shows "jm_containers jm' = jm_containers jm" "jm_token_store jm' = jm_token_store jm" "jm_config jm' = jm_config jm"
  using assms by (auto simp: get_docker_def split: if_splits prod.splits sum.splits)

text \<open>The handle, the token and the grants of a job: all that the manager knows of it.\<close>

definition job_view :: "uuid \<Rightarrow> 'w JobManager \<Rightarrow> ContainerHandle option \<times> string option \<times> CredentialGrant list option" where
  "job_view j jm = (get_handle j jm, map_of (ts_tokens (jm_token_store jm)) j, get_grants j (jm_token_store jm))"

lemma register_view:
  "job_view k (snd (register_job now bytes j task dir mode gs jm)) =
     (if k = j then (Some \<lparr>ch_job_id = j, ch_container_id = [], ch_state = CsCreating, ch_mode = mode, ch_created_at = now,
          ch_project_dir = dir, ch_task_description = task, ch_last_worker_status = None, ch_worker_iteration = 0,
          ch_completion_result = None\<rparr>, Some (generate_token bytes),
          if gs = [] then get_grants j (jm_token_store jm) else Some gs)
      else job_view k jm)"
  by (simp add: job_view_def register_job_def create_token_def store_grants_def get_handle_def get_grants_def Let_def update_conv')

lemma unregister_view: "job_view k (unregister_job j jm) = (if k = j then (None, None, None) else job_view k jm)"
  by (simp add: job_view_def unregister_job_def revoke_token_def get_handle_def get_grants_def delete_conv')

lemma mark_running_view:
  "job_view k (mark_running j cid jm) =
     (if k = j then apfst (map_option (\<lambda>h. h\<lparr>ch_container_id := cid, ch_state := CsRunning\<rparr>)) (job_view j jm) else job_view k jm)"
  by (simp add: job_view_def mark_running_def get_handle_def frame_simps)

lemma launch_view:
  assumes "launch jh dk now j token dir mode jm = (r, jm')"
  shows "job_view k jm' = job_view k jm"
proof -
  obtain d jm1 where d: "get_docker dk jm = (d, jm1)" by (cases "get_docker dk jm")
  have "jm_containers jm' = jm_containers jm1 \<and> jm_token_store jm' = jm_token_store jm1" using assms d
    by (auto simp: launch_def split: sum.splits prod.splits)
  then show ?thesis using get_docker_frame [OF d] by (simp add: job_view_def get_handle_def)
qed

lemma stop_view:
  "job_view k (snd (stop_job dk j jm)) =
     (if k = j \<and> fst (stop_job dk j jm) = Inr ()
      then (map_option (\<lambda>h. h\<lparr>ch_state := CsStopped\<rparr>) (get_handle j jm), None, None) else job_view k jm)"
proof -
  obtain d jm1 where d: "get_docker dk jm = (d, jm1)" by (cases "get_docker dk jm")
  note frame = get_docker_frame [OF d]
  show ?thesis
    by (auto simp: stop_job_def d job_view_def get_handle_def get_grants_def revoke_token_def Let_def frame frame_simps delete_conv'
        split: option.split sum.split)
qed

lemma complete_view:
  "job_view k (snd (complete_job dk j res jm)) =
     (if k = j then (map_option (\<lambda>h. h\<lparr>ch_completion_result := Some res, ch_state := CsStopped\<rparr>) (get_handle j jm), None, None)
      else job_view k jm)"
proof -
  let ?jm = "on_handle j (\<lambda>h. h\<lparr>ch_completion_result := Some res, ch_state := CsStopped\<rparr>) jm"
  obtain d jm1 where d: "get_docker dk ?jm = (d, jm1)" by (cases "get_docker dk ?jm")
  note frame = get_docker_frame [OF d]
  show ?thesis
    by (auto simp: complete_job_def d job_view_def get_handle_def get_grants_def revoke_token_def Let_def frame frame_simps delete_conv'
        split: option.split sum.split)
qed

lemma cleanup_view: "job_view k (cleanup_job j jm) = (if k = j then (None, snd (job_view j jm)) else job_view k jm)"
  by (simp add: job_view_def cleanup_job_def get_handle_def delete_conv')

lemma status_view:
  "job_view k (update_worker_status j m i jm) =
     (if k = j then apfst (map_option (\<lambda>h. h\<lparr>ch_last_worker_status := m, ch_worker_iteration := i\<rparr>)) (job_view j jm) else job_view k jm)"
  by (simp add: job_view_def update_worker_status_def get_handle_def frame_simps)

lemma reap_view:
  "job_view k (reap_container dk cid j jm) = job_view k (snd (stop_job dk j jm))"
  by (simp add: reap_container_def job_view_def get_handle_def split: prod.split sum.split)


text \<open>
  The steps of all tasks that share the manager. A creation registers the job, launches the container and then marks
  it as running or takes the registration back; between any two of these anything else may happen.
\<close>

inductive jm_step :: "JobHost \<Rightarrow> 'w Docker \<Rightarrow> 'w JobManager \<Rightarrow> 'w JobManager \<Rightarrow> bool" for jh dk where
  register: "jm_step jh dk jm (snd (register_job now bytes j task dir mode gs jm))"
| launch: "jm_step jh dk jm (snd (launch jh dk now j token dir mode jm))"
| running: "jm_step jh dk jm (mark_running j cid jm)"
| unregister: "jm_step jh dk jm (unregister_job j jm)"
| stop: "jm_step jh dk jm (snd (stop_job dk j jm))"
| complete: "jm_step jh dk jm (snd (complete_job dk j res jm))"
| cleanup: "jm_step jh dk jm (cleanup_job j jm)"
| status: "jm_step jh dk jm (update_worker_status j m i jm)"
| reap: "jm_step jh dk jm (reap_container dk cid j jm)"

text \<open>A stopped container has no token and no grants left.\<close>

fun view_ok :: "ContainerHandle option \<times> string option \<times> CredentialGrant list option \<Rightarrow> bool" where
  "view_ok (Some h, tok, gs) = (ch_state h = CsStopped \<longrightarrow> tok = None \<and> gs = None)"
| "view_ok (None, tok, gs) = True"

definition stopped_inv :: "'w JobManager \<Rightarrow> bool" where
  "stopped_inv jm = (\<forall>j. view_ok (job_view j jm))"

lemma view_ok_update:
  "(\<And>h. ch_state (f h) = ch_state h) \<Longrightarrow> view_ok (apfst (map_option f) v) = view_ok v"
  "(\<And>h. ch_state (f h) \<noteq> CsStopped) \<Longrightarrow> view_ok (apfst (map_option f) v)"
  by (cases v rule: view_ok.cases; simp)+

lemma view_ok_dead: "view_ok (h, None, None)" "view_ok (None, v)"
  by (cases h; simp) (cases v; simp)

lemma stopped_inv_step: "jm_step jh dk jm jm' \<Longrightarrow> stopped_inv jm \<Longrightarrow> stopped_inv jm'"
proof (induction rule: jm_step.induct)
  case (launch jm now j token dir mode)
  then show ?case using launch_view [of jh dk now j token dir mode jm] unfolding stopped_inv_def by (metis prod.collapse)
qed (auto simp: stopped_inv_def register_view unregister_view cleanup_view stop_view complete_view status_view reap_view
    mark_running_view view_ok_update view_ok_dead)

lemma stopped_inv_steps: "(jm_step jh dk)\<^sup>*\<^sup>* jm jm' \<Longrightarrow> stopped_inv jm \<Longrightarrow> stopped_inv jm'"
  by (induction rule: rtranclp_induct) (auto intro: stopped_inv_step)

lemma stopped_inv_new: "stopped_inv (job_manager_new config token_store_new w)"
  by (simp add: stopped_inv_def job_view_def job_manager_new_def get_handle_def)


definition demo_docker :: "nat Docker" where
  "demo_docker = \<lparr>dk_connect = (\<lambda>w. (Inr (), w)), dk_create = (\<lambda>_ w. (Inr ''c0ffee'', w + 1)), dk_start = (\<lambda>_ w. (Inr (), w)),
     dk_stop = (\<lambda>_ _ w. (Inr (), w)), dk_remove = (\<lambda>_ w. (Inr (), w - 1))\<rparr>"

definition demo_host :: JobHost where
  "demo_host = \<lparr>jh_canonicalize = Inr, jh_create_dir_all = (\<lambda>_. None), jh_base_dir = [RootDir, Normal ''home''],
     jh_show_path = (\<lambda>_. ''p''), jh_show_uuid = show_nat, jh_show_time = (\<lambda>_. []), jh_linux = True\<rparr>"

definition demo_job_config :: ContainerJobConfig where
  "demo_job_config = \<lparr>cj_image = ''ironclaw-worker:latest'', cj_memory_limit_mb = 2048, cj_cpu_shares = 1024,
     cj_orchestrator_port = 50051, cj_claude_code_api_key = None, cj_claude_code_oauth_token = None,
     cj_claude_code_model = ''sonnet'', cj_claude_code_max_turns = 50, cj_claude_code_memory_limit_mb = 4096,
     cj_claude_code_allowed_tools = []\<rparr>"

abbreviation demo_registered :: "nat JobManager" where
  "demo_registered \<equiv> snd (register_job 0 [1] 7 ''task'' None WorkerMode [] (job_manager_new demo_job_config token_store_new 0))"



subsection \<open>Creation\<close>

lemma view_of_new_job: "fst (register_job now bytes j task dir mode gs jm) = generate_token bytes"
  by (simp add: register_job_def create_token_def Let_def)



lemma validate_bind_ok:
  assumes "validate_bind_mount_path jh dir j = Inr canonical"
  shows "\<exists>base. jh_canonicalize jh (path_join (jh_base_dir jh) (components ''projects'')) = Inr base \<and>
    jh_canonicalize jh dir = Inr canonical \<and> prefix base canonical"
  using assms by (auto simp: validate_bind_mount_path_def Let_def split: sum.splits option.splits if_splits)

text \<open>
  Property C32. Every container that is asked of Docker is confined: no capability but CHOWN, no new privileges, an
  unprivileged user, a memory limit from the configuration, and at most one mount, the canonical project directory,
  which lies under the canonical projects directory whatever symbolic links the given path goes through.
\<close>

theorem container_confined:
  assumes "container_spec jh config now j token dir mode = Inr spec"
  shows "cc_cap_drop spec = [''ALL''] \<and> cc_cap_add spec = [''CHOWN''] \<and> cc_security_opt spec = [''no-new-privileges:true''] \<and>
    cc_user spec = ''1000:1000'' \<and> cc_network_mode spec = ''bridge'' \<and>
    (case dir of
       None \<Rightarrow> cc_binds spec = None
     | Some d \<Rightarrow> \<exists>base canonical. jh_canonicalize jh (path_join (jh_base_dir jh) (components ''projects'')) = Inr base \<and>
         jh_canonicalize jh d = Inr canonical \<and> prefix base canonical \<and>
         cc_binds spec = Some [jh_show_path jh canonical @ '':/workspace:rw''])"
proof (cases dir)
  case None
  then show ?thesis using assms by (auto simp: container_spec_def Let_def)
next
  case (Some d)
  obtain canonical where v: "validate_bind_mount_path jh d j = Inr canonical"
    using assms Some by (auto simp: container_spec_def split: sum.splits)
  then show ?thesis using assms Some validate_bind_ok [OF v] by (auto simp: container_spec_def Let_def)
qed

theorem container_confined_witness:
  "\<exists>spec. container_spec demo_host demo_job_config 0 7 ''t'' (Some [RootDir, Normal ''home'', Normal ''projects'', Normal ''x'']) WorkerMode = Inr spec \<and>
     cc_binds spec = Some [''p:/workspace:rw'']"
proof -
  have c: "components ''projects'' = [Normal ''projects'']" by code_simp
  obtain spec where spec: "container_spec demo_host demo_job_config 0 7 ''t''
      (Some [RootDir, Normal ''home'', Normal ''projects'', Normal ''x'']) WorkerMode = Inr spec"
    by (auto simp: container_spec_def validate_bind_mount_path_def demo_host_def c path_join_def is_absolute_def Let_def)
  from container_confined [OF this] spec show ?thesis by (auto simp: demo_host_def)
qed

subsection \<open>Ends that go wrong\<close>

text \<open>
  A worker that reports its completion before the launch of its container has returned: its container, not known by id
  yet, is not stopped, and the launch then marks the job as running again, with its token revoked.
\<close>

lemma early_completion_lost:
  assumes "get_handle j jm = Some h" and "ch_container_id h = []"
  shows "jm_world (snd (complete_job dk j res jm)) = jm_world jm \<and>
    job_view j (mark_running j cid (snd (complete_job dk j res jm))) =
      (Some (h\<lparr>ch_completion_result := Some res, ch_state := CsRunning, ch_container_id := cid\<rparr>), None, None)"
proof
  show "jm_world (snd (complete_job dk j res jm)) = jm_world jm"
    using assms by (simp add: complete_job_def get_handle_def Let_def frame_simps)
  show "job_view j (mark_running j cid (snd (complete_job dk j res jm))) =
      (Some (h\<lparr>ch_completion_result := Some res, ch_state := CsRunning, ch_container_id := cid\<rparr>), None, None)"
    using assms(1) by (simp add: mark_running_view complete_view)
qed

text \<open>
  What \<open>CreateJobTool\<close> does when a job times out, with Docker out of reach: the stop fails, its error is dropped
  and the handle is removed. The token and the credentials stay valid for ever, and a second stop cannot find the job.
\<close>

lemma timeout_keeps_token:
  assumes "fst (stop_job dk j jm) = Inl e"
  shows "job_view j (cleanup_job j (snd (stop_job dk j jm))) = (None, snd (job_view j jm)) \<and>
    fst (stop_job dk j (cleanup_job j (snd (stop_job dk j jm)))) = Inl (ContainerNotFound j)"
proof -
  have "job_view j (snd (stop_job dk j jm)) = job_view j jm" using assms by (simp add: stop_view)
  then have "job_view j (cleanup_job j (snd (stop_job dk j jm))) = (None, snd (job_view j jm))" by (simp add: cleanup_view)
  moreover have "fst (stop_job dk j (cleanup_job j g)) = Inl (ContainerNotFound j)" for g :: "'a JobManager"
    by (simp add: stop_job_def cleanup_job_def delete_conv')
  ultimately show ?thesis by blast
qed


subsection \<open>The reaper\<close>

lemma scan_view:
  assumes "\<And>cid created. (cid, k, created) \<in> set containers \<Longrightarrow> \<not> reap_due contexts now threshold k created"
  shows "job_view k (scan_and_reap dk contexts now threshold (Inr containers) jm) = job_view k jm"
proof -
  have "job_view k (fold (\<lambda>(cid, j, created) jm. if reap_due contexts now threshold j created then reap_container dk cid j jm else jm) cs jm) =
      job_view k jm" if "set cs \<subseteq> set containers" for cs jm
    using that assms
    by (induction cs arbitrary: jm) (auto simp: reap_view stop_view split: prod.split)
  then show ?thesis by (simp add: scan_and_reap_def)
qed

text \<open>
  Also: The reaper spares the young and the active: a scan leaves a job as it was if each of its containers is younger
  than the threshold or the job is known to the registry of jobs in a state that is not terminal, and if Docker does not list
  its containers nothing is reaped at all.
\<close>

theorem reaper_spares:
  assumes "\<And>cid created. (cid, k, created) \<in> set containers \<Longrightarrow>
      now - created < threshold \<or> (\<exists>ctx. get_context k contexts = Inr ctx \<and> is_active (jc_state ctx))"
  shows "job_view k (scan_and_reap dk contexts now threshold (Inr containers) jm) = job_view k jm \<and>
    scan_and_reap dk contexts now threshold (Inl e) jm = jm"
proof -
  have "\<not> reap_due contexts now threshold k created" if "(cid, k, created) \<in> set containers" for cid created
    using assms [OF that] by (auto simp: reap_due_def)
  then show ?thesis using scan_view [of k containers contexts now threshold dk jm] by (simp add: scan_and_reap_def)
qed

theorem reaper_spares_witness:
  "job_view 7 (scan_and_reap demo_docker (manager_new 3 :: int ContextManager) 1000 600 (Inr [(''c0ffee'', 7, 500), (''beef'', 8, 0)]) demo_registered) =
   job_view 7 demo_registered"
  using reaper_spares [of 7 "[(''c0ffee'', 7, 500), (''beef'', 8, 0)]" 1000 600 "manager_new 3 :: int ContextManager" demo_docker demo_registered]
  by simp

text \<open>
  The jobs of containers are kept in the manager and not in the registry of jobs. A container that is still running is
  therefore reaped once it is as old as the threshold: it is stopped and its token revoked.
\<close>

lemma reaper_takes_running:
  assumes "get_context j contexts = Inl e" and "threshold \<le> now - created" and "get_handle j jm = Some h"
    and "ch_state h = CsRunning" and "ch_container_id h \<noteq> []" and "jm_docker jm"
  shows "job_view j (scan_and_reap dk contexts now threshold (Inr [(ch_container_id h, j, created)]) jm) =
    (Some (h\<lparr>ch_state := CsStopped\<rparr>), None, None)"
proof -
  have "fst (stop_job dk j jm) = Inr ()" using assms(3,5,6) by (simp add: stop_job_def get_handle_def get_docker_def Let_def)
  then show ?thesis using assms(1-3) by (simp add: scan_and_reap_def reap_due_def reap_view stop_view)
qed

end
