(* ===== verification/Orchestrator_Api.thy ===== *)
theory Orchestrator_Api
  imports Job_Manager Reasoning
begin

text \<open>
  The internal API of the orchestrator (\<^verbatim>\<open>src/orchestrator/api.rs\<close>) and the client a container uses
  (\<^verbatim>\<open>src/worker/api.rs\<close>, \<^verbatim>\<open>src/worker/proxy_llm.rs\<close>). A request names a job in its path, passes the
  middleware of \<open>Worker_Auth\<close> and reaches the handler of its route. The lemmas say that without the token of a job
  nothing happens, that a job reaches nothing of another job, which secrets are read, that prompts are
  delivered once and in order, and that a model behind the API answers a container as it would answer the host.

  The model, the secrets store and Docker work on the world of the job manager. Values travel as they are: JSON
  encoding and HTTP are taken to be faithful, a connection that fails is an argument. What the handlers spawn to the database
  is the list of events handed to it.
\<close>

subsection \<open>State and messages\<close>

record PendingPrompt =
  pp_content :: string
  pp_done :: bool

datatype SseEvent =
    JobMessage string string string
  | JobToolUse string string json
  | JobToolResult string string string
  | JobStatus string string
  | JobResult string string "string option"

record 'w SecretsOps =
  ss_get_decrypted :: "string \<Rightarrow> string \<Rightarrow> 'w \<Rightarrow> (string + string) \<times> 'w"
  ss_get :: "string \<Rightarrow> string \<Rightarrow> 'w \<Rightarrow> (string + uuid) \<times> 'w"
  ss_record_usage :: "uuid \<Rightarrow> 'w \<Rightarrow> (string + unit) \<times> 'w"

record 'w OrchestratorEnv =
  oe_llm_complete :: "CompletionRequest \<Rightarrow> ('w, CompletionResponse) operation"
  oe_llm_complete_with_tools :: "ToolCompletionRequest \<Rightarrow> ('w, ToolCompletionResponse) operation"
  oe_docker :: "'w Docker"
  oe_secrets :: "'w SecretsOps option"
  oe_user_id :: string
  oe_has_event_tx :: bool
  oe_has_store :: bool
  oe_show_uuid :: "uuid \<Rightarrow> string"
  oe_show_path :: "path \<Rightarrow> string"
  oe_parse_uuid :: "string \<Rightarrow> uuid option"

record 'w OrchestratorState =
  os_job_manager :: "'w JobManager"
  os_prompt_queue :: "(uuid \<times> PendingPrompt list) list"
  os_sent :: "(uuid \<times> SseEvent) list"
  os_saved :: "(uuid \<times> string \<times> json) list"

record JobDescription =
  jd_title :: string
  jd_description :: string
  jd_project_dir :: "string option"

record ProxyCompletionRequest =
  px_messages :: "ChatMessage list"
  px_model :: "string option"
  px_max_tokens :: "u32 option"
  px_temperature :: "u32 option"
  px_stop_sequences :: "string list option"

record ProxyCompletionResponse =
  py_content :: string
  py_input_tokens :: u32
  py_output_tokens :: u32
  py_finish_reason :: string
  py_cache_read_input_tokens :: u32
  py_cache_creation_input_tokens :: u32

record ProxyToolCompletionRequest =
  pt_messages :: "ChatMessage list"
  pt_tools :: "ToolDefinition list"
  pt_model :: "string option"
  pt_max_tokens :: "u32 option"
  pt_temperature :: "u32 option"
  pt_tool_choice :: "string option"

record ProxyToolCompletionResponse =
  pu_content :: "string option"
  pu_tool_calls :: "ToolCall list"
  pu_input_tokens :: u32
  pu_output_tokens :: u32
  pu_finish_reason :: string
  pu_cache_read_input_tokens :: u32
  pu_cache_creation_input_tokens :: u32

record StatusUpdate =
  su_state :: string
  su_message :: "string option"
  su_iteration :: u32

record CompletionReport =
  co_success :: bool
  co_message :: "string option"
  co_iterations :: u32

record JobEventPayload =
  ep_event_type :: string
  ep_data :: json

record CredentialResponse =
  cs_env_var :: string
  cs_value :: string

text \<open>The routes, with the body of the request, and what they answer.\<close>

datatype worker_request =
    GetJob
  | LlmComplete ProxyCompletionRequest
  | LlmCompleteWithTools ProxyToolCompletionRequest
  | ReportStatus StatusUpdate
  | ReportComplete CompletionReport
  | JobEvent JobEventPayload
  | GetPrompt
  | GetCredentials

datatype worker_response =
    RJob JobDescription
  | RCompletion ProxyCompletionResponse
  | RToolCompletion ProxyToolCompletionResponse
  | RStatus StatusCode
  | RJson StatusCode json
  | RCredentials "CredentialResponse list"

definition with_jm :: "('w JobManager \<Rightarrow> 'w JobManager) \<Rightarrow> 'w OrchestratorState \<Rightarrow> 'w OrchestratorState" where
  "with_jm f st = st\<lparr>os_job_manager := f (os_job_manager st)\<rparr>"

definition with_world :: "'w \<Rightarrow> 'w OrchestratorState \<Rightarrow> 'w OrchestratorState" where
  "with_world w st = with_jm (\<lambda>jm. jm\<lparr>jm_world := w\<rparr>) st"

abbreviation os_world :: "'w OrchestratorState \<Rightarrow> 'w" where
  "os_world st \<equiv> jm_world (os_job_manager st)"

subsection \<open>Handlers\<close>

definition get_job_handler :: "'w OrchestratorEnv \<Rightarrow> uuid \<Rightarrow> 'w OrchestratorState \<Rightarrow> StatusCode + JobDescription" where
  "get_job_handler env job_id st =
     (case get_handle job_id (os_job_manager st) of
        None \<Rightarrow> Inl NOT_FOUND
      | Some handle \<Rightarrow>
          Inr \<lparr>jd_title = ''Job '' @ oe_show_uuid env job_id, jd_description = ch_task_description handle,
               jd_project_dir = map_option (oe_show_path env) (ch_project_dir handle)\<rparr>)"

fun format_finish_reason :: "FinishReason \<Rightarrow> string" where
  "format_finish_reason Stop = ''stop''"
| "format_finish_reason Length = ''length''"
| "format_finish_reason ToolUse = ''tool_use''"
| "format_finish_reason ContentFilter = ''content_filter''"
| "format_finish_reason UnknownReason = ''unknown''"

definition llm_complete_handler ::
    "'w OrchestratorEnv \<Rightarrow> ProxyCompletionRequest \<Rightarrow> 'w OrchestratorState \<Rightarrow> (StatusCode + ProxyCompletionResponse) \<times> 'w OrchestratorState" where
  "llm_complete_handler env req st =
     (case oe_llm_complete env
             \<lparr>cr_messages = px_messages req, cr_model = px_model req, cr_max_tokens = px_max_tokens req,
              cr_temperature = px_temperature req, cr_stop_sequences = px_stop_sequences req, cr_metadata = []\<rparr> (os_world st) of
        (Inl e, w) \<Rightarrow> (Inl BAD_GATEWAY, with_world w st)
      | (Inr resp, w) \<Rightarrow>
          (Inr \<lparr>py_content = rs_content resp, py_input_tokens = rs_input_tokens resp, py_output_tokens = rs_output_tokens resp,
                py_finish_reason = format_finish_reason (rs_finish_reason resp),
                py_cache_read_input_tokens = rs_cache_read_input_tokens resp,
                py_cache_creation_input_tokens = rs_cache_creation_input_tokens resp\<rparr>, with_world w st))"

definition llm_complete_with_tools_handler ::
    "'w OrchestratorEnv \<Rightarrow> ProxyToolCompletionRequest \<Rightarrow> 'w OrchestratorState \<Rightarrow>
       (StatusCode + ProxyToolCompletionResponse) \<times> 'w OrchestratorState" where
  "llm_complete_with_tools_handler env req st =
     (case oe_llm_complete_with_tools env
             \<lparr>tr_messages = pt_messages req, tr_tools = pt_tools req, tr_model = pt_model req, tr_max_tokens = pt_max_tokens req,
              tr_temperature = pt_temperature req, tr_tool_choice = pt_tool_choice req, tr_metadata = []\<rparr> (os_world st) of
        (Inl e, w) \<Rightarrow> (Inl BAD_GATEWAY, with_world w st)
      | (Inr resp, w) \<Rightarrow>
          (Inr \<lparr>pu_content = tp_content resp, pu_tool_calls = tp_tool_calls resp, pu_input_tokens = tp_input_tokens resp,
                pu_output_tokens = tp_output_tokens resp,
                pu_finish_reason = format_finish_reason (tp_finish_reason resp),
                pu_cache_read_input_tokens = tp_cache_read_input_tokens resp,
                pu_cache_creation_input_tokens = tp_cache_creation_input_tokens resp\<rparr>, with_world w st))"

definition data_str :: "string \<Rightarrow> string \<Rightarrow> json \<Rightarrow> string" where
  "data_str key fallback data = (case Option.bind (json_get key data) as_str of Some s \<Rightarrow> s | None \<Rightarrow> fallback)"

definition sse_event :: "string \<Rightarrow> JobEventPayload \<Rightarrow> SseEvent" where
  "sse_event job_id payload =
     (let data = ep_data payload; t = ep_event_type payload
      in if t = ''message'' then JobMessage job_id (data_str ''role'' ''assistant'' data) (data_str ''content'' [] data)
         else if t = ''tool_use''
         then JobToolUse job_id (data_str ''tool_name'' ''unknown'' data)
                (case json_get ''input'' data of Some v \<Rightarrow> v | None \<Rightarrow> JNull)
         else if t = ''tool_result'' then JobToolResult job_id (data_str ''tool_name'' ''unknown'' data) (data_str ''output'' [] data)
         else if t = ''result''
         then JobResult job_id (data_str ''status'' ''unknown'' data) (Option.bind (json_get ''session_id'' data) as_str)
         else JobStatus job_id (data_str ''message'' [] data))"

definition job_event_handler :: "'w OrchestratorEnv \<Rightarrow> uuid \<Rightarrow> JobEventPayload \<Rightarrow> 'w OrchestratorState \<Rightarrow> 'w OrchestratorState" where
  "job_event_handler env job_id payload st =
     (let st = (if oe_has_store env
                then st\<lparr>os_saved := os_saved st @ [(job_id, ep_event_type payload, ep_data payload)]\<rparr> else st)
      in if oe_has_event_tx env
         then st\<lparr>os_sent := os_sent st @ [(job_id, sse_event (oe_show_uuid env job_id) payload)]\<rparr> else st)"

definition get_prompt_handler :: "uuid \<Rightarrow> 'w OrchestratorState \<Rightarrow> (StatusCode \<times> json) \<times> 'w OrchestratorState" where
  "get_prompt_handler job_id st =
     (case map_of (os_prompt_queue st) job_id of
        Some (prompt # prompts) \<Rightarrow>
          ((OK, JObject [(''content'', JString (pp_content prompt)), (''done'', JBool (pp_done prompt))]),
           st\<lparr>os_prompt_queue := AList.update job_id prompts (os_prompt_queue st)\<rparr>)
      | _ \<Rightarrow> ((NO_CONTENT, JNull), st))"

text \<open>The loop over the grants: decrypt, record the use, collect.\<close>

fun serve_grants ::
    "'w SecretsOps \<Rightarrow> string \<Rightarrow> CredentialGrant list \<Rightarrow> CredentialResponse list \<Rightarrow> 'w \<Rightarrow> (StatusCode + CredentialResponse list) \<times> 'w" where
  "serve_grants ss user [] credentials w = (Inr credentials, w)"
| "serve_grants ss user (grant # grants) credentials w =
     (case ss_get_decrypted ss user (cg_secret_name grant) w of
        (Inl e, w) \<Rightarrow> (Inl INTERNAL_SERVER_ERROR, w)
      | (Inr decrypted, w) \<Rightarrow>
          (let w = (case ss_get ss user (cg_secret_name grant) w of
                      (Inr secret_id, w) \<Rightarrow> snd (ss_record_usage ss secret_id w)
                    | (Inl _, w) \<Rightarrow> w)
           in serve_grants ss user grants (credentials @ [\<lparr>cs_env_var = cg_env_var grant, cs_value = decrypted\<rparr>]) w))"

definition get_credentials_handler ::
    "'w OrchestratorEnv \<Rightarrow> uuid \<Rightarrow> 'w OrchestratorState \<Rightarrow> (StatusCode + worker_response) \<times> 'w OrchestratorState" where
  "get_credentials_handler env job_id st =
     (case get_grants job_id (jm_token_store (os_job_manager st)) of
        Some (g # gs) \<Rightarrow>
          (case oe_secrets env of
             None \<Rightarrow> (Inl SERVICE_UNAVAILABLE, st)
           | Some ss \<Rightarrow>
               (case serve_grants ss (oe_user_id env) (g # gs) [] (os_world st) of
                  (Inl c, w) \<Rightarrow> (Inl c, with_world w st)
                | (Inr credentials, w) \<Rightarrow> (Inr (RCredentials credentials), with_world w st)))
      | _ \<Rightarrow> (Inr (RJson NO_CONTENT JNull), st))"

definition report_complete_handler :: "'w OrchestratorEnv \<Rightarrow> uuid \<Rightarrow> CompletionReport \<Rightarrow> 'w OrchestratorState \<Rightarrow> 'w OrchestratorState" where
  "report_complete_handler env job_id report st =
     with_jm (\<lambda>jm. snd (complete_job (oe_docker env) job_id \<lparr>cr_success = co_success report, cr_message = co_message report\<rparr> jm)) st"

fun worker_route ::
    "'w OrchestratorEnv \<Rightarrow> uuid \<Rightarrow> worker_request \<Rightarrow> 'w OrchestratorState \<Rightarrow> (StatusCode + worker_response) \<times> 'w OrchestratorState" where
  "worker_route env job_id GetJob st = (map_sum id RJob (get_job_handler env job_id st), st)"
| "worker_route env job_id (LlmComplete req) st = apfst (map_sum id RCompletion) (llm_complete_handler env req st)"
| "worker_route env job_id (LlmCompleteWithTools req) st = apfst (map_sum id RToolCompletion) (llm_complete_with_tools_handler env req st)"
| "worker_route env job_id (ReportStatus update) st =
     (Inr (RStatus OK), with_jm (update_worker_status job_id (su_message update) (su_iteration update)) st)"
| "worker_route env job_id (ReportComplete report) st =
     (Inr (RJson OK (JObject [(''status'', JString ''ok'')])), report_complete_handler env job_id report st)"
| "worker_route env job_id (JobEvent payload) st = (Inr (RStatus OK), job_event_handler env job_id payload st)"
| "worker_route env job_id GetPrompt st = (case get_prompt_handler job_id st of ((c, j), st) \<Rightarrow> (Inr (RJson c j), st))"
| "worker_route env job_id GetCredentials st = get_credentials_handler env job_id st"

text \<open>A request: the middleware, then the route, for the job its path names.\<close>

definition serve_worker ::
    "'w OrchestratorEnv \<Rightarrow> string \<Rightarrow> string option \<Rightarrow> worker_request \<Rightarrow> 'w OrchestratorState \<Rightarrow>
       (StatusCode + worker_response) \<times> 'w OrchestratorState" where
  "serve_worker env path authorization req st =
     (case worker_auth_middleware (oe_parse_uuid env) (jm_token_store (os_job_manager st)) path authorization () of
        Inl c \<Rightarrow> (Inl c, st)
      | Inr _ \<Rightarrow> (case extract_job_id_from_path (oe_parse_uuid env) path of
                   Some job_id \<Rightarrow> worker_route env job_id req st
                 | None \<Rightarrow> (Inl BAD_REQUEST, st)))"


subsection \<open>Who may do what\<close>

text \<open>What the orchestrator holds for a job, apart from the world.\<close>

definition job_state :: "uuid \<Rightarrow> 'w OrchestratorState \<Rightarrow>
    (ContainerHandle option \<times> string option \<times> CredentialGrant list option) \<times> PendingPrompt list option \<times> SseEvent list \<times> (string \<times> json) list" where
  "job_state k st = (job_view k (os_job_manager st), map_of (os_prompt_queue st) k,
     map snd (filter (\<lambda>e. fst e = k) (os_sent st)), map snd (filter (\<lambda>e. fst e = k) (os_saved st)))"

lemma job_view_world [simp]: "job_view k (jm\<lparr>jm_world := w\<rparr>) = job_view k jm"
  by (simp add: job_view_def get_handle_def)

lemma job_state_world [simp]: "job_state k (with_world w st) = job_state k st"
  by (simp add: job_state_def with_world_def with_jm_def)

lemma route_other_job:
  assumes "k \<noteq> job_id"
  shows "job_state k (snd (worker_route env job_id req st)) = job_state k st"
proof (cases req)
  case (JobEvent payload)
  then show ?thesis using assms by (auto simp: job_event_handler_def job_state_def Let_def)
next
  case GetPrompt
  then show ?thesis using assms
    by (auto simp: get_prompt_handler_def job_state_def update_conv' split: option.split list.split)
next
  case GetCredentials
  then show ?thesis by (auto simp: get_credentials_handler_def split: option.split list.split prod.split sum.split)
qed (use assms in \<open>auto simp: llm_complete_handler_def llm_complete_with_tools_handler_def report_complete_handler_def with_jm_def
       job_state_def status_view complete_view with_world_def split: prod.split sum.split\<close>)

text \<open>
  Property C10. A token opens its own job only. A request without the current token of the job its path names changes nothing
  and ends with an error; a request with that token leaves the handle, token, grants, prompts and events of every other
  job as they were.
\<close>

theorem worker_isolation:
  "(case serve_worker env path authorization req st of (r, st') \<Rightarrow>
      (st' = st \<and> (r = Inl BAD_REQUEST \<or> r = Inl UNAUTHORIZED)) \<or>
      (\<exists>j token. extract_job_id_from_path (oe_parse_uuid env) path = Some j \<and> authorization = Some (''Bearer '' @ token) \<and>
         map_of (ts_tokens (jm_token_store (os_job_manager st))) j = Some token \<and>
         (r, st') = worker_route env j req st \<and> (\<forall>k. k \<noteq> j \<longrightarrow> job_state k st' = job_state k st)))"
proof -
  let ?ts = "jm_token_store (os_job_manager st)"
  consider (bad) c where "worker_auth_middleware (oe_parse_uuid env) ?ts path authorization () = Inl c" "c = BAD_REQUEST \<or> c = UNAUTHORIZED"
    | (ok) j token where "worker_auth_middleware (oe_parse_uuid env) ?ts path authorization () = Inr ()"
        "extract_job_id_from_path (oe_parse_uuid env) path = Some j" "authorization = Some (''Bearer '' @ token)"
        "map_of (ts_tokens ?ts) j = Some token"
    unfolding middleware_eq by metis
  then show ?thesis
  proof cases
    case bad
    then show ?thesis by (auto simp: serve_worker_def)
  next
    case ok
    obtain r st' where run: "worker_route env j req st = (r, st')" by fastforce
    have "job_state k st' = job_state k st" if "k \<noteq> j" for k using route_other_job [OF that, of env req st] run by simp
    then show ?thesis using ok run by (simp add: serve_worker_def)
  qed
qed


subsection \<open>Credentials\<close>

text \<open>Two secrets stores that agree on the given names.\<close>

definition agree_on :: "string set \<Rightarrow> 'w SecretsOps \<Rightarrow> 'w SecretsOps \<Rightarrow> bool" where
  "agree_on names ss ss' = (ss_record_usage ss' = ss_record_usage ss \<and>
     (\<forall>user name w. name \<in> names \<longrightarrow> ss_get_decrypted ss' user name w = ss_get_decrypted ss user name w \<and>
        ss_get ss' user name w = ss_get ss user name w))"

lemma serve_grants_agree:
  assumes "agree_on names ss ss'" and "set (map cg_secret_name grants) \<subseteq> names"
  shows "serve_grants ss' user grants acc w = serve_grants ss user grants acc w"
  using assms(2)
proof (induction grants arbitrary: acc w)
  case (Cons g gs)
  then show ?case using assms(1) by (auto simp: agree_on_def Let_def split: prod.split sum.split)
qed simp

lemma serve_grants_vars:
  "serve_grants ss user grants acc w = (Inr cs, w') \<Longrightarrow> map cs_env_var cs = map cs_env_var acc @ map cg_env_var grants"
  by (induction grants arbitrary: acc w) (auto simp: Let_def split: prod.splits sum.splits)


definition demo_secrets :: "nat SecretsOps" where
  "demo_secrets = \<lparr>ss_get_decrypted = (\<lambda>_ n w. (Inr (''value of '' @ n), w)), ss_get = (\<lambda>_ n w. (Inr (length n), w)),
     ss_record_usage = (\<lambda>_ w. (Inr (), w + 1))\<rparr>"

definition demo_orchestrator :: "nat OrchestratorEnv" where
  "demo_orchestrator = \<lparr>oe_llm_complete = (\<lambda>q w. (Inr \<lparr>rs_content = ''hi'', rs_input_tokens = 1, rs_output_tokens = 2,
       rs_finish_reason = Stop, rs_cache_read_input_tokens = 0, rs_cache_creation_input_tokens = 0\<rparr>, w)),
     oe_llm_complete_with_tools = (\<lambda>q w. (Inl (Http ''down''), w)), oe_docker = demo_docker, oe_secrets = Some demo_secrets,
     oe_user_id = ''default'', oe_has_event_tx = True, oe_has_store = True, oe_show_uuid = show_nat, oe_show_path = (\<lambda>_. ''p''),
     oe_parse_uuid = (\<lambda>s. if s = ''7'' then Some 7 else None)\<rparr>"

definition demo_state :: "nat OrchestratorState" where
  "demo_state = \<lparr>os_job_manager = snd (register_job 0 [1] 7 ''task'' None WorkerMode [\<lparr>cg_secret_name = ''gh'', cg_env_var = ''GH_TOKEN''\<rparr>]
       (job_manager_new demo_job_config token_store_new 0)), os_prompt_queue = [], os_sent = [], os_saved = []\<rparr>"

lemma demo_grants: "get_grants 7 (jm_token_store (os_job_manager demo_state)) = Some [\<lparr>cg_secret_name = ''gh'', cg_env_var = ''GH_TOKEN''\<rparr>]"
  by (simp add: demo_state_def register_job_def create_token_def store_grants_def get_grants_def job_manager_new_def token_store_new_def Let_def)


theorem worker_isolation_witness:
  "job_state 8 (snd (serve_worker demo_orchestrator ''/worker/7/credentials'' (Some ''Bearer 01'') GetCredentials demo_state)) = job_state 8 demo_state"
proof -
  have "extract_job_id_from_path (oe_parse_uuid demo_orchestrator) ''/worker/7/credentials'' = Some 7"
    by (simp add: demo_orchestrator_def extract_job_id_from_path_def Let_def)
  then show ?thesis
    using worker_isolation [where env = demo_orchestrator and path = "''/worker/7/credentials''" and authorization = "Some ''Bearer 01''"
        and req = GetCredentials and st = demo_state]
    by (auto split: prod.splits)
qed

subsection \<open>Prompts\<close>

text \<open>\<open>JobPromptTool\<close> and the web gateway put a prompt at the end of the queue of the job.\<close>

definition queue_prompt :: "uuid \<Rightarrow> PendingPrompt \<Rightarrow> 'w OrchestratorState \<Rightarrow> 'w OrchestratorState" where
  "queue_prompt job_id prompt st =
     st\<lparr>os_prompt_queue := AList.update job_id
          ((case map_of (os_prompt_queue st) job_id of Some ps \<Rightarrow> ps | None \<Rightarrow> []) @ [prompt]) (os_prompt_queue st)\<rparr>"

definition prompts_of :: "uuid \<Rightarrow> 'w OrchestratorState \<Rightarrow> PendingPrompt list" where
  "prompts_of j st = (case map_of (os_prompt_queue st) j of Some ps \<Rightarrow> ps | None \<Rightarrow> [])"

datatype prompt_op = Push uuid PendingPrompt | Poll uuid

fun prompt_step :: "prompt_op \<Rightarrow> 'w OrchestratorState \<Rightarrow> 'w OrchestratorState" where
  "prompt_step (Push k p) st = queue_prompt k p st"
| "prompt_step (Poll k) st = snd (get_prompt_handler k st)"

text \<open>What the polls for a job return along a history.\<close>

fun delivered :: "uuid \<Rightarrow> prompt_op list \<Rightarrow> 'w OrchestratorState \<Rightarrow> json list" where
  "delivered j [] st = []"
| "delivered j (x # xs) st =
     (case x of
        Poll k \<Rightarrow> (if k = j \<and> fst (fst (get_prompt_handler k st)) = OK then [snd (fst (get_prompt_handler k st))] else [])
      | Push _ _ \<Rightarrow> []) @ delivered j xs (prompt_step x st)"

definition prompt_json :: "PendingPrompt \<Rightarrow> json" where
  "prompt_json p = JObject [(''content'', JString (pp_content p)), (''done'', JBool (pp_done p))]"

definition pushed :: "uuid \<Rightarrow> prompt_op list \<Rightarrow> PendingPrompt list" where
  "pushed j xs = concat (map (\<lambda>x. case x of Push k p \<Rightarrow> if k = j then [p] else [] | Poll _ \<Rightarrow> []) xs)"

lemma poll_prompts:
  "prompts_of j (snd (get_prompt_handler k st)) = (if k = j then tl (prompts_of j st) else prompts_of j st)"
  "fst (get_prompt_handler j st) = (case prompts_of j st of [] \<Rightarrow> (NO_CONTENT, JNull) | p # _ \<Rightarrow> (OK, prompt_json p))"
  by (auto simp: prompts_of_def get_prompt_handler_def prompt_json_def update_conv' split: option.split list.split)

lemma push_prompts: "prompts_of j (queue_prompt k p st) = prompts_of j st @ (if k = j then [p] else [])"
  by (auto simp: prompts_of_def queue_prompt_def update_conv' split: option.split)

text \<open>
  Also: Follow-up prompts reach a container once each and in order: along any interleaving of prompts and polls for any
  jobs, what the polls of a job have returned, followed by what still waits for it, is what waited before followed by
  what was put into its queue.
\<close>

theorem prompts_fifo:
  "delivered j xs st @ map prompt_json (prompts_of j (fold prompt_step xs st)) =
     map prompt_json (prompts_of j st) @ map prompt_json (pushed j xs)"
proof (induction xs arbitrary: st)
  case (Cons x xs)
  show ?case
  proof (cases x)
    case (Push k p)
    then show ?thesis using Cons.IH [of "queue_prompt k p st"] by (auto simp: push_prompts pushed_def)
  next
    case (Poll k)
    then show ?thesis using Cons.IH [of "snd (get_prompt_handler k st)"]
      by (cases "prompts_of j st") (auto simp: poll_prompts pushed_def)
  qed
qed (simp add: pushed_def)

subsection \<open>The proxied model\<close>

fun parse_finish_reason :: "string \<Rightarrow> FinishReason" where
  "parse_finish_reason s =
     (if s = ''stop'' then Stop else if s = ''length'' then Length
      else if s = ''tool_use'' \<or> s = ''tool_calls'' then ToolUse
      else if s = ''content_filter'' then ContentFilter else UnknownReason)"

record WorkerHttpClient =
  wh_job_id :: uuid
  wh_token :: string

text \<open>The path of a request to the orchestrator, and the request itself; \<open>net\<close> is the error of a connection that fails.\<close>

definition client_path :: "'w OrchestratorEnv \<Rightarrow> WorkerHttpClient \<Rightarrow> string \<Rightarrow> string" where
  "client_path env c path = ''/worker/'' @ oe_show_uuid env (wh_job_id c) @ ''/'' @ path"

definition client_send ::
    "'w OrchestratorEnv \<Rightarrow> string option \<Rightarrow> (StatusCode \<Rightarrow> string) \<Rightarrow> WorkerHttpClient \<Rightarrow> string \<Rightarrow> string \<Rightarrow> worker_request \<Rightarrow>
     'w OrchestratorState \<Rightarrow> (string + worker_response) \<times> 'w OrchestratorState" where
  "client_send env net show_status c path context req st =
     (case net of
        Some e \<Rightarrow> (Inl (context @ '': '' @ e), st)
      | None \<Rightarrow>
          (case serve_worker env (client_path env c path) (Some (''Bearer '' @ wh_token c)) req st of
             (Inl status, st) \<Rightarrow> (Inl (context @ '': orchestrator returned '' @ show_status status @ '': ''), st)
           | (Inr resp, st) \<Rightarrow> (Inr resp, st)))"

definition proxy_complete ::
    "'w OrchestratorEnv \<Rightarrow> string option \<Rightarrow> (StatusCode \<Rightarrow> string) \<Rightarrow> WorkerHttpClient \<Rightarrow> CompletionRequest \<Rightarrow>
     ('w OrchestratorState, CompletionResponse) operation" where
  "proxy_complete env net show_status c request st =
     (case client_send env net show_status c ''llm/complete'' ''LLM complete''
             (LlmComplete \<lparr>px_messages = cr_messages request, px_model = cr_model request, px_max_tokens = cr_max_tokens request,
                px_temperature = cr_temperature request, px_stop_sequences = cr_stop_sequences request\<rparr>) st of
        (Inr (RCompletion p), st) \<Rightarrow>
          (Inr \<lparr>rs_content = py_content p, rs_input_tokens = py_input_tokens p, rs_output_tokens = py_output_tokens p,
                rs_finish_reason = parse_finish_reason (py_finish_reason p),
                rs_cache_read_input_tokens = py_cache_read_input_tokens p,
                rs_cache_creation_input_tokens = py_cache_creation_input_tokens p\<rparr>, st)
      | (Inr _, st) \<Rightarrow> (Inl (RequestFailed ''proxy'' ''LLM proxy request failed: LLM complete: failed to parse response''), st)
      | (Inl reason, st) \<Rightarrow> (Inl (RequestFailed ''proxy'' (''LLM proxy request failed: '' @ reason)), st))"

definition proxy_complete_with_tools ::
    "'w OrchestratorEnv \<Rightarrow> string option \<Rightarrow> (StatusCode \<Rightarrow> string) \<Rightarrow> WorkerHttpClient \<Rightarrow> ToolCompletionRequest \<Rightarrow>
     ('w OrchestratorState, ToolCompletionResponse) operation" where
  "proxy_complete_with_tools env net show_status c request st =
     (case client_send env net show_status c ''llm/complete_with_tools'' ''LLM tool complete''
             (LlmCompleteWithTools \<lparr>pt_messages = tr_messages request, pt_tools = tr_tools request, pt_model = tr_model request,
                pt_max_tokens = tr_max_tokens request, pt_temperature = tr_temperature request,
                pt_tool_choice = tr_tool_choice request\<rparr>) st of
        (Inr (RToolCompletion p), st) \<Rightarrow>
          (Inr \<lparr>tp_content = pu_content p, tp_tool_calls = pu_tool_calls p, tp_input_tokens = pu_input_tokens p,
                tp_output_tokens = pu_output_tokens p,
                tp_finish_reason = parse_finish_reason (pu_finish_reason p),
                tp_cache_read_input_tokens = pu_cache_read_input_tokens p,
                tp_cache_creation_input_tokens = pu_cache_creation_input_tokens p\<rparr>, st)
      | (Inr _, st) \<Rightarrow> (Inl (RequestFailed ''proxy'' ''LLM proxy request failed: LLM tool complete: failed to parse response''), st)
      | (Inl reason, st) \<Rightarrow> (Inl (RequestFailed ''proxy'' (''LLM proxy request failed: '' @ reason)), st))"


lemma parse_format_finish_reason [simp]: "parse_finish_reason (format_finish_reason r) = r"
  by (cases r) simp_all

lemma client_path_job:
  assumes "oe_parse_uuid env (oe_show_uuid env (wh_job_id c)) = Some (wh_job_id c)" and "CHR ''/'' \<notin> set (oe_show_uuid env (wh_job_id c))"
  shows "extract_job_id_from_path (oe_parse_uuid env) (client_path env c path) = Some (wh_job_id c)"
proof -
  let ?u = "oe_show_uuid env (wh_job_id c)"
  have "split_on (\<lambda>c. c = CHR ''/'') (''worker'' @ CHR ''/'' # ?u @ CHR ''/'' # path) = ''worker'' # ?u # split_on (\<lambda>c. c = CHR ''/'') path"
    using split_on_append_sep [of "\<lambda>c. c = CHR ''/''" "''worker''" "CHR ''/''"] split_on_append_sep [of "\<lambda>c. c = CHR ''/''" ?u "CHR ''/''" path] assms(2)
    by (auto simp: list_all_iff simp del: split_on.simps append.simps)
  then show ?thesis using assms(1) by (simp add: extract_job_id_from_path_def client_path_def)
qed

lemma client_send_valid:
  assumes "oe_parse_uuid env (oe_show_uuid env (wh_job_id c)) = Some (wh_job_id c)" and "CHR ''/'' \<notin> set (oe_show_uuid env (wh_job_id c))"
    and "map_of (ts_tokens (jm_token_store (os_job_manager st))) (wh_job_id c) = Some (wh_token c)"
  shows "client_send env None sh c path ctx req st =
    (case worker_route env (wh_job_id c) req st of
       (Inl status, st) \<Rightarrow> (Inl (ctx @ '': orchestrator returned '' @ sh status @ '': ''), st)
     | (Inr resp, st) \<Rightarrow> (Inr resp, st))"
  using client_path_job [OF assms(1,2)] assms(3) by (simp add: client_send_def serve_worker_def middleware_eq)

text \<open>
  Property C36. A container sees the model of the host: with a valid token, a completion asked through the API
  gives exactly the response the model of the orchestrator gives to the same request without its metadata, finish reason and
  token counts included, and leaves the world as that call leaves it. An error of the model arrives as a failed request.
\<close>

theorem proxy_transparent:
  assumes "oe_parse_uuid env (oe_show_uuid env (wh_job_id c)) = Some (wh_job_id c)" and "CHR ''/'' \<notin> set (oe_show_uuid env (wh_job_id c))"
    and "map_of (ts_tokens (jm_token_store (os_job_manager st))) (wh_job_id c) = Some (wh_token c)"
  shows "proxy_complete env None sh c q st =
      (case oe_llm_complete env (q\<lparr>cr_metadata := []\<rparr>) (os_world st) of
         (Inr r, w) \<Rightarrow> (Inr r, with_world w st)
       | (Inl e, w) \<Rightarrow> (Inl (RequestFailed ''proxy'' (''LLM proxy request failed: LLM complete: orchestrator returned '' @ sh BAD_GATEWAY @ '': '')), with_world w st)) \<and>
    proxy_complete_with_tools env None sh c t st =
      (case oe_llm_complete_with_tools env (t\<lparr>tr_metadata := []\<rparr>) (os_world st) of
         (Inr r, w) \<Rightarrow> (Inr r, with_world w st)
       | (Inl e, w) \<Rightarrow> (Inl (RequestFailed ''proxy'' (''LLM proxy request failed: LLM tool complete: orchestrator returned '' @ sh BAD_GATEWAY @ '': '')), with_world w st))"
proof
  note send = client_send_valid [OF assms, of sh]
  have q: "q\<lparr>cr_metadata := []\<rparr> = \<lparr>cr_messages = cr_messages q, cr_model = cr_model q, cr_max_tokens = cr_max_tokens q,
      cr_temperature = cr_temperature q, cr_stop_sequences = cr_stop_sequences q, cr_metadata = []\<rparr>" by simp
  show "proxy_complete env None sh c q st =
      (case oe_llm_complete env (q\<lparr>cr_metadata := []\<rparr>) (os_world st) of
         (Inr r, w) \<Rightarrow> (Inr r, with_world w st)
       | (Inl e, w) \<Rightarrow> (Inl (RequestFailed ''proxy'' (''LLM proxy request failed: LLM complete: orchestrator returned '' @ sh BAD_GATEWAY @ '': '')), with_world w st))"
    unfolding q by (simp add: proxy_complete_def send llm_complete_handler_def del: parse_finish_reason.simps split: prod.split sum.split)
  have t: "t\<lparr>tr_metadata := []\<rparr> = \<lparr>tr_messages = tr_messages t, tr_tools = tr_tools t, tr_model = tr_model t, tr_max_tokens = tr_max_tokens t,
      tr_temperature = tr_temperature t, tr_tool_choice = tr_tool_choice t, tr_metadata = []\<rparr>" by simp
  show "proxy_complete_with_tools env None sh c t st =
      (case oe_llm_complete_with_tools env (t\<lparr>tr_metadata := []\<rparr>) (os_world st) of
         (Inr r, w) \<Rightarrow> (Inr r, with_world w st)
       | (Inl e, w) \<Rightarrow> (Inl (RequestFailed ''proxy'' (''LLM proxy request failed: LLM tool complete: orchestrator returned '' @ sh BAD_GATEWAY @ '': '')), with_world w st))"
    unfolding t by (simp add: proxy_complete_with_tools_def send llm_complete_with_tools_handler_def del: parse_finish_reason.simps split: prod.split sum.split)
qed

theorem proxy_transparent_witness:
  "fst (proxy_complete demo_orchestrator None (\<lambda>_. ''502'') \<lparr>wh_job_id = 7, wh_token = ''01''\<rparr> (completion_request_new []) demo_state) =
     Inr \<lparr>rs_content = ''hi'', rs_input_tokens = 1, rs_output_tokens = 2, rs_finish_reason = Stop,
       rs_cache_read_input_tokens = 0, rs_cache_creation_input_tokens = 0\<rparr>"
proof -
  let ?c = "\<lparr>wh_job_id = 7, wh_token = ''01''\<rparr>"
  have "generate_token [1] = ''01''" by code_simp
  then have "map_of (ts_tokens (jm_token_store (os_job_manager demo_state))) (wh_job_id ?c) = Some (wh_token ?c)"
    by (simp add: demo_state_def register_job_def create_token_def store_grants_def job_manager_new_def token_store_new_def Let_def)
  moreover have "show_nat 7 = ''7''" by code_simp
  ultimately show ?thesis
    using proxy_transparent [of demo_orchestrator ?c demo_state "\<lambda>_. ''502''" "completion_request_new []"]
    by (simp add: demo_orchestrator_def)
qed

end
