(* ===== verification/Credentials.thy ===== *)
theory Credentials
  imports Net_Guard
begin

text \<open>
  Credentials in outgoing requests: the detection of credentials the model wrote into the parameters of a request
  (\<^verbatim>\<open>src/safety/credential_detect.rs\<close>) and the injection of stored ones at the boundary of the host
  (\<^verbatim>\<open>src/tools/wasm/credential_injector.rs\<close>, with the mappings of \<^verbatim>\<open>src/secrets/types.rs\<close>). The lemmas describe which
  hosts a mapping applies to, that a tool only ever gets the secrets it was allowed, and that the Base64 of basic
  authentication loses nothing.

  The store of secrets is an operation on a state \<open>'w\<close>; the query of a URL is an argument. The mappings of an
  injector are those of its hash map in the order of iteration, a map of headers or parameters is an association list.
\<close>

unbundle bit_operations_syntax

subsection \<open>Credentials in parameters\<close>

definition AUTH_HEADER_EXACT :: "string list" where
  "AUTH_HEADER_EXACT = [''authorization'', ''proxy-authorization'', ''cookie'', ''x-api-key'', ''api-key'', ''x-auth-token'',
     ''x-token'', ''x-access-token'', ''x-session-token'', ''x-csrf-token'', ''x-secret'', ''x-api-secret'']"

definition AUTH_HEADER_SUBSTRINGS :: "string list" where
  "AUTH_HEADER_SUBSTRINGS = [''auth'', ''token'', ''secret'', ''credential'', ''password'']"

definition AUTH_VALUE_PREFIXES :: "string list" where
  "AUTH_VALUE_PREFIXES = [''bearer '', ''basic '', ''token '', ''digest '', ''hoba '', ''mutual '', ''aws4-hmac-sha256 '']"

definition AUTH_QUERY_EXACT :: "string list" where
  "AUTH_QUERY_EXACT = [''api_key'', ''apikey'', ''api-key'', ''access_token'', ''token'', ''key'', ''secret'', ''password'', ''auth'',
     ''auth_token'', ''session_token'', ''client_secret'', ''client_id'', ''app_key'', ''app_secret'', ''sig'', ''signature'']"

definition AUTH_QUERY_SUBSTRINGS :: "string list" where
  "AUTH_QUERY_SUBSTRINGS = [''token'', ''secret'', ''auth'', ''password'', ''credential'']"

definition header_name_is_credential :: "string \<Rightarrow> bool" where
  "header_name_is_credential name =
     (let lower = to_lowercase name
      in lower \<in> set AUTH_HEADER_EXACT \<or> list_ex (\<lambda>sub. contains lower sub) AUTH_HEADER_SUBSTRINGS)"

definition header_value_is_credential :: "string \<Rightarrow> bool" where
  "header_value_is_credential value =
     (let lower = to_lowercase value in list_ex (\<lambda>pfx. starts_with lower pfx) AUTH_VALUE_PREFIXES)"

text \<open>\<open>Option::is_some_and\<close>.\<close>

definition is_some_and :: "'a option \<Rightarrow> ('a \<Rightarrow> bool) \<Rightarrow> bool" where
  "is_some_and x p = (case x of Some a \<Rightarrow> p a | None \<Rightarrow> False)"

definition headers_contain_credentials :: "json \<Rightarrow> bool" where
  "headers_contain_credentials params =
     (case json_get ''headers'' params of
        Some (JObject kvs) \<Rightarrow>
          list_ex (\<lambda>(k, v). header_name_is_credential k \<or> is_some_and (as_str v) header_value_is_credential) kvs
      | Some (JArray items) \<Rightarrow>
          list_ex (\<lambda>item.
            let name_match = is_some_and (Option.bind (json_get ''name'' item) as_str) header_name_is_credential;
                value_match = is_some_and (Option.bind (json_get ''value'' item) as_str) header_value_is_credential
            in name_match \<or> value_match) items
      | _ \<Rightarrow> False)"

definition query_param_is_credential :: "string \<Rightarrow> bool" where
  "query_param_is_credential name =
     (let lower = to_lowercase name
      in lower \<in> set AUTH_QUERY_EXACT \<or> list_ex (\<lambda>sub. contains lower sub) AUTH_QUERY_SUBSTRINGS)"

definition parsed_url :: "NetEnv \<Rightarrow> json \<Rightarrow> Url option" where
  "parsed_url env params =
     (case Option.bind (json_get ''url'' params) as_str of
        None \<Rightarrow> None
      | Some url_str \<Rightarrow> (case ne_parse_url env url_str of Inr u \<Rightarrow> Some u | Inl _ \<Rightarrow> None))"

text \<open>\<open>query_pairs\<close> gives the decoded parameters of a URL.\<close>

definition url_contains_credential_params :: "NetEnv \<Rightarrow> (Url \<Rightarrow> (string \<times> string) list) \<Rightarrow> json \<Rightarrow> bool" where
  "url_contains_credential_params env query_pairs params =
     (case parsed_url env params of
        None \<Rightarrow> False
      | Some parsed \<Rightarrow> list_ex (\<lambda>(name, _). query_param_is_credential name) (query_pairs parsed))"

definition url_contains_userinfo :: "NetEnv \<Rightarrow> json \<Rightarrow> bool" where
  "url_contains_userinfo env params =
     (case parsed_url env params of
        None \<Rightarrow> False
      | Some parsed \<Rightarrow> u_username parsed \<noteq> [] \<or> u_password parsed \<noteq> None)"

definition params_contain_manual_credentials :: "NetEnv \<Rightarrow> (Url \<Rightarrow> (string \<times> string) list) \<Rightarrow> json \<Rightarrow> bool" where
  "params_contain_manual_credentials env query_pairs params =
     (headers_contain_credentials params \<or> url_contains_credential_params env query_pairs params \<or> url_contains_userinfo env params)"

subsection \<open>Mappings\<close>

datatype CredentialLocation =
    AuthorizationBearer
  | AuthorizationBasic string
  | HeaderLocation string "string option"
  | QueryParam string
  | UrlPath string

record CredentialMapping =
  cp_secret_name :: string
  cp_location :: CredentialLocation
  cp_host_patterns :: "string list"

definition mapping_bearer :: "string \<Rightarrow> string \<Rightarrow> CredentialMapping" where
  "mapping_bearer secret_name host_pattern =
     \<lparr>cp_secret_name = secret_name, cp_location = AuthorizationBearer, cp_host_patterns = [host_pattern]\<rparr>"

definition mapping_header :: "string \<Rightarrow> string \<Rightarrow> string \<Rightarrow> CredentialMapping" where
  "mapping_header secret_name header_name host_pattern =
     \<lparr>cp_secret_name = secret_name, cp_location = HeaderLocation header_name None, cp_host_patterns = [host_pattern]\<rparr>"

definition host_matches_pattern :: "string \<Rightarrow> string \<Rightarrow> bool" where
  "host_matches_pattern host pattern =
     (if pattern = host then True
      else case strip_prefix ''*.'' pattern of
          Some sfx \<Rightarrow>
            if ends_with host sfx \<and> length host > length sfx
            then let pre = take (length host - length sfx) host in ends_with pre ''.'' \<or> pre = []
            else False
        | None \<Rightarrow> False)"

definition mapping_applies :: "string \<Rightarrow> CredentialMapping \<Rightarrow> bool" where
  "mapping_applies host mapping = list_ex (\<lambda>pattern. host_matches_pattern host pattern) (cp_host_patterns mapping)"

subsection \<open>The shared registry\<close>

type_synonym SharedCredentialRegistry = "CredentialMapping list"

definition credential_registry_new :: SharedCredentialRegistry where
  "credential_registry_new = []"

definition add_mappings :: "CredentialMapping list \<Rightarrow> SharedCredentialRegistry \<Rightarrow> SharedCredentialRegistry" where
  "add_mappings mappings reg = reg @ mappings"

definition remove_mappings_for_secrets :: "string list \<Rightarrow> SharedCredentialRegistry \<Rightarrow> SharedCredentialRegistry" where
  "remove_mappings_for_secrets secret_names reg = filter (\<lambda>m. cp_secret_name m \<notin> set secret_names) reg"

definition has_credentials_for_host :: "string \<Rightarrow> SharedCredentialRegistry \<Rightarrow> bool" where
  "has_credentials_for_host host reg = list_ex (mapping_applies host) reg"

definition find_for_host :: "string \<Rightarrow> SharedCredentialRegistry \<Rightarrow> CredentialMapping list" where
  "find_for_host host reg = filter (mapping_applies host) reg"

subsection \<open>Base64\<close>

definition ALPHABET :: string where
  "ALPHABET = ''ABCDEFGHIJKLMNOPQRSTUVWXYZabcdefghijklmnopqrstuvwxyz0123456789+/''"

text \<open>The loop over groups of three bytes.\<close>

fun base64_encode :: "8 word list \<Rightarrow> string" where
  "base64_encode [] = []"
| "base64_encode [b0] =
     [ALPHABET ! unat (drop_bit 2 b0), ALPHABET ! unat (push_bit 4 (b0 AND 0x03)), CHR ''='', CHR ''='']"
| "base64_encode [b0, b1] =
     [ALPHABET ! unat (drop_bit 2 b0), ALPHABET ! unat (push_bit 4 (b0 AND 0x03) OR drop_bit 4 b1),
      ALPHABET ! unat (push_bit 2 (b1 AND 0x0F)), CHR ''='']"
| "base64_encode (b0 # b1 # b2 # input) =
     [ALPHABET ! unat (drop_bit 2 b0), ALPHABET ! unat (push_bit 4 (b0 AND 0x03) OR drop_bit 4 b1),
      ALPHABET ! unat (push_bit 2 (b1 AND 0x0F) OR drop_bit 6 b2), ALPHABET ! unat (b2 AND 0x3F)] @ base64_encode input"

subsection \<open>Injection\<close>

datatype SecretError =
    SecretMissing string
  | SecretOutdated
  | SecretUndecryptable string
  | SecretUnencryptable string
  | SecretBadMasterKey
  | SecretBadUtf8
  | SecretDatabase string
  | SecretDenied
  | SecretKeychain string

fun show_secret_error :: "SecretError \<Rightarrow> string" where
  "show_secret_error (SecretMissing n) = ''Secret not found: '' @ n"
| "show_secret_error SecretOutdated = ''Secret has expired''"
| "show_secret_error (SecretUndecryptable m) = ''Decryption failed: '' @ m"
| "show_secret_error (SecretUnencryptable m) = ''Encryption failed: '' @ m"
| "show_secret_error SecretBadMasterKey = ''Invalid master key''"
| "show_secret_error SecretBadUtf8 = ''Secret value is not valid UTF-8''"
| "show_secret_error (SecretDatabase m) = ''Database error: '' @ m"
| "show_secret_error SecretDenied = ''Secret access denied for tool''"
| "show_secret_error (SecretKeychain m) = ''Keychain error: '' @ m"

datatype InjectionError =
    InjSecretNotFound string
  | InjAccessDenied string
  | InjSecretExpired string
  | InjDecryptionFailed string
  | InjNoMatchingCredential string

record InjectedCredentials =
  ic_headers :: "(string \<times> string) list"
  ic_query_params :: "(string \<times> string) list"

definition injected_empty :: InjectedCredentials where
  "injected_empty = \<lparr>ic_headers = [], ic_query_params = []\<rparr>"

definition bytes_of :: "string \<Rightarrow> 8 word list" where
  "bytes_of s = map of_char s"

definition inject_credential :: "CredentialLocation \<Rightarrow> string \<Rightarrow> InjectedCredentials \<Rightarrow> InjectedCredentials" where
  "inject_credential location secret result =
     (case location of
        AuthorizationBearer \<Rightarrow> result\<lparr>ic_headers := AList.update ''Authorization'' (''Bearer '' @ secret) (ic_headers result)\<rparr>
      | AuthorizationBasic username \<Rightarrow>
          result\<lparr>ic_headers := AList.update ''Authorization''
            (''Basic '' @ base64_encode (bytes_of (username @ '':'' @ secret))) (ic_headers result)\<rparr>
      | HeaderLocation name pre \<Rightarrow>
          result\<lparr>ic_headers := AList.update name (case pre of Some p \<Rightarrow> p @ secret | None \<Rightarrow> secret) (ic_headers result)\<rparr>
      | QueryParam name \<Rightarrow> result\<lparr>ic_query_params := AList.update name secret (ic_query_params result)\<rparr>
      | UrlPath _ \<Rightarrow> result)"

type_synonym 'w get_decrypted = "string \<Rightarrow> string \<Rightarrow> 'w \<Rightarrow> (SecretError + string) \<times> 'w"

record CredentialInjector =
  ci_mappings :: "CredentialMapping list"
  ci_allowed_secrets :: "string list"

definition find_credentials_for_host :: "CredentialInjector \<Rightarrow> string \<Rightarrow> CredentialMapping list" where
  "find_credentials_for_host ci host = filter (mapping_applies host) (ci_mappings ci)"

definition is_secret_allowed :: "CredentialInjector \<Rightarrow> string \<Rightarrow> bool" where
  "is_secret_allowed ci name =
     (let name_lower = to_lowercase name
      in list_ex (\<lambda>pattern. let pattern_lower = to_lowercase pattern
           in pattern_lower = name_lower \<or>
              (case strip_suffix ''*'' pattern_lower of Some pre \<Rightarrow> starts_with name_lower pre | None \<Rightarrow> False))
         (ci_allowed_secrets ci))"

definition injection_error :: "string \<Rightarrow> SecretError \<Rightarrow> InjectionError" where
  "injection_error name e =
     (case e of
        SecretMissing n \<Rightarrow> InjSecretNotFound n
      | SecretOutdated \<Rightarrow> InjSecretExpired name
      | _ \<Rightarrow> InjDecryptionFailed (show_secret_error e))"

fun inject_loop ::
    "'w get_decrypted \<Rightarrow> CredentialInjector \<Rightarrow> string \<Rightarrow> CredentialMapping list \<Rightarrow> InjectedCredentials \<Rightarrow> 'w \<Rightarrow>
     (InjectionError + InjectedCredentials) \<times> 'w" where
  "inject_loop get_decrypted ci user_id [] result w = (Inr result, w)"
| "inject_loop get_decrypted ci user_id (mapping # mappings) result w =
     (if \<not> is_secret_allowed ci (cp_secret_name mapping) then (Inl (InjAccessDenied (cp_secret_name mapping)), w)
      else case get_decrypted user_id (cp_secret_name mapping) w of
          (Inl e, w) \<Rightarrow> (Inl (injection_error (cp_secret_name mapping) e), w)
        | (Inr secret, w) \<Rightarrow>
            inject_loop get_decrypted ci user_id mappings (inject_credential (cp_location mapping) secret result) w)"

definition inject ::
    "'w get_decrypted \<Rightarrow> CredentialInjector \<Rightarrow> string \<Rightarrow> string \<Rightarrow> 'w \<Rightarrow> (InjectionError + InjectedCredentials) \<times> 'w" where
  "inject get_decrypted ci user_id host w =
     (let matching_mappings = find_credentials_for_host ci host
      in if matching_mappings = [] then (Inr injected_empty, w)
         else inject_loop get_decrypted ci user_id matching_mappings injected_empty w)"

subsection \<open>Which hosts get a credential\<close>

text \<open>
  Also: A pattern applies to the host it names and, if it begins with a wildcard, to the proper subdomains of the rest: never to a host
  that merely ends with the same letters, and not to the bare domain.
\<close>

theorem host_matches_iff:
  "host_matches_pattern host pattern = (host = pattern \<or> (\<exists>sub domain. pattern = ''*.'' @ domain \<and> host = sub @ ''.'' @ domain))"
proof (cases "strip_prefix ''*.'' pattern")
  case None
  then show ?thesis by (auto simp: host_matches_pattern_def strip_prefix_def split: if_splits)
next
  case (Some domain)
  then have p: "pattern = ''*.'' @ domain" by (auto simp: strip_prefix_def prefix_def split: if_splits)
  have "(ends_with host domain \<and> length host > length domain \<and> ends_with (take (length host - length domain) host) ''.'') =
      (\<exists>sub. host = sub @ ''.'' @ domain)"
    by (auto simp: suffix_def)
  then show ?thesis using Some by (auto simp: host_matches_pattern_def p Let_def)
qed

lemma has_credentials_iff: "has_credentials_for_host host reg = (find_for_host host reg \<noteq> [])"
  by (auto simp: has_credentials_for_host_def find_for_host_def list_ex_iff filter_empty_conv)

text \<open>
  Also: A credential does not outlive its extension: once the mappings of its secrets are removed, no host gets one of these secrets,
  and the mappings of other secrets are found as before.
\<close>

theorem removed_mappings_gone:
  "find_for_host host (remove_mappings_for_secrets names reg) = filter (\<lambda>m. cp_secret_name m \<notin> set names) (find_for_host host reg)"
  by (simp add: find_for_host_def remove_mappings_for_secrets_def conj_commute)

subsection \<open>Base64 loses nothing\<close>

fun index_of :: "char \<Rightarrow> string \<Rightarrow> nat" where
  "index_of c [] = 0"
| "index_of c (x # xs) = (if c = x then 0 else Suc (index_of c xs))"

definition sextet :: "char \<Rightarrow> 8 word" where
  "sextet c = of_nat (index_of c ALPHABET)"

text \<open>Decoding as in RFC 4648: each group of four characters gives three bytes, or fewer where it is padded.\<close>

fun base64_decode :: "string \<Rightarrow> 8 word list" where
  "base64_decode (c0 # c1 # c2 # c3 # cs) =
     (let b0 = push_bit 2 (sextet c0) OR drop_bit 4 (sextet c1);
          b1 = push_bit 4 (sextet c1) OR drop_bit 2 (sextet c2);
          b2 = push_bit 6 (sextet c2) OR sextet c3
      in if c2 = CHR ''='' then [b0] else if c3 = CHR ''='' then [b0, b1] else b0 # b1 # b2 # base64_decode cs)"
| "base64_decode _ = []"

lemma index_of_nth: "distinct xs \<Longrightarrow> i < length xs \<Longrightarrow> index_of (xs ! i) xs = i"
  by (induction xs arbitrary: i) (auto simp: nth_Cons split: nat.split)

lemma alphabet: "distinct ALPHABET" "length ALPHABET = 64" "CHR ''='' \<notin> set ALPHABET"
  by code_simp+

lemma sextet_nth: "w < 64 \<Longrightarrow> sextet (ALPHABET ! unat w) = w"
  using index_of_nth [OF alphabet(1), of "unat w"] by (simp add: sextet_def alphabet(2) word_less_nat_alt)

lemma padding_nth: "w < 64 \<Longrightarrow> ALPHABET ! unat (w :: 8 word) \<noteq> CHR ''=''"
proof -
  assume "w < 64"
  then have "ALPHABET ! unat w \<in> set ALPHABET" by (intro nth_mem) (simp add: alphabet(2) word_less_nat_alt)
  then show "ALPHABET ! unat w \<noteq> CHR ''=''" using alphabet(3) by metis
qed

lemma byte_eqI: "(\<And>n. n \<in> {0, 1, 2, 3, 4, 5, 6, 7} \<Longrightarrow> bit a n = bit b n) \<Longrightarrow> a = (b :: 8 word)"
  by (rule bit_word_eqI) (auto simp: less_Suc_eq numeral_eq_Suc)

lemma sextet_bound: "(w :: 8 word) < 64 = (\<not> bit w 6 \<and> \<not> bit w 7)"
proof -
  have "w < 64 \<longleftrightarrow> take_bit 6 w = w"
    by (simp add: word_less_nat_alt word_unat_eq_iff unsigned_take_bit_eq take_bit_nat_eq_self_iff)
  also have "\<dots> = (\<not> bit w 6 \<and> \<not> bit w 7)"
  proof
    assume "take_bit 6 w = w"
    then have bits: "bit w n = bit (take_bit 6 w) n" for n by simp
    show "\<not> bit w 6 \<and> \<not> bit w 7" using bits [of 6] bits [of 7] by (simp add: bit_take_bit_iff)
  next
    assume "\<not> bit w 6 \<and> \<not> bit w 7"
    then show "take_bit 6 w = w" by (intro byte_eqI) (auto simp: bit_simps)
  qed
  finally show ?thesis .
qed

lemma high_bit: "8 \<le> n \<Longrightarrow> \<not> bit (w :: 8 word) n"
  using bit_imp_le_length [of w n] by auto

lemma byte_masks: "(0x03 :: 8 word) = mask 2" "(0x0F :: 8 word) = mask 4" "(0x3F :: 8 word) = mask 6"
  by (simp_all add: mask_eq_exp_minus_1)

lemma sextets_small:
  "drop_bit 2 (b0 :: 8 word) < 64" "push_bit 4 ((b0 :: 8 word) AND 0x03) < 64"
  "push_bit 4 ((b0 :: 8 word) AND 0x03) OR drop_bit 4 b1 < 64" "push_bit 2 ((b1 :: 8 word) AND 0x0F) < 64"
  "push_bit 2 ((b1 :: 8 word) AND 0x0F) OR drop_bit 6 b2 < 64" "(b2 :: 8 word) AND 0x3F < 64"
  by (auto simp: sextet_bound byte_masks bit_simps high_bit)

lemma base64_group:
  "push_bit 2 (drop_bit 2 b0) OR drop_bit 4 (push_bit 4 (b0 AND 0x03) OR drop_bit 4 b1) = (b0 :: 8 word)"
  "push_bit 2 (drop_bit 2 b0) OR drop_bit 4 (push_bit 4 (b0 AND 0x03)) = (b0 :: 8 word)"
  "push_bit 4 (push_bit 4 (b0 AND 0x03) OR drop_bit 4 b1) OR drop_bit 2 (push_bit 2 (b1 AND 0x0F) OR drop_bit 6 b2) = (b1 :: 8 word)"
  "push_bit 4 (push_bit 4 (b0 AND 0x03) OR drop_bit 4 b1) OR drop_bit 2 (push_bit 2 (b1 AND 0x0F)) = (b1 :: 8 word)"
  "push_bit 6 (push_bit 2 (b1 AND 0x0F) OR drop_bit 6 b2) OR (b2 AND 0x3F) = (b2 :: 8 word)"
  unfolding byte_masks by (rule byte_eqI, auto simp: bit_simps high_bit simp flip: numeral_2_eq_2)+

lemmas sextet_facts = sextets_small [THEN sextet_nth] sextets_small [THEN padding_nth]

text \<open>
  Also: The encoding loses nothing: decoding what was encoded gives back the bytes, whatever their number.
\<close>

theorem base64_roundtrip: "base64_decode (base64_encode bytes) = bytes"
  by (induction bytes rule: base64_encode.induct)
    (simp_all only: base64_encode.simps base64_decode.simps sextet_facts base64_group Let_def append.simps if_True if_False refl)

subsection \<open>Which secrets a tool gets\<close>

text \<open>Two stores that agree on the secrets allowed.\<close>

definition agree_on_allowed :: "CredentialInjector \<Rightarrow> 'w get_decrypted \<Rightarrow> 'w get_decrypted \<Rightarrow> bool" where
  "agree_on_allowed ci get get' = (\<forall>user name w. is_secret_allowed ci name \<longrightarrow> get' user name w = get user name w)"

lemma inject_loop_agree:
  "agree_on_allowed ci get get' \<Longrightarrow> inject_loop get' ci user ms result w = inject_loop get ci user ms result w"
  by (induction get ci user ms result w rule: inject_loop.induct) (auto simp: agree_on_allowed_def split: prod.splits sum.splits)



end
