(* ===== verification/Http_Tool.thy ===== *)
theory Http_Tool
  imports Credentials Leak_Detector Path_Utils
begin

text \<open>
  The HTTP tool: \<^verbatim>\<open>src/tools/builtin/http.rs\<close>, from the approval it asks for to the result it returns. The lemmas say
  that a request with credentials, written by the model or injected, always asks for approval, that every request
  sent was scanned for secrets, that a redirect is held to the rules of the first request, and that a response is read
  up to a limit.

  URLs, JSON, the HTTP client, the store of secrets, the recorder of exchanges and the file system are arguments. The
  state \<open>'w\<close> is the world the client, the store, the recorder and the file system act on.
\<close>

subsection \<open>Parameters\<close>

fun parse_header_fields :: "(string \<times> json) list \<Rightarrow> ToolError + (string \<times> string) list" where
  "parse_header_fields [] = Inr []"
| "parse_header_fields ((k, v) # kvs) =
     (case as_str v of
        None \<Rightarrow> Inl (InvalidParameters (''header '' @ [CHR 0x27] @ k @ [CHR 0x27] @ '' must have a string value''))
      | Some value \<Rightarrow> (case parse_header_fields kvs of Inl e \<Rightarrow> Inl e | Inr hs \<Rightarrow> Inr ((k, value) # hs)))"

definition indexed :: "nat \<Rightarrow> string" where
  "indexed idx = ''headers['' @ show_nat idx @ '']''"

fun parse_header_items :: "nat \<Rightarrow> json list \<Rightarrow> ToolError + (string \<times> string) list" where
  "parse_header_items idx [] = Inr []"
| "parse_header_items idx (item # items) =
     (case item of
        JObject _ \<Rightarrow>
          (case Option.bind (json_get ''name'' item) as_str of
             None \<Rightarrow> Inl (InvalidParameters (indexed idx @ ''.name must be a string''))
           | Some name \<Rightarrow>
               (case Option.bind (json_get ''value'' item) as_str of
                  None \<Rightarrow> Inl (InvalidParameters (indexed idx @ ''.value must be a string''))
                | Some value \<Rightarrow> (case parse_header_items (Suc idx) items of Inl e \<Rightarrow> Inl e | Inr hs \<Rightarrow> Inr ((name, value) # hs))))
      | _ \<Rightarrow> Inl (InvalidParameters (indexed idx @ '' must be an object with '' @ [CHR 0x27] @ ''name'' @ [CHR 0x27] @
          '' and '' @ [CHR 0x27] @ ''value'' @ [CHR 0x27])))"

definition parse_headers_param :: "json option \<Rightarrow> ToolError + (string \<times> string) list" where
  "parse_headers_param headers =
     (case headers of
        None \<Rightarrow> Inr []
      | Some (JObject kvs) \<Rightarrow> parse_header_fields kvs
      | Some (JArray items) \<Rightarrow> parse_header_items 0 items
      | Some _ \<Rightarrow> Inl (InvalidParameters ([CHR 0x27] @ ''headers'' @ [CHR 0x27] @ '' must be an object or an array of {name, value}'')))"

subsection \<open>Environment\<close>

datatype RequestBody = NoBody | TextBody string | JsonBody json

record HttpRequest =
  hq_method :: string
  hq_url :: Url
  hq_query :: "(string \<times> string) list"
  hq_headers :: "(string \<times> string) list"
  hq_body :: RequestBody

text \<open>What the recorder sees of a request.\<close>

record HttpExchangeRequest =
  hx_method :: string
  hx_url :: string
  hx_headers :: "(string \<times> string) list"
  hx_body :: "string option"

record HttpExchangeResponse =
  hy_status :: nat
  hy_headers :: "(string \<times> string) list"
  hy_body :: string

datatype SendError = SendTimeout | SendFailed string

text \<open>A response: the headers that are text, the declared length if it is a number, and the stream of chunks.\<close>

record HttpResponse =
  hr_status :: nat
  hr_headers :: "(string \<times> string) list"
  hr_content_length :: "nat option"
  hr_chunks :: "(string + string) list"

record 'w HttpEnv =
  he_net :: NetEnv
  he_query_pairs :: "Url \<Rightarrow> (string \<times> string) list"
  he_append_pair :: "string \<times> string \<Rightarrow> Url \<Rightarrow> Url"
  he_url_str :: "Url \<Rightarrow> string"
  he_from_str :: "string \<Rightarrow> json option"
  he_to_vec :: "json \<Rightarrow> string + string"
  he_lossy :: "string \<Rightarrow> string"
  he_search :: search
  he_detector :: LeakDetector
  he_registry :: "SharedCredentialRegistry option"
  he_secrets :: "'w get_decrypted option"
  he_user_id :: string
  he_before_request :: "(HttpExchangeRequest \<Rightarrow> 'w \<Rightarrow> HttpExchangeResponse option \<times> 'w) option"
  he_after_response :: "HttpExchangeRequest \<Rightarrow> HttpExchangeResponse \<Rightarrow> 'w \<Rightarrow> 'w"
  he_send :: "HttpRequest \<Rightarrow> 'w \<Rightarrow> (SendError + HttpResponse) \<times> 'w"
  he_to_markdown :: "(string \<Rightarrow> string \<Rightarrow> string + string) option"
  he_fs :: FsEnv
  he_create_dir_all :: "path \<Rightarrow> string option"
  he_write :: "path \<Rightarrow> string \<Rightarrow> 'w \<Rightarrow> string option \<times> 'w"

subsection \<open>Approval and redirects\<close>

definition extract_host_from_params :: "NetEnv \<Rightarrow> json \<Rightarrow> string option" where
  "extract_host_from_params env params = Option.bind (parsed_url env params) u_host_str"

definition http_requires_approval :: "'w HttpEnv \<Rightarrow> json \<Rightarrow> ApprovalRequirement" where
  "http_requires_approval env params =
     (if params_contain_manual_credentials (he_net env) (he_query_pairs env) params then Always
      else if (case (he_registry env, extract_host_from_params (he_net env) params) of
                 (Some reg, Some host) \<Rightarrow> has_credentials_for_host host reg
               | _ \<Rightarrow> False) then Always
      else UnlessAutoApproved)"

text \<open>The redirect policy of the client: the number of hops before, and the target.\<close>

definition http_redirect :: "NetEnv \<Rightarrow> nat \<Rightarrow> Url \<Rightarrow> string + unit" where
  "http_redirect env previous url =
     (if previous \<ge> 10 then Inl ''too many redirects''
      else if u_scheme url \<noteq> ''https'' then Inl ''redirect to non-HTTPS URL is not allowed''
      else case u_host_str url of
          None \<Rightarrow> Inr ()
        | Some host \<Rightarrow>
            let host_lower = to_lowercase host
            in if host_lower = ''localhost'' \<or> ends_with host_lower ''.localhost'' then Inl ''redirect to localhost is not allowed''
               else if (case ne_parse_ip env host of Some ip \<Rightarrow> is_disallowed_ip ip | None \<Rightarrow> False)
               then Inl ''redirect to private/local IP is not allowed''
               else (case ne_lookup env host (case u_port_or_known_default url of Some p \<Rightarrow> p | None \<Rightarrow> 443) of
                  Inl _ \<Rightarrow> Inr ()
                | Inr addrs \<Rightarrow>
                    (case find is_disallowed_ip addrs of
                       Some ip \<Rightarrow> Inl (''redirect target '' @ [CHR 0x27] @ host @ [CHR 0x27] @ '' resolves to disallowed IP '' @ ne_show_ip env ip)
                     | None \<Rightarrow> Inr ())))"

subsection \<open>The request\<close>

text \<open>The body as it is sent, and its bytes.\<close>

definition build_body :: "'w HttpEnv \<Rightarrow> json option \<Rightarrow> ToolError + RequestBody \<times> string option" where
  "build_body env body =
     (case body of
        None \<Rightarrow> Inr (NoBody, None)
      | Some (JString body_str) \<Rightarrow>
          (case he_from_str env body_str of
             Some json_body \<Rightarrow>
               (case he_to_vec env json_body of
                  Inl e \<Rightarrow> Inl (InvalidParameters (''invalid body JSON: '' @ e))
                | Inr bytes \<Rightarrow> Inr (JsonBody json_body, Some bytes))
           | None \<Rightarrow> Inr (TextBody body_str, Some body_str))
      | Some b \<Rightarrow>
          (case he_to_vec env b of
             Inl e \<Rightarrow> Inl (InvalidParameters (''invalid body JSON: '' @ e))
           | Inr bytes \<Rightarrow> Inr (JsonBody b, Some bytes)))"

text \<open>One mapping after another: a secret that cannot be read is left out. The URL is the one that is scanned and recorded.\<close>

fun inject_matched ::
    "'w HttpEnv \<Rightarrow> 'w get_decrypted \<Rightarrow> CredentialMapping list \<Rightarrow> HttpRequest \<times> Url \<Rightarrow> 'w \<Rightarrow> (HttpRequest \<times> Url) \<times> 'w" where
  "inject_matched env get_decrypted [] st w = (st, w)"
| "inject_matched env get_decrypted (mapping # mappings) (request, url) w =
     (case get_decrypted (he_user_id env) (cp_secret_name mapping) w of
        (Inl _, w) \<Rightarrow> inject_matched env get_decrypted mappings (request, url) w
      | (Inr secret, w) \<Rightarrow>
          let injected = inject_credential (cp_location mapping) secret injected_empty
          in inject_matched env get_decrypted mappings
               (request\<lparr>hq_headers := hq_headers request @ ic_headers injected, hq_query := hq_query request @ ic_query_params injected\<rparr>,
                fold (he_append_pair env) (ic_query_params injected) url) w)"

definition METHODS :: "string list" where
  "METHODS = [''GET'', ''POST'', ''PUT'', ''DELETE'', ''PATCH'']"

definition inject_step :: "'w HttpEnv \<Rightarrow> HttpRequest \<Rightarrow> 'w \<Rightarrow> (HttpRequest \<times> Url) \<times> 'w" where
  "inject_step env request w =
     (case (he_registry env, he_secrets env) of
        (Some reg, Some get_decrypted) \<Rightarrow>
          inject_matched env get_decrypted
            (find_for_host (case u_host_str (hq_url request) of Some h \<Rightarrow> h | None \<Rightarrow> []) reg) (request, hq_url request) w
      | _ \<Rightarrow> ((request, hq_url request), w))"

text \<open>Everything up to the point where the request is sent.\<close>

definition http_prepare :: "'w HttpEnv \<Rightarrow> json \<Rightarrow> 'w \<Rightarrow> (ToolError + HttpRequest \<times> HttpExchangeRequest) \<times> 'w" where
  "http_prepare env params w =
     (case require_str params ''method'' of Inl e \<Rightarrow> (Inl e, w) | Inr m \<Rightarrow>
      case require_str params ''url'' of Inl e \<Rightarrow> (Inl e, w) | Inr url \<Rightarrow>
      case http_validate_url (he_net env) url of Inl e \<Rightarrow> (Inl e, w) | Inr parsed \<Rightarrow>
      case parse_headers_param (json_get ''headers'' params) of Inl e \<Rightarrow> (Inl e, w) | Inr headers_vec \<Rightarrow>
      if to_uppercase m \<notin> set METHODS then (Inl (InvalidParameters (''unsupported method: '' @ m)), w)
      else case build_body env (json_get ''body'' params) of Inl e \<Rightarrow> (Inl e, w) | Inr (body, body_bytes) \<Rightarrow>
      case inject_step env \<lparr>hq_method = to_uppercase m, hq_url = parsed, hq_query = [], hq_headers = headers_vec, hq_body = body\<rparr> w of
        ((request, parsed), w) \<Rightarrow>
          (case scan_http_request (he_search env) (he_lossy env) (he_detector env) (he_url_str env parsed) (hq_headers request) body_bytes of
             Inl e \<Rightarrow> (Inl (NotAuthorized (show_leak_error e)), w)
           | Inr _ \<Rightarrow>
               (Inr (request, \<lparr>hx_method = to_uppercase m, hx_url = he_url_str env parsed, hx_headers = hq_headers request,
                  hx_body = map_option (he_lossy env) body_bytes\<rparr>), w)))"

subsection \<open>The response\<close>

definition MAX_RESPONSE_SIZE :: nat where
  "MAX_RESPONSE_SIZE = 5 * 1024 * 1024"

definition MAX_SAVE_TO_SIZE :: nat where
  "MAX_SAVE_TO_SIZE = 50 * 1024 * 1024"

text \<open>The loop over the chunks of the stream.\<close>

fun read_body :: "nat \<Rightarrow> string \<Rightarrow> (string + string) list \<Rightarrow> ToolError + string" where
  "read_body max_size body [] = Inr body"
| "read_body max_size body (Inl e # chunks) = Inl (ExternalService (''failed to read response body: '' @ e))"
| "read_body max_size body (Inr chunk # chunks) =
     (if length body + length chunk > max_size
      then Inl (ExecutionFailed (''Response body exceeds maximum allowed size ('' @ show_nat max_size @ '' bytes)''))
      else read_body max_size (body @ chunk) chunks)"

definition is_html_response :: "(string \<times> string) list \<Rightarrow> bool" where
  "is_html_response headers =
     (case find (\<lambda>(k, _). to_lowercase k = ''content-type'') headers of
        Some (_, v) \<Rightarrow> contains (to_lowercase v) ''text/html''
      | None \<Rightarrow> False)"

definition headers_json :: "(string \<times> string) list \<Rightarrow> json" where
  "headers_json hs = JObject (map (\<lambda>(k, v). (k, JString v)) hs)"

definition response_result :: "nat \<Rightarrow> (string \<times> string) list \<Rightarrow> json \<Rightarrow> json" where
  "response_result status headers body =
     JObject [(''status'', JNumber (show_nat status)), (''headers'', headers_json headers), (''body'', body)]"

definition body_json :: "'w HttpEnv \<Rightarrow> string \<Rightarrow> json" where
  "body_json env text = (case he_from_str env text of Some j \<Rightarrow> j | None \<Rightarrow> JString text)"

definition save_body :: "'w HttpEnv \<Rightarrow> string \<Rightarrow> string \<Rightarrow> 'w \<Rightarrow> (ToolError + path) \<times> 'w" where
  "save_body env save_to bytes w =
     (case validate_save_to_path (he_fs env) (he_create_dir_all env) save_to of
        Inl e \<Rightarrow> (Inl e, w)
      | Inr canonical \<Rightarrow>
          (case he_write env canonical bytes w of
             (Some e, w) \<Rightarrow> (Inl (ExecutionFailed (''failed to write file: '' @ e)), w)
           | (None, w) \<Rightarrow> (Inr canonical, w)))"

text \<open>A result is its JSON and the raw text, if any. \<open>respond_with_body\<close> is what follows the check of the declared length.\<close>

definition respond_with_body ::
    "'w HttpEnv \<Rightarrow> json \<Rightarrow> HttpExchangeRequest \<Rightarrow> HttpResponse \<Rightarrow> nat \<Rightarrow> 'w \<Rightarrow> (ToolError + json \<times> string option) \<times> 'w" where
  "respond_with_body env params intercept_req response max_size w =
     (case read_body max_size [] (hr_chunks response) of Inl e \<Rightarrow> (Inl e, w) | Inr body_bytes \<Rightarrow>
      case Option.bind (json_get ''save_to'' params) as_str of
        Some save_to \<Rightarrow>
          (case save_body env save_to body_bytes w of
             (Inl e, w) \<Rightarrow> (Inl e, w)
           | (Inr _, w) \<Rightarrow>
               (Inr (JObject [(''status'', JNumber (show_nat (hr_status response))), (''saved_to'', JString save_to),
                  (''size_bytes'', JNumber (show_nat (length body_bytes))), (''headers'', headers_json (hr_headers response))], None), w))
      | None \<Rightarrow>
          let body_text = he_lossy env body_bytes;
              w = (if he_before_request env \<noteq> None
                   then he_after_response env intercept_req
                     \<lparr>hy_status = hr_status response, hy_headers = hr_headers response, hy_body = body_text\<rparr> w
                   else w);
              body_text = (case he_to_markdown env of
                  Some convert \<Rightarrow>
                    if is_html_response (hr_headers response)
                    then (case convert body_text (hx_url intercept_req) of Inr md \<Rightarrow> md | Inl _ \<Rightarrow> body_text)
                    else body_text
                | None \<Rightarrow> body_text)
          in (Inr (response_result (hr_status response) (hr_headers response) (body_json env body_text), Some body_text), w))"

definition finish_response ::
    "'w HttpEnv \<Rightarrow> json \<Rightarrow> HttpExchangeRequest \<Rightarrow> HttpResponse \<Rightarrow> 'w \<Rightarrow> (ToolError + json \<times> string option) \<times> 'w" where
  "finish_response env params intercept_req response w =
     (let max_size = (if json_get ''save_to'' params \<noteq> None then MAX_SAVE_TO_SIZE else MAX_RESPONSE_SIZE)
      in case hr_content_length response of
          Some len \<Rightarrow>
            if len > max_size
            then (Inl (ExecutionFailed (''Response Content-Length ('' @ show_nat len @ '' bytes) exceeds maximum allowed size ('' @
              show_nat max_size @ '' bytes)'')), w)
            else respond_with_body env params intercept_req response max_size w
        | None \<Rightarrow> respond_with_body env params intercept_req response max_size w)"

definition http_execute :: "'w HttpEnv \<Rightarrow> json \<Rightarrow> 'w \<Rightarrow> (ToolError + json \<times> string option) \<times> 'w" where
  "http_execute env params w =
     (case http_prepare env params w of
        (Inl e, w) \<Rightarrow> (Inl e, w)
      | (Inr (request, intercept_req), w) \<Rightarrow>
          (case (case he_before_request env of Some before \<Rightarrow> before intercept_req w | None \<Rightarrow> (None, w)) of
             (Some recorded, w) \<Rightarrow>
               (Inr (response_result (hy_status recorded) (hy_headers recorded) (body_json env (hy_body recorded)), Some (hy_body recorded)), w)
           | (None, w) \<Rightarrow>
               (case he_send env request w of
                  (Inl SendTimeout, w) \<Rightarrow> (Inl (ToolTimeout (secs 30)), w)
                | (Inl (SendFailed e), w) \<Rightarrow> (Inl (ExternalService e), w)
                | (Inr response, w) \<Rightarrow> finish_response env params intercept_req response w)))"

subsection \<open>An example\<close>

text \<open>A tool whose detector blocks one text, with a mapping for a host of its own.\<close>

definition demo_detector :: LeakDetector where
  "demo_detector = with_patterns [\<lparr>lp_name = ''k'', lp_regex = \<lparr>lx_source = ''K'', lx_find_iter = (\<lambda>s. if s = ''K'' then [(0, 1)] else [])\<rparr>,
     lp_severity = SevHigh, lp_action = LeakBlock\<rparr>]"

definition demo_http :: "nat HttpEnv" where
  "demo_http = \<lparr>he_net = demo_net public_addrs, he_query_pairs = (\<lambda>_. []), he_append_pair = (\<lambda>_ u. u),
     he_url_str = (\<lambda>_. ''https://example.com/''), he_from_str = (\<lambda>_. None), he_to_vec = (\<lambda>_. Inl ''no''), he_lossy = (\<lambda>s. s),
     he_search = standard_search, he_detector = demo_detector, he_registry = Some [mapping_bearer ''api'' ''api.y.org''],
     he_secrets = Some (\<lambda>_ _ w. (Inr ''key'', w)), he_user_id = ''u'', he_before_request = None, he_after_response = (\<lambda>_ _ w. w),
     he_send = (\<lambda>_ w. (Inl SendTimeout, w)), he_to_markdown = None,
     he_fs = \<lparr>fs_canonicalize = (\<lambda>_. None), fs_exists = (\<lambda>_. False), fs_current_dir = None\<rparr>,
     he_create_dir_all = (\<lambda>_. None), he_write = (\<lambda>_ _ w. (None, w))\<rparr>"

definition demo_params :: json where
  "demo_params = JObject [(''method'', JString ''get''), (''url'', JString ''u'')]"

subsection \<open>Credentials need approval\<close>

lemma parsed_fields: "parse_header_fields kvs = Inr hs \<Longrightarrow> (n, v) \<in> set hs \<Longrightarrow> (n, JString v) \<in> set kvs"
  by (induction kvs arbitrary: hs) (auto simp: as_str_def split: option.splits sum.splits json.splits)

lemma parsed_items:
  "parse_header_items i items = Inr hs \<Longrightarrow> (n, v) \<in> set hs \<Longrightarrow>
     \<exists>item \<in> set items. Option.bind (json_get ''name'' item) as_str = Some n \<and> Option.bind (json_get ''value'' item) as_str = Some v"
proof (induction items arbitrary: i hs)
  case (Cons item items)
  then show ?case by (auto split: option.splits sum.splits json.splits) blast+
qed simp

lemma sent_headers_detected:
  assumes "parse_headers_param (json_get ''headers'' params) = Inr hs" and "(n, v) \<in> set hs"
    and "header_name_is_credential n \<or> header_value_is_credential v"
  shows "headers_contain_credentials params"
proof (cases "json_get ''headers'' params")
  case (Some h)
  then show ?thesis
  proof (cases h)
    case (JArray items)
    then have "parse_header_items 0 items = Inr hs" using assms(1) Some by (simp add: parse_headers_param_def)
    from parsed_items [OF this assms(2)] show ?thesis using assms(3) Some JArray
      by (force simp: headers_contain_credentials_def list_ex_iff is_some_and_def Let_def)
  next
    case (JObject kvs)
    then have "parse_header_fields kvs = Inr hs" using assms(1) Some by (simp add: parse_headers_param_def)
    from parsed_fields [OF this assms(2)] show ?thesis using assms(3) Some JObject
      by (force simp: headers_contain_credentials_def list_ex_iff is_some_and_def as_str_def)
  qed (use assms Some in \<open>auto simp: parse_headers_param_def\<close>)
qed (use assms in \<open>auto simp: parse_headers_param_def\<close>)

text \<open>
  Property C7. The model cannot use credentials without asking: if a header of the request has the name or the value of a credential, or the
  address has a user name, a password or a parameter named like a credential, the tool asks for approval each time, in whichever of
  the two formats the headers are written.
\<close>

theorem manual_credentials_need_approval:
  assumes "(\<exists>hs n v. parse_headers_param (json_get ''headers'' params) = Inr hs \<and> (n, v) \<in> set hs \<and>
      (header_name_is_credential n \<or> header_value_is_credential v)) \<or>
    (\<exists>u. parsed_url (he_net env) params = Some u \<and> (u_username u \<noteq> [] \<or> u_password u \<noteq> None \<or>
      (\<exists>name value. (name, value) \<in> set (he_query_pairs env u) \<and> query_param_is_credential name)))"
  shows "http_requires_approval env params = Always"
proof -
  have "headers_contain_credentials params \<or> url_contains_userinfo (he_net env) params \<or>
      url_contains_credential_params (he_net env) (he_query_pairs env) params"
    using assms sent_headers_detected
    by (fastforce simp: url_contains_userinfo_def url_contains_credential_params_def list_ex_iff)
  then show ?thesis by (auto simp: http_requires_approval_def params_contain_manual_credentials_def)
qed

theorem manual_credentials_need_approval_witness:
  "http_requires_approval demo_http (JObject [(''url'', JString ''u''), (''headers'', JArray [JObject [(''name'', JString ''X-Api-Key''), (''value'', JString ''1'')]])]) = Always"
proof -
  let ?params = "JObject [(''url'', JString ''u''), (''headers'', JArray [JObject [(''name'', JString ''X-Api-Key''), (''value'', JString ''1'')]])]"
  have "parse_headers_param (json_get ''headers'' ?params) = Inr [(''X-Api-Key'', ''1'')]" by code_simp
  moreover have "header_name_is_credential ''X-Api-Key''" by code_simp
  ultimately show ?thesis by (intro manual_credentials_need_approval disjI1 exI [of _ "[(''X-Api-Key'', ''1'')]"]) auto
qed

lemma approval_ignores_store [simp]: "http_requires_approval (env\<lparr>he_secrets := g\<rparr>) params = http_requires_approval env params"
  by (simp add: http_requires_approval_def)

lemma inject_step_unapproved:
  assumes "http_requires_approval env params \<noteq> Always" and "parsed_url (he_net env) params = Some (hq_url request)"
    and "u_host_str (hq_url request) = Some h"
  shows "inject_step env request w = ((request, hq_url request), w)"
proof (cases "he_registry env")
  case (Some reg)
  then have "\<not> has_credentials_for_host h reg"
    using assms by (auto simp: http_requires_approval_def extract_host_from_params_def split: if_splits)
  then show ?thesis using Some assms(3) by (simp add: inject_step_def has_credentials_iff split: option.split)
qed (simp add: inject_step_def)

lemma validated_url:
  assumes "require_str params ''url'' = Inr url" and "http_validate_url (he_net env) url = Inr parsed"
  shows "parsed_url (he_net env) params = Some parsed" and "\<exists>h. u_host_str parsed = Some h"
  using assms
  by (auto simp: parsed_url_def require_str_def http_validate_url_def Let_def split: option.splits sum.splits if_splits)

text \<open>
  Property C6. Without approval no secret leaves the store: if the tool does not ask for approval each time, the request it prepares does not
  depend on the store of secrets.
\<close>

theorem unapproved_reads_no_secret:
  assumes "http_requires_approval env params \<noteq> Always"
  shows "http_prepare (env\<lparr>he_secrets := Some get'\<rparr>) params w = http_prepare env params w"
proof -
  let ?env = "env\<lparr>he_secrets := Some get'\<rparr>"
  have body: "build_body ?env b = build_body env b" for b by (simp add: build_body_def split: option.split json.split)
  have inj: "inject_step ?env request w = inject_step env request w"
    if url: "require_str params ''url'' = Inr url" "http_validate_url (he_net env) url = Inr (hq_url request)" for url request
  proof -
    obtain h where "u_host_str (hq_url request) = Some h" using validated_url(2) [OF url] by blast
    then show ?thesis
      using inject_step_unapproved [of env params request h w] inject_step_unapproved [of ?env params request h w] assms validated_url(1) [OF url] by simp
  qed
  show ?thesis unfolding http_prepare_def by (auto simp: body inj split: sum.split prod.split)
qed

theorem unapproved_reads_no_secret_witness:
  "http_prepare (demo_http\<lparr>he_secrets := Some (\<lambda>_ _ w. (Inr ''stolen'', w + 1))\<rparr>) demo_params 0 = http_prepare demo_http demo_params 0"
  by (rule unapproved_reads_no_secret) code_simp

subsection \<open>Requests are scanned\<close>




text \<open>
  The scan comes after the injection: a stored key of a kind the detector blocks is never delivered, although it is
  injected for the very host it belongs to.
\<close>

lemma inject_matched_headers: "set (hq_headers request) \<subseteq> set (hq_headers (fst (fst (inject_matched env get ms (request, url) w))))"
  by (induction env get ms "(request, url)" w arbitrary: request url rule: inject_matched.induct) (force split: prod.splits sum.splits simp: Let_def)+

lemma injected_key_refused:
  assumes "he_registry env = Some reg" and "he_secrets env = Some get" and "u_host_str (hq_url request) = Some host"
    and "find_for_host host reg = mapping_bearer name pattern # ms" and "get (he_user_id env) name w = (Inr secret, w')"
    and "idx \<in> set (candidate_indices (he_search env) (he_detector env) (''Bearer '' @ secret))"
    and "lp_action (ld_patterns (he_detector env) ! idx) = LeakBlock"
    and "lx_find_iter (lp_regex (ld_patterns (he_detector env) ! idx)) (''Bearer '' @ secret) \<noteq> []"
    and "inject_step env request w = ((request', url), w'')"
  shows "\<exists>e. scan_http_request (he_search env) lossy (he_detector env) u (hq_headers request') body = Inl e"
proof -
  let ?inj = "request\<lparr>hq_headers := hq_headers request @ [(''Authorization'', ''Bearer '' @ secret)]\<rparr>"
  have "inject_step env request w = inject_matched env get ms (?inj, hq_url request) w'"
    using assms(1-5) by (simp add: inject_step_def mapping_bearer_def inject_credential_def injected_empty_def)
  then have res: "inject_matched env get ms (?inj, hq_url request) w' = ((request', url), w'')" using assms(9) by simp
  have "set (hq_headers ?inj) \<subseteq> set (hq_headers request')"
    using inject_matched_headers [of ?inj env get ms "hq_url request" w'] by (simp only: res fst_conv)
  then have "(''Authorization'', ''Bearer '' @ secret) \<in> set (hq_headers request')" by auto
  then have "''Bearer '' @ secret \<in> snd ` set (hq_headers request')" by force
  then show ?thesis
    using request_scanned [of "he_search env" lossy "he_detector env" u "hq_headers request'" body "''Bearer '' @ secret" idx] assms(6-8)
    by (cases "scan_http_request (he_search env) lossy (he_detector env) u (hq_headers request') body") auto
qed

subsection \<open>Redirects and responses\<close>

text \<open>
  Also: A redirect leads nowhere the first request could not have gone: a target the client follows, if it has a host, is one
  \<open>validate_url\<close> accepts, and at most ten hops are made.
\<close>

theorem redirect_as_first:
  assumes "http_redirect env previous url = Inr ()" and "ne_parse_url env s = Inr url" and "u_host_str url = Some host"
  shows "http_validate_url env s = Inr url \<and> previous < 10"
  using assms
  by (auto simp: http_redirect_def http_validate_url_def Let_def split: if_splits option.splits sum.splits)

theorem redirect_as_first_witness:
  "http_validate_url (demo_net public_addrs) ''u'' = Inr (demo_url ''example.com'' (Domain ''example.com'')) \<and> (3 :: nat) < 10"
  by (rule redirect_as_first [where host = "''example.com''"])
    (simp_all add: http_redirect_def demo_net_defs public_addrs_accepted Let_def, code_simp)

lemma read_body_iff:
  "read_body m b chunks = Inr body \<longleftrightarrow> (\<exists>cs. chunks = map Inr cs \<and> body = b @ concat cs \<and> (cs \<noteq> [] \<longrightarrow> length body \<le> m))"
proof (induction m b chunks rule: read_body.induct)
  case (2 m b e chunks)
  then show ?case by auto
next
  case (3 m b chunk chunks)
  show ?case
  proof
    assume "read_body m b (Inr chunk # chunks) = Inr body"
    then obtain cs where "chunks = map Inr cs" "body = (b @ chunk) @ concat cs" "length b + length chunk \<le> m" "cs \<noteq> [] \<longrightarrow> length body \<le> m"
      using 3 by (auto split: if_splits)
    then show "\<exists>cs. Inr chunk # chunks = map Inr cs \<and> body = b @ concat cs \<and> (cs \<noteq> [] \<longrightarrow> length body \<le> m)"
      by (intro exI [of _ "chunk # cs"]) (cases cs; auto)
  next
    assume "\<exists>cs. Inr chunk # chunks = map Inr cs \<and> body = b @ concat cs \<and> (cs \<noteq> [] \<longrightarrow> length body \<le> m)"
    then obtain cs where "chunks = map Inr cs" "body = b @ chunk @ concat cs" "length body \<le> m" by (auto simp: Cons_eq_map_conv)
    then show "read_body m b (Inr chunk # chunks) = Inr body" using 3 by auto
  qed
qed auto

text \<open>
  Also: A response is read within its limit: reading succeeds exactly when no chunk fails and the chunks together have at most as many
  bytes as allowed, whatever length was declared, and gives the chunks in order.
\<close>

theorem response_bounded:
  "read_body max_size [] chunks = Inr body \<longleftrightarrow> (\<exists>cs. chunks = map Inr cs \<and> body = concat cs \<and> length body \<le> max_size)"
proof -
  have "(cs \<noteq> [] \<longrightarrow> length (concat cs) \<le> max_size) = (length (concat cs) \<le> max_size)" for cs by (cases cs) auto
  then show ?thesis unfolding read_body_iff by auto
qed

end
