(* ===== verification/Tool_Execution.thy ===== *)
theory Tool_Execution
  imports Safety Http_Tool
begin

text \<open>
  The shared pipeline of tool execution: \<^verbatim>\<open>src/tools/execute.rs\<close>, with the errors of \<^verbatim>\<open>src/error.rs\<close>. Every run of a tool, in the
  chat, in a job and in a container, is a lookup, a validation of its parameters, the run under a timeout and the
  serialisation of its result; the result becomes a message through the safety layer. The lemmas say when a tool runs
  at all, and which messages do not pass the safety layer.

  A run is an operation on a state \<open>'w\<close> that gives nothing when it is cut off by the timeout. Serialisation, the
  format of a duration and of the errors of tools are arguments.
\<close>

datatype PipelineError =
    PeNotFound string
  | PeExecutionFailed string string
  | PeTimeout string duration
  | PeInvalidParameters string string

fun show_pipeline_error :: "(duration \<Rightarrow> string) \<Rightarrow> PipelineError \<Rightarrow> string" where
  "show_pipeline_error sd (PeNotFound name) = ''Tool '' @ name @ '' not found''"
| "show_pipeline_error sd (PeExecutionFailed name reason) = ''Tool '' @ name @ '' execution failed: '' @ reason"
| "show_pipeline_error sd (PeTimeout name timeout) = ''Tool '' @ name @ '' timed out after '' @ sd timeout"
| "show_pipeline_error sd (PeInvalidParameters name reason) = ''Invalid parameters for tool '' @ name @ '': '' @ reason"

record 'w RegisteredTool =
  rt_execution_timeout :: duration
  rt_execute :: "json \<Rightarrow> 'w \<Rightarrow> (ToolError + json) option \<times> 'w"

record 'w ToolPipeline =
  tp_get :: "string \<Rightarrow> 'w RegisteredTool option"
  tp_safety :: SafetyLayer
  tp_to_string_pretty :: "json \<Rightarrow> string + string"
  tp_show_tool_error :: "ToolError \<Rightarrow> string"

definition invalid_details :: "ValidationResult \<Rightarrow> string" where
  "invalid_details validation = join ''; '' (map (\<lambda>e. ve_field e @ '': '' @ ve_message e) (vr_errors validation))"

definition execute_tool_with_safety :: "'w ToolPipeline \<Rightarrow> string \<Rightarrow> json \<Rightarrow> 'w \<Rightarrow> (PipelineError + string) \<times> 'w" where
  "execute_tool_with_safety tp tool_name params w =
     (case tp_get tp tool_name of
        None \<Rightarrow> (Inl (PeNotFound tool_name), w)
      | Some tool \<Rightarrow>
          let validation = validate_tool_params (sl_validator (tp_safety tp)) params
          in if \<not> vr_is_valid validation
             then (Inl (PeInvalidParameters tool_name (''Invalid tool parameters: '' @ invalid_details validation)), w)
             else (case rt_execute tool params w of
                (None, w) \<Rightarrow> (Inl (PeTimeout tool_name (rt_execution_timeout tool)), w)
              | (Some (Inl e), w) \<Rightarrow> (Inl (PeExecutionFailed tool_name (tp_show_tool_error tp e)), w)
              | (Some (Inr result), w) \<Rightarrow>
                  (case tp_to_string_pretty tp result of
                     Inl e \<Rightarrow> (Inl (PeExecutionFailed tool_name (''Failed to serialize result: '' @ e)), w)
                   | Inr s \<Rightarrow> (Inr s, w))))"

definition execute_tool_simple :: "(duration \<Rightarrow> string) \<Rightarrow> 'w ToolPipeline \<Rightarrow> string \<Rightarrow> json \<Rightarrow> 'w \<Rightarrow> (string + string) \<times> 'w" where
  "execute_tool_simple sd tp tool_name params w =
     (case execute_tool_with_safety tp tool_name params w of
        (Inl e, w) \<Rightarrow> (Inl (show_pipeline_error sd e), w)
      | (Inr s, w) \<Rightarrow> (Inr s, w))"

text \<open>An error is given as its text.\<close>

definition process_tool_result :: "search \<Rightarrow> search \<Rightarrow> SafetyLayer \<Rightarrow> string \<Rightarrow> string \<Rightarrow> string + string \<Rightarrow> string \<times> ChatMessage" where
  "process_tool_result ac aci sl tool_name tool_call_id result =
     (let content =
        (case result of
           Inr output \<Rightarrow>
             let sanitized = sanitize_tool_output ac aci sl tool_name output
             in wrap_for_llm tool_name (so_content sanitized) (so_was_modified sanitized)
         | Inl shown \<Rightarrow> ''Error: '' @ shown)
      in (content, cm_tool_result tool_call_id tool_name content))"

text \<open>The HTTP tool in the registry; a run that takes too long is cut off by the client already.\<close>

definition http_tool :: "duration \<Rightarrow> 'w HttpEnv \<Rightarrow> 'w RegisteredTool" where
  "http_tool timeout env =
     \<lparr>rt_execution_timeout = timeout, rt_execute = (\<lambda>params w. case http_execute env params w of (r, w) \<Rightarrow>
        (Some (case r of Inl e \<Rightarrow> Inl e | Inr (j, _) \<Rightarrow> Inr j), w))\<rparr>"

subsection \<open>When a tool runs\<close>

text \<open>
  Property C34. A tool never sees parameters that were not validated: if a string in the parameters, nested at most 32 deep, is neither empty nor
  acceptable, the tool is not run, the world is unchanged and the error names the tool.
\<close>

theorem invalid_params_not_executed:
  assumes "tp_get tp name = Some tool" and "(d, s) \<in> set (leaf_strings 0 params)" and "d \<le> MAX_DEPTH" and "s \<noteq> []"
    and "\<not> acceptable (sl_validator (tp_safety tp)) s"
  shows "\<exists>details. execute_tool_with_safety tp name params w = (Inl (PeInvalidParameters name details), w)"
proof -
  have "\<not> vr_is_valid (validate_tool_params (sl_validator (tp_safety tp)) params)"
    using assms(2-5) by (force simp: validate_tool_params_def check_strings_valid(1) leaf_ok_def list_all_iff)
  then show ?thesis using assms(1) by (simp add: execute_tool_with_safety_def Let_def)
qed

definition demo_pipeline :: "nat ToolPipeline" where
  "demo_pipeline = \<lparr>tp_get = (\<lambda>_. Some \<lparr>rt_execution_timeout = 60, rt_execute = (\<lambda>p w. (Some (Inr p), Suc w))\<rparr>), tp_safety = demo_layer,
     tp_to_string_pretty = (\<lambda>_. Inr ''{}''), tp_show_tool_error = (\<lambda>_. ''e'')\<rparr>"

theorem invalid_params_not_executed_witness:
  "\<exists>details. execute_tool_with_safety demo_pipeline ''t'' (JObject [(''a'', JArray [JString [CHR 0x00]])]) 0 = (Inl (PeInvalidParameters ''t'' details), 0)"
  by (rule invalid_params_not_executed [where d = 2 and s = "[CHR 0x00]"])
    (simp_all add: demo_pipeline_def MAX_DEPTH_def acceptable_def numeral_2_eq_2)

text \<open>
  Also: With valid parameters a tool that is registered runs exactly once: the world afterwards is the one its run leaves, and the
  outcome is its timeout, its error or its result serialised.
\<close>

theorem valid_params_executed_once:
  assumes "tp_get tp name = Some tool" and "vr_is_valid (validate_tool_params (sl_validator (tp_safety tp)) params)"
    and "rt_execute tool params w = (outcome, w')"
  shows "execute_tool_with_safety tp name params w =
    (case outcome of
       None \<Rightarrow> Inl (PeTimeout name (rt_execution_timeout tool))
     | Some (Inl e) \<Rightarrow> Inl (PeExecutionFailed name (tp_show_tool_error tp e))
     | Some (Inr j) \<Rightarrow> (case tp_to_string_pretty tp j of
         Inl e \<Rightarrow> Inl (PeExecutionFailed name (''Failed to serialize result: '' @ e)) | Inr s \<Rightarrow> Inr s), w')"
  using assms by (simp add: execute_tool_with_safety_def Let_def split: option.split sum.split)

theorem valid_params_executed_once_witness: "execute_tool_with_safety demo_pipeline ''t'' (JObject [(''a'', JString ''x'')]) 0 = (Inr ''{}'', 1)"
proof -
  have "vr_is_valid (validate_tool_params (sl_validator (tp_safety demo_pipeline)) (JObject [(''a'', JString ''x'')]))" by code_simp
  then show ?thesis
    using valid_params_executed_once [where tp = demo_pipeline and name = "''t''" and params = "JObject [(''a'', JString ''x'')]" and w = 0]
    by (simp add: demo_pipeline_def)
qed

subsection \<open>Messages\<close>

text \<open>
  Failures bypass the safety layer: the message for a tool that failed carries the text of the error as it is, whatever the detector,
  the policy and the sanitizer are, and is not wrapped.
\<close>

lemma errors_unchecked:
  "cm_content (snd (process_tool_result ac aci sl name tool_call_id (Inl shown))) = ''Error: '' @ shown"
  by (simp add: process_tool_result_def cm_tool_result_def Let_def)

text \<open>A long output that reaches a container or a job is as little checked as one in the chat; one within the limit is the notice if a secret is found.\<close>

lemma process_secret:
  assumes "length s \<le> sl_max_output_length sl" and "scan_and_clean ac (sl_leak_detector sl) s = Inl e"
  shows "fst (process_tool_result ac aci sl name tool_call_id (Inr s)) = wrap_for_llm name ''[Output blocked due to potential secret leakage]'' True"
  using assms by (simp add: process_tool_result_def secret_output_blocked Let_def)

end
