(* ===== verification/Spec2Isabelle.thy ===== *)
theory Spec2Isabelle
  imports Self_Repair Dispatcher Provider_Chain Rate_Limiter Hooks Shell Allowlist Path_Utils Skill_Chat Pairing Orchestrator_Api Tool_Execution
begin

text \<open>
  \<^bold>\<open>Octoclaw.\<close> The program is a personal assistant: messages from channels become turns of a thread, a turn runs a
  loop in which a language model answers or calls tools, tools act on the machine and the network, and long tasks run
  as jobs, in the process or in containers. This development models its core in Rust (paths below are under the
  directory \<^verbatim>\<open>src\<close> of the repository) and proves what makes the parts, and their composition, correct.

  \<^bold>\<open>How the parts interact.\<close> A channel hands a message to the agent loop; \<open>Pairing\<close> decides whether its sender may talk
  to the channel, \<open>Submission\<close> what kind of submission it is, and \<open>Session_Manager\<close> which session and thread it
  belongs to. \<open>Thread_Ops\<close> handles it on a thread of \<open>Session\<close>, with checkpoints in \<open>Undo\<close>. An input runs
  \<open>Agentic_Loop\<close> with the chat delegate of \<open>Dispatcher\<close>: each round asks the model (\<open>Reasoning\<close>, through the chain of
  decorators of \<open>Provider_Chain\<close>, within \<open>Cost_Guard\<close>), and runs the tool calls it answers with. A call passes \<open>Hooks\<close>
  and the approval of its tool (\<open>Shell\<close>, \<open>Http_Tool\<close>), then the pipeline of \<open>Tool_Execution\<close>; its result passes the
  safety layer (\<open>Safety\<close>, \<open>Leak_Detector\<close>) before it is sent to the model. Active skills (\<open>Skills\<close>, \<open>Skill_Chat\<close>)
  restrict the tools on offer. Jobs are state machines (\<open>Job_State\<close>) in a registry (\<open>Context_Manager\<close>), repaired by
  \<open>Self_Repair\<close>; a job in a container is created by \<open>Job_Manager\<close> and talks to the host through \<open>Orchestrator_Api\<close>,
  authenticated by \<open>Worker_Auth\<close>.

  \<^bold>\<open>Theories and sources.\<close>
  \<^item> \<open>Prelude\<close>, \<open>Text_Util\<close>, \<open>Tool\<close>: machine types, saturating arithmetic, lists and maps, strings as UTF-8 bytes
    (\<^verbatim>\<open>util.rs\<close>), and what tools share (\<^verbatim>\<open>tools/tool.rs\<close>). The named collections and the generic lemmas live here.
  \<^item> \<open>Chat\<close>, \<open>Reasoning\<close> (\<^verbatim>\<open>llm/provider.rs\<close>, \<^verbatim>\<open>llm/error.rs\<close>, \<^verbatim>\<open>llm/reasoning.rs\<close>): messages, requests and the protocol of tool
    calls; \<open>Retry\<close>, \<open>Circuit_Breaker\<close>, \<open>Failover\<close>, \<open>Response_Cache\<close>, \<open>Provider_Chain\<close> (the files of the same names under
    \<^verbatim>\<open>llm\<close>, and \<^verbatim>\<open>llm/mod.rs\<close>): the decorators of a provider and their composition.
  \<^item> \<open>Job_State\<close>, \<open>Job_Memory\<close>, \<open>Context_Manager\<close> (\<^verbatim>\<open>context/*.rs\<close>), \<open>Self_Repair\<close> (\<^verbatim>\<open>agent/self_repair.rs\<close>).
  \<^item> \<open>Session\<close>, \<open>Undo\<close>, \<open>Session_Manager\<close>, \<open>Submission\<close>, \<open>Thread_Ops\<close>, \<open>Cost_Guard\<close>, \<open>Agentic_Loop\<close>, \<open>Dispatcher\<close> (the files of
    the same names under \<^verbatim>\<open>agent\<close>).
  \<^item> \<open>Hooks\<close> (\<^verbatim>\<open>hooks/*.rs\<close>), \<open>Skills\<close> and \<open>Skill_Chat\<close> (\<^verbatim>\<open>skills/mod.rs\<close>, \<^verbatim>\<open>skills/selector.rs\<close>, \<^verbatim>\<open>skills/attenuation.rs\<close>).
  \<^item> \<open>Rate_Limiter\<close> (tools, web gateway, WASM channels), \<open>Net_Guard\<close> (the five guards against internal addresses),
    \<open>Allowlist\<close> (WASM tools and the sandbox proxy), \<open>Path_Utils\<close> (\<^verbatim>\<open>tools/builtin/path_utils.rs\<close>), \<open>Shell\<close>
    (\<^verbatim>\<open>tools/builtin/shell.rs\<close>).
  \<^item> \<open>Leak_Detector\<close>, \<open>Safety\<close> (\<^verbatim>\<open>safety/*.rs\<close>), \<open>Credentials\<close> (\<^verbatim>\<open>safety/credential_detect.rs\<close>,
    \<^verbatim>\<open>tools/wasm/credential_injector.rs\<close>), \<open>Http_Tool\<close> (\<^verbatim>\<open>tools/builtin/http.rs\<close>), \<open>Tool_Execution\<close> (\<^verbatim>\<open>tools/execute.rs\<close>).
  \<^item> \<open>Pairing\<close> (\<^verbatim>\<open>pairing/store.rs\<close>), \<open>Worker_Auth\<close>, \<open>Job_Manager\<close>, \<open>Orchestrator_Api\<close> (\<^verbatim>\<open>orchestrator/*.rs\<close>, \<^verbatim>\<open>worker/api.rs\<close>).
  A struct is a record with the prefix of its initials on its fields, an enum a datatype, a method a function of the
  same name that takes and returns the state it changes; an early return or error is a branch with a value of a sum
  type. Where the code holds no lock between two steps, the steps are separate functions and a step relation or a list
  of events interleaves them (\<open>Circuit_Breaker\<close>, \<open>Response_Cache\<close>, \<open>Context_Manager\<close>, \<open>Job_Manager\<close>).

  \<^bold>\<open>What is shown.\<close>
  \<^item> Execution of tools: a call that needs approval, is vetoed by a hook, or is a destructive shell command under
    auto-approval, is never run; stated as independence of the whole handler from what such a run would do. Requests
    of the HTTP tool that carry credentials need approval, and without it no secret is read. Invalid parameters are
    never seen by a tool. Every call handled is answered, in order, and every request to the model obeys the
    protocol; the loop always ends with an answer.
  \<^item> What reaches the model: blocking secrets in tool outputs, the escape of role markers, the marks on modified output.
  \<^item> Jobs: the recorded history is a path of the state machine, active jobs stay within the limit, under all
    interleavings; a stopped container has no token and no credentials; a worker reaches its own job only. The token
    store refines the history of its events.
  \<^item> Conversations: undo and redo refine a timeline, messages round-trip through the transcript, an approval is used once.
  \<^item> Guards: addresses, allowlists, paths through symbolic links, pairing codes and guesses, rate limits in every interval.
  \<^item> Providers: the decorators invent no response, alone and composed.

  \<^bold>\<open>Interfaces.\<close> \<open>bounded_log\<close> (undo stack, job history, conversation), \<open>job_store\<close>, \<open>get_or_create\<close> (sessions, undo managers),
  \<open>honest_decorator\<close> (retry, failover, breaker, and their layers in the chain), \<open>event_machine\<close> (breaker, cache),
  \<open>loop_delegate\<close> (the chat delegate, with three invariants), \<open>fixed_window\<close> (five rate limits) and \<open>address_guard\<close> (five
  guards) are locales; each is interpreted on the definitions that model the code.

  \<^bold>\<open>Arguments of the model.\<close> Identifiers, clocks and random draws; the decimal type of costs; JSON parsing and printing; URL
  parsing and name resolution; the file system; the regular expression engine and the search for literals (with the
  documented laws as named hypotheses where a theorem needs them); SHA-256; hooks, tools and providers; Docker, the
  store of secrets and the HTTP client. Letter case and white space are those of ASCII.

  \<^bold>\<open>Bounds and fuel.\<close> Loops are structural or have a measure; the agentic loop runs on its own bound of iterations, and
  \<open>chat_loop_ends\<close> shows that the bound is never what ends it. Counters that can overflow are words or saturate as in the
  code; a length is a natural number, as no string of the program reaches the size of the address space. The ratio of
  white space in \<open>Safety\<close> is compared exactly, which agrees with the code below \<open>2 ^ 50\<close> bytes.

  \<^bold>\<open>Not modelled.\<close> Storage (SQL), the protocols of channels, extensions and their installation, the WASM and Docker
  runtimes, provider implementations, routines and timers, the scheduler's tasks, smart routing (floating-point scores),
  configuration, command line and set-up: they act through services, libraries and the file system, and what the
  modelled parts use of them is an argument. \<open>Thread_Ops\<close>, \<open>Dispatcher\<close>, \<open>Reasoning\<close>, \<open>Failover\<close>, \<open>Response_Cache\<close>,
  \<open>Provider_Chain\<close> and \<open>Self_Repair\<close> leave out storage, notifications, the construction of prompts and the parts named
  in their own introductions. Logging is left out everywhere.

  This theory holds the properties that span components: the provider chain, hooks and approval in front of tool
  calls, and the shell tool in a chat.
\<close>

section \<open>The provider chain\<close>

text \<open>
  Also: The provider chain invents nothing: whatever layers are enabled and whatever
  sequence of requests is sent through the freshly built chain, every response that comes back was
  given by one of the raw providers, to the same request or to an earlier one with the same
  cache key.
\<close>

theorem chain_responses_genuine:
  assumes "build_provider_chain cfg s0 = Inr st" and "i < length rs"
    and "chain_trace (chain_complete cfg backoff show_secs model key raw) rs st ! i = (q, Inr r)"
  shows "\<exists>p q' s s'. q' \<in> (\<lambda>(_, _, q). q) ` set (take (Suc i) rs) \<and> key q' = key q \<and> raw (p, q') s = (Inr r, s')"
proof -
  obtain u where st: "st = ([], u)" using assms(1) by (auto simp: build_provider_chain_def split: sum.splits)
  have "cache_from (raw_answers key raw {}) []" by (simp add: cache_from_def)
  from chain_trace_genuine [OF this assms(2), of cfg backoff show_secs model u q r] assms(3) st
  show ?thesis by auto
qed

definition demo_chain_config :: NearAiConfig where
  "demo_chain_config = \<lparr>na_fallback_model = None, na_max_retries = 0,
     na_circuit_breaker_threshold = Some 5, na_circuit_breaker_recovery_secs = 30,
     na_response_cache_enabled = True, na_response_cache_ttl_secs = 3600, na_response_cache_max_entries = 10,
     na_failover_cooldown_secs = 300, na_failover_cooldown_threshold = 3\<rparr>"

definition demo_raw :: "nat \<times> string \<Rightarrow> (nat, nat) operation" where
  "demo_raw p s = (Inr (length (snd p) + s), s + 1)"

theorem chain_responses_genuine_witness:
  "\<exists>p q' s s'. q' \<in> {''hi''} \<and> demo_raw (p, q') s = (Inr 9, s')"
proof -
  let ?clk = "(0, 0, 0, \<lambda>_. 0) :: chain_clock"
  let ?rs = "[(10, ?clk, ''hi''), (20, ?clk, ''hi'')]"
  obtain st :: "nat cache \<times> BreakerState \<times> FailoverProvider \<times> nat"
    where st: "build_provider_chain demo_chain_config 7 = Inr st"
    by (auto simp: build_provider_chain_def failover_with_cooldown_def)
  then have "chain_trace (chain_complete demo_chain_config (\<lambda>_. 0) (\<lambda>_. []) ''m'' (\<lambda>q. q) demo_raw) ?rs st ! 1 =
      (''hi'', Inr 9)"
    by (auto simp: build_provider_chain_def failover_with_cooldown_def chain_complete_def cache_layer_def
        guarded_complete_def breaker_layer_def failover_layer_def retry_layer_def breaker_complete_def
        breaker_check_allowed_def breaker_record_success_def breaker_new_def demo_chain_config_def demo_raw_def
        cached_complete_def cache_lookup_def cache_store_def evict_lru.simps)
  from chain_responses_genuine [OF st _ this] show ?thesis by simp
qed

section \<open>Hooks and tool calls\<close>

text \<open>
  The chat delegate with its hooks run by a registry (\<^verbatim>\<open>src/agent/dispatcher.rs\<close>, \<open>execute_tool_calls\<close>): a tool
  call is shown to the hooks with its sensitive parameters redacted, on behalf of the user, in the context of a chat.
\<close>

definition tool_event :: "'w ChatEnv \<Rightarrow> string \<Rightarrow> ToolCall \<Rightarrow> HookEvent" where
  "tool_event env user tc =
     ToolCallEvent (tc_name tc) (redact_params (tc_arguments tc) (tool_sensitive env (tc_name tc))) user ''chat''"

definition with_registry :: "Serde \<Rightarrow> registry \<Rightarrow> string \<Rightarrow> 'w ChatEnv \<Rightarrow> 'w ChatEnv" where
  "with_registry sd hooks user env =
     env\<lparr>ev_hook := (\<lambda>name params. run sd (ev_show_timeout env) hooks (ToolCallEvent name params user ''chat'')),
         ev_from_str := sd_from_str sd\<rparr>"

text \<open>Some hook stops the event of the call, as the hooks before it left the event.\<close>

definition vetoed :: "Serde \<Rightarrow> registry \<Rightarrow> string \<Rightarrow> 'w ChatEnv \<Rightarrow> ToolCall \<Rightarrow> bool" where
  "vetoed sd hooks user env tc =
     (let ev = tool_event env user tc; hs = matching ev hooks
      in \<exists>i < length hs. hook_blocks (ev_show_timeout env) (hs ! i) (event_at sd hs ev i) \<noteq> None)"

lemma passed_not_vetoed:
  assumes "run_hook (with_registry sd hooks user env) c = Inr tc"
  shows "\<not> vetoed sd hooks user env c" and "tc_name tc = tc_name c"
proof -
  have "\<exists>out. run sd (ev_show_timeout env) hooks (tool_event env user c) = Inr out"
    using assms by (auto simp: run_hook_def with_registry_def tool_event_def tool_sensitive_def split: sum.splits HookError.splits)
  then show "\<not> vetoed sd hooks user env c" by (auto simp: vetoed_def Let_def dest: run_ok_not_blocked)
  show "tc_name tc = tc_name c" using run_hook_keeps_id [OF assms] by simp
qed


definition no_shell_hook :: Hook where
  "no_shell_hook = \<lparr>hk_name = ''no-shell'', hk_points = [BeforeToolCall], hk_failure_mode = FailClosed, hk_timeout = secs 5,
     hk_execute = (\<lambda>ev. case ev of ToolCallEvent name _ _ _ \<Rightarrow>
       if name = ''shell'' then Finished (Inr (HookReject ''no shell'')) else Elapsed | _ \<Rightarrow> Elapsed)\<rparr>"

definition shell_call :: ToolCall where
  "shell_call = \<lparr>tc_id = ''1'', tc_name = ''shell'', tc_arguments = JNull\<rparr>"


section \<open>The shell tool in a chat\<close>

definition destructive :: "ToolCall \<Rightarrow> bool" where
  "destructive tc =
     (tc_name tc = ''shell'' \<and>
      (case Option.bind (json_get ''command'' (tc_arguments tc)) as_str of
         Some cmd \<Rightarrow> requires_explicit_approval cmd | None \<Rightarrow> False))"

lemma destructive_needs_approval:
  assumes "destructive tc" and "\<not> ev_auto_approve_tools env" and "ev_tools env ''shell'' = Some tool"
    and "ti_requires_approval tool = shell_requires_approval sx"
  shows "needs_approval env sess tc"
  using assms
  by (auto simp: destructive_def needs_approval_def shell_requires_approval_def Let_def split: option.splits)

text \<open>
  Property C4. A destructive shell command never runs in a chat without an explicit decision: even if the user has
  approved the shell tool for the whole session, a round of tool calls does not execute a command with
  one of the destructive patterns (unless the operator has turned approval off altogether).
\<close>

theorem destructive_never_auto_executed:
  assumes "\<not> ev_auto_approve_tools env" and "ev_tools env ''shell'' = Some tool"
    and "ti_requires_approval tool = shell_requires_approval sx"
    and "\<And>tc w. \<not> destructive tc \<Longrightarrow> run' tc w = ev_run_tool env tc w"
    and "\<And>batch w. (\<And>i tc. (i, tc) \<in> set batch \<Longrightarrow> \<not> destructive tc) \<Longrightarrow> join' batch w = ev_join env batch w"
  shows "chat_execute_tool_calls (env\<lparr>ev_run_tool := run', ev_join := join'\<rparr>) now new_id tz tid calls content (rc, cs) =
    chat_execute_tool_calls env now new_id tz tid calls content (rc, cs)"
proof (rule execution_confined)
  have ok: "\<not> destructive tc" if "may_run env (cs_session cs) calls tc" for tc
    using that destructive_needs_approval [OF _ assms(1-3)] by (auto simp: may_run_def)
  show "run' tc w = ev_run_tool env tc w" if "may_run env (cs_session cs) calls tc" for tc w
    by (rule assms(4)) (rule ok [OF that])
  show "join' batch w = ev_join env batch w" if "\<And>i tc. (i, tc) \<in> set batch \<Longrightarrow> may_run env (cs_session cs) calls tc" for batch w
    by (rule assms(5)) (rule ok [OF that])
qed

definition shell_chat_env :: "nat ChatEnv" where
  "shell_chat_env = demo_env\<lparr>ev_auto_approve_tools := False, ev_tools := (\<lambda>n. if n = ''shell''
     then Some \<lparr>ti_sensitive_params = [], ti_description = ''Execute shell commands.'',
       ti_requires_approval = shell_requires_approval demo_shell_env\<rparr> else None)\<rparr>"

theorem destructive_never_auto_executed_witness:
  "chat_execute_tool_calls (shell_chat_env\<lparr>
       ev_run_tool := (\<lambda>tc w. if destructive tc then (Inr ''wiped'', 99) else ev_run_tool shell_chat_env tc w),
       ev_join := ev_join shell_chat_env\<rparr>)
     0 9 ''UTC'' 4 [shell_call\<lparr>tc_arguments := JObject [(''command'', JString ''rm -rf /tmp/x'')]\<rparr>] None (reasoning_context_new, demo_chat) =
   chat_execute_tool_calls shell_chat_env
     0 9 ''UTC'' 4 [shell_call\<lparr>tc_arguments := JObject [(''command'', JString ''rm -rf /tmp/x'')]\<rparr>] None (reasoning_context_new, demo_chat)"
  by (rule destructive_never_auto_executed [where sx = demo_shell_env]) (auto simp: shell_chat_env_def)

end
